(* ===== verification/Prelude.thy ===== *)
theory Prelude
  imports Main "HOL-Library.Word" "HOL-Library.State_Monad" "HOL-Library.Signed_Division"
begin

text \<open>
  Shared vocabulary of the development: machine integers at Go's widths, Go errors as values,
  effectful Go functions as state-monad actions over an abstract world, the collections of
  unfolding rules the component proofs use, and a few generic lemmas on lists and runs.

  \<^item> A Go \<open>string\<close> and a Go \<open>[]byte\<close> are both a HOL \<open>string\<close>, whose
    characters are exactly the 256 byte values.
  \<^item> An effectful Go function is an action \<open>('w, 'a) state\<close>: \<open>'w\<close> is the whole
    outside world (Postgres, Redis, clock, vendor, logs), which the code only reaches through
    the client handles it is given.
  \<^item> A Go result pair \<open>(v, err)\<close> is a sum: \<open>Inl err\<close> or \<open>Inr v\<close>.
\<close>

named_theorems go_run \<open>unfolding rules that execute an action of the model\<close>
named_theorems go_std \<open>facts about the modelled part of Go's standard library\<close>

section \<open>Types\<close>

type_synonym int64 = "64 word"
type_synonym int32 = "32 word"
type_synonym goint = "64 word"
type_synonym bytes = string
type_synonym time = int      \<comment> \<open>nanoseconds since the Unix epoch\<close>
type_synonym duration = int  \<comment> \<open>nanoseconds\<close>

type_synonym 'w proc = "('w, unit) state"

section \<open>Errors\<close>

text \<open>
  Go compares errors by identity: the two \<open>ErrAPIKeyLabelExists\<close> variables (package repo and
  package service) carry the same text but are different values, hence two constructors.
  \<open>PgError\<close> carries the SQLSTATE code and its rendered text, \<open>WrapError\<close> is an error
  that wraps another one (\<open>%w\<close>).
\<close>

datatype go_error =
    ErrNoRows
  | PgError string string
  | RedisNil
  | MaxBytesError
  | ErrEmailExists
  | ErrInvalidCredentials
  | RepoErrAPIKeyLabelExists
  | SvcErrAPIKeyLabelExists
  | ErrorString string
  | WrapError string go_error

type_synonym 'a result = "go_error + 'a"

primrec Error :: "go_error \<Rightarrow> string" where
  "Error ErrNoRows = ''sql: no rows in result set''"
| "Error (PgError code msg) = msg"
| "Error RedisNil = ''redis: nil''"
| "Error MaxBytesError = ''http: request body too large''"
| "Error ErrEmailExists = ''email already exists''"
| "Error ErrInvalidCredentials = ''invalid credentials''"
| "Error RepoErrAPIKeyLabelExists = ''api key label already exists''"
| "Error SvcErrAPIKeyLabelExists = ''api key label already exists''"
| "Error (ErrorString s) = s"
| "Error (WrapError s e) = s"

text \<open>\<open>errors.Is\<close> and the two uses of \<open>errors.As\<close> walk the chain of wrapped errors.\<close>

primrec errors_Is :: "go_error \<Rightarrow> go_error \<Rightarrow> bool" where
  "errors_Is ErrNoRows t = (t = ErrNoRows)"
| "errors_Is (PgError c m) t = (t = PgError c m)"
| "errors_Is RedisNil t = (t = RedisNil)"
| "errors_Is MaxBytesError t = (t = MaxBytesError)"
| "errors_Is ErrEmailExists t = (t = ErrEmailExists)"
| "errors_Is ErrInvalidCredentials t = (t = ErrInvalidCredentials)"
| "errors_Is RepoErrAPIKeyLabelExists t = (t = RepoErrAPIKeyLabelExists)"
| "errors_Is SvcErrAPIKeyLabelExists t = (t = SvcErrAPIKeyLabelExists)"
| "errors_Is (ErrorString s) t = (t = ErrorString s)"
| "errors_Is (WrapError s e) t = (t = WrapError s e \<or> errors_Is e t)"

primrec errors_As_PgError :: "go_error \<Rightarrow> string option" where
  "errors_As_PgError ErrNoRows = None"
| "errors_As_PgError (PgError c m) = Some c"
| "errors_As_PgError RedisNil = None"
| "errors_As_PgError MaxBytesError = None"
| "errors_As_PgError ErrEmailExists = None"
| "errors_As_PgError ErrInvalidCredentials = None"
| "errors_As_PgError RepoErrAPIKeyLabelExists = None"
| "errors_As_PgError SvcErrAPIKeyLabelExists = None"
| "errors_As_PgError (ErrorString s) = None"
| "errors_As_PgError (WrapError s e) = errors_As_PgError e"

primrec errors_As_MaxBytes :: "go_error \<Rightarrow> bool" where
  "errors_As_MaxBytes ErrNoRows = False"
| "errors_As_MaxBytes (PgError c m) = False"
| "errors_As_MaxBytes RedisNil = False"
| "errors_As_MaxBytes MaxBytesError = True"
| "errors_As_MaxBytes ErrEmailExists = False"
| "errors_As_MaxBytes ErrInvalidCredentials = False"
| "errors_As_MaxBytes RepoErrAPIKeyLabelExists = False"
| "errors_As_MaxBytes SvcErrAPIKeyLabelExists = False"
| "errors_As_MaxBytes (ErrorString s) = False"
| "errors_As_MaxBytes (WrapError s e) = errors_As_MaxBytes e"

abbreviation UniqueViolation :: string where
  "UniqueViolation \<equiv> ''23505''"

section \<open>The ambient environment of the process\<close>

text \<open>
  What every package can reach without being handed a client: the clock, the process log,
  the system random source, UUIDs and the structured logger. All of them are arguments of the
  model; nothing is assumed of them unless a theorem says so.
\<close>

record 'w env =
  time_Now :: "('w, time) state"
  log_Printf :: "string \<Rightarrow> 'w proc"
  rand_Read :: "nat \<Rightarrow> ('w, bytes result) state"
  uuid_New :: "('w, string) state"
  zerolog :: "string \<Rightarrow> (string \<times> string) list \<Rightarrow> string \<Rightarrow> 'w proc"

section \<open>Generic lemmas\<close>

abbreviation go_return :: "'a \<Rightarrow> ('w, 'a) state" where
  "go_return \<equiv> State_Monad.return"

definition runs_to :: "('w, 'a) state \<Rightarrow> 'w \<Rightarrow> 'a \<Rightarrow> 'w \<Rightarrow> bool" where
  "runs_to m w a w' \<longleftrightarrow> run_state m w = (a, w')"

lemma runs_to_bind [go_run]:
  "runs_to (State_Monad.bind m f) w b w'' \<longleftrightarrow> (\<exists>a w'. runs_to m w a w' \<and> runs_to (f a) w' b w'')"
  by (auto simp: runs_to_def split: prod.splits)

lemma runs_to_return [simp, go_run]: "runs_to (go_return a) w b w' \<longleftrightarrow> b = a \<and> w' = w"
  by (auto simp: runs_to_def)

lemma runs_to_case_sum [go_run]:
  "runs_to (case x of Inl a \<Rightarrow> f a | Inr b \<Rightarrow> g b) w r w' \<longleftrightarrow>
     (\<exists>a. x = Inl a \<and> runs_to (f a) w r w') \<or> (\<exists>b. x = Inr b \<and> runs_to (g b) w r w')"
  by (cases x) auto

lemma runs_to_case_option [go_run]:
  "runs_to (case x of None \<Rightarrow> m | Some a \<Rightarrow> f a) w r w' \<longleftrightarrow>
     (x = None \<and> runs_to m w r w') \<or> (\<exists>a. x = Some a \<and> runs_to (f a) w r w')"
  by (cases x) auto

lemma runs_to_case_prod [go_run]:
  "runs_to (case p of (a, b) \<Rightarrow> f a b) w r w' \<longleftrightarrow> (\<exists>a b. p = (a, b) \<and> runs_to (f a b) w r w')"
  by (cases p) auto

lemma runs_to_if [go_run]:
  "runs_to (if c then m else n) w r w' \<longleftrightarrow> (c \<and> runs_to m w r w') \<or> (\<not> c \<and> runs_to n w r w')"
  by simp

lemma runs_to_total: "\<exists>a w'. runs_to m w a w'"
  by (cases "run_state m w") (auto simp: runs_to_def)

lemma runs_to_deterministic: "runs_to m w a w' \<Longrightarrow> runs_to m w b w'' \<Longrightarrow> b = a \<and> w'' = w'"
  by (auto simp: runs_to_def)

text \<open>An action whose first part is known runs like the rest.\<close>

lemma runs_to_bind_known:
  "runs_to m w b v \<Longrightarrow> runs_to (State_Monad.bind m f) w a w' \<longleftrightarrow> runs_to (f b) v a w'"
  by (auto simp: runs_to_def)

lemma runs_to_eqI: "(\<And>a w'. runs_to m w a w' \<longleftrightarrow> runs_to n v a w') \<Longrightarrow> run_state m w = run_state n v"
  by (cases "run_state m w") (metis runs_to_def)

text \<open>The result and the final state of an action, for evaluation on concrete states.\<close>

definition val_of :: "('w, 'a) state \<Rightarrow> 'w \<Rightarrow> 'a" where
  "val_of m w = fst (run_state m w)"

definition end_of :: "('w, 'a) state \<Rightarrow> 'w \<Rightarrow> 'w" where
  "end_of m w = snd (run_state m w)"

lemma runs_to_iff: "runs_to m w a w' \<longleftrightarrow> a = val_of m w \<and> w' = end_of m w"
  by (auto simp: runs_to_def val_of_def end_of_def prod_eq_iff)

lemma runs_to_val_of: "runs_to m w (val_of m w) (end_of m w)"
  by (simp add: runs_to_iff)

lemma map_of_Some_filter:
  "distinct (map f xs) \<Longrightarrow> x \<in> set xs \<Longrightarrow> find (\<lambda>y. f y = f x) xs = Some x"
  by (induction xs) (auto simp: inj_on_def)

lemma find_eq_None_iff: "find P xs = None \<longleftrightarrow> (\<forall>x\<in>set xs. \<not> P x)"
  by (induction xs) auto

lemma find_SomeD: "find P xs = Some x \<Longrightarrow> x \<in> set xs \<and> P x"
  by (induction xs) (auto split: if_splits)

lemma distinct_map_inj: "distinct (map f xs) \<Longrightarrow> x \<in> set xs \<Longrightarrow> y \<in> set xs \<Longrightarrow> f x = f y \<Longrightarrow> x = y"
  by (auto simp: distinct_map dest: inj_onD)

end
