(* ===== verification/Go_Strings.thy ===== *)
theory Go_Strings
  imports Prelude
begin

text \<open>
  The part of Go's \<open>strings\<close>, \<open>strconv\<close>, \<open>fmt\<close> and \<open>encoding/hex\<close>
  packages that the service calls: decimal printing and parsing of 64-bit integers, hexadecimal
  encoding, splitting, lower-casing, substring search and repetition.
\<close>

section \<open>Definitions\<close>

subsection \<open>Decimal numbers\<close>

definition digit_char :: "nat \<Rightarrow> char" where
  "digit_char d = char_of (48 + d)"

definition is_digit :: "char \<Rightarrow> bool" where
  "is_digit c \<longleftrightarrow> 48 \<le> (of_char c :: nat) \<and> (of_char c :: nat) \<le> 57"

definition digit_value :: "char \<Rightarrow> nat" where
  "digit_value c = of_char c - 48"

fun fmt_nat :: "nat \<Rightarrow> string" where
  "fmt_nat n = (if n < 10 then [digit_char n] else fmt_nat (n div 10) @ [digit_char (n mod 10)])"

declare fmt_nat.simps [simp del]

text \<open>\<open>fmt.Sprintf("%d", x)\<close>, \<open>strconv.Itoa\<close> and \<open>strconv.FormatInt(x, 10)\<close>.\<close>

definition fmt_int :: "int \<Rightarrow> string" where
  "fmt_int i = (if i < 0 then CHR ''-'' # fmt_nat (nat (- i)) else fmt_nat (nat i))"

definition FormatInt :: "'a::len word \<Rightarrow> string" where
  "FormatInt w = fmt_int (sint w)"

definition nat_of_digits :: "string \<Rightarrow> nat" where
  "nat_of_digits s = foldl (\<lambda>acc c. acc * 10 + digit_value c) 0 s"

text \<open>
  \<open>strconv.ParseInt(s, 10, 64)\<close>: an optional sign, then one or more digits; \<open>None\<close> stands
  for \<open>ErrSyntax\<close> and \<open>ErrRange\<close>, which the caller does not distinguish.
\<close>

definition ParseInt :: "string \<Rightarrow> int64 option" where
  "ParseInt s =
     (let neg = (s \<noteq> [] \<and> hd s = CHR ''-'');
          ds = (if s \<noteq> [] \<and> (hd s = CHR ''-'' \<or> hd s = CHR ''+'') then tl s else s)
      in if ds = [] \<or> \<not> list_all is_digit ds then None
         else let n = int (nat_of_digits ds)
              in if neg then (if n \<le> 2 ^ 63 then Some (word_of_int (- n)) else None)
                 else (if n < 2 ^ 63 then Some (word_of_int n) else None))"

subsection \<open>Hexadecimal\<close>

definition hex_digit :: "nat \<Rightarrow> char" where
  "hex_digit d = (if d < 10 then char_of (48 + d) else char_of (87 + d))"

definition EncodeToString :: "bytes \<Rightarrow> string" where
  "EncodeToString bs = concat (map (\<lambda>b. [hex_digit (of_char b div 16), hex_digit (of_char b mod 16)]) bs)"

subsection \<open>Strings\<close>

text \<open>
  \<open>strings.Split\<close> with a one-byte separator, the only kind the service uses; it always returns at
  least one part.
\<close>

fun strings_Split :: "string \<Rightarrow> char \<Rightarrow> string list" where
  "strings_Split [] sep = [[]]"
| "strings_Split (c # s) sep =
     (if c = sep then [] # strings_Split s sep
      else (case strings_Split s sep of [] \<Rightarrow> [[c]] | p # ps \<Rightarrow> (c # p) # ps))"

text \<open>
  \<open>strings.ToLower\<close> on ASCII text, other bytes unchanged. The service lower-cases struct field
  names, feature names and the authorization scheme; the first two are ASCII constants, and the last
  is only compared with \<open>bearer\<close>, none of whose letters is the lower case of a non-ASCII rune.
\<close>

definition lower_char :: "char \<Rightarrow> char" where
  "lower_char c = (let n = of_char c in if 65 \<le> n \<and> n \<le> (90::nat) then char_of (n + 32) else c)"

definition upper_char :: "char \<Rightarrow> char" where
  "upper_char c = (let n = of_char c in if 97 \<le> n \<and> n \<le> (122::nat) then char_of (n - 32) else c)"

definition strings_ToLower :: "string \<Rightarrow> string" where
  "strings_ToLower s = map lower_char s"

fun strings_Contains :: "string \<Rightarrow> string \<Rightarrow> bool" where
  "strings_Contains [] t = (t = [])"
| "strings_Contains (c # s) t = (take (length t) (c # s) = t \<or> strings_Contains s t)"

definition strings_Repeat :: "string \<Rightarrow> nat \<Rightarrow> string" where
  "strings_Repeat s n = concat (replicate n s)"

section \<open>Facts\<close>

subsection \<open>Decimal round trip\<close>

lemma digit_char_value [simp]: "d < 10 \<Longrightarrow> digit_value (digit_char d) = d"
  by (simp add: digit_char_def digit_value_def)

lemma is_digit_digit_char [simp]: "d < 10 \<Longrightarrow> is_digit (digit_char d)"
  by (simp add: digit_char_def is_digit_def)

lemma fmt_nat_digits: "list_all is_digit (fmt_nat n)"
proof (induction n rule: fmt_nat.induct)
  case (1 n)
  then show ?case by (subst fmt_nat.simps) auto
qed

lemma fmt_nat_not_Nil [simp]: "fmt_nat n \<noteq> []"
  by (subst fmt_nat.simps) simp

lemma nat_of_digits_snoc: "nat_of_digits (s @ [c]) = nat_of_digits s * 10 + digit_value c"
  by (simp add: nat_of_digits_def)

lemma nat_of_digits_fmt_nat [simp]: "nat_of_digits (fmt_nat n) = n"
proof (induction n rule: fmt_nat.induct)
  case (1 n)
  show ?case
  proof (cases "n < 10")
    case True
    then show ?thesis
      using digit_char_value [OF True] by (subst fmt_nat.simps) (simp add: nat_of_digits_def)
  next
    case False
    with 1 show ?thesis by (subst fmt_nat.simps) (simp add: nat_of_digits_snoc)
  qed
qed

lemma fmt_nat_inj: "fmt_nat m = fmt_nat n \<Longrightarrow> m = n"
  by (metis nat_of_digits_fmt_nat)

lemma not_is_digit_sign [simp]: "\<not> is_digit (CHR ''-'')" "\<not> is_digit (CHR ''+'')" "\<not> is_digit (CHR '':'')"
  by (simp_all add: is_digit_def)

lemma fmt_nat_hd_digit: "is_digit (hd (fmt_nat n))"
  using fmt_nat_digits [of n] by (cases "fmt_nat n") auto

lemma fmt_nat_hd_not_sign: "hd (fmt_nat n) \<noteq> CHR ''-''" "hd (fmt_nat n) \<noteq> CHR ''+''"
  using fmt_nat_hd_digit [of n] by auto

lemma fmt_int_inj: "fmt_int i = fmt_int j \<Longrightarrow> i = j"
  by (auto simp: fmt_int_def split: if_splits dest!: fmt_nat_inj)
     (metis fmt_nat_hd_not_sign(1) list.sel(1))+

lemma FormatInt_inj: "FormatInt v = FormatInt w \<Longrightarrow> v = w"
  by (auto simp: FormatInt_def dest: fmt_int_inj signed_word_eqI)

lemma fmt_int_no_colon: "CHR '':'' \<notin> set (fmt_int i)"
  using fmt_nat_digits [of "nat i"] fmt_nat_digits [of "nat (- i)"]
  by (auto simp: fmt_int_def list_all_iff)

lemma sint64_range: "- (2 ^ 63) \<le> sint (w :: int64)" "sint (w :: int64) < 2 ^ 63"
  using sint_range_size [of w] by (simp_all add: word_size)

lemma sint64_of_int: "- (2 ^ 63) \<le> i \<Longrightarrow> i < 2 ^ 63 \<Longrightarrow> sint (word_of_int i :: int64) = i"
  by (simp add: sint_sbintrunc' signed_take_bit_int_eq_self)

lemma ParseInt_fmt_int: "- (2 ^ 63) \<le> i \<Longrightarrow> i < 2 ^ 63 \<Longrightarrow> ParseInt (fmt_int i) = Some (word_of_int i)"
  using fmt_nat_digits [of "nat (- i)"] fmt_nat_digits [of "nat i"]
  by (auto simp: ParseInt_def fmt_int_def fmt_nat_hd_not_sign)

lemma ParseInt_FormatInt: "ParseInt (FormatInt (w :: int64)) = Some w"
  using sint64_range [of w] by (simp add: FormatInt_def ParseInt_fmt_int)

subsection \<open>Hexadecimal\<close>

lemma hex_digit_inj: "a < 16 \<Longrightarrow> b < 16 \<Longrightarrow> hex_digit a = hex_digit b \<Longrightarrow> a = b"
  by (auto simp: hex_digit_def take_bit_eq_mod split: if_splits
           dest!: arg_cong [where f = "of_char :: char \<Rightarrow> nat"])

lemma EncodeToString_Nil [simp]: "EncodeToString [] = []"
  by (simp add: EncodeToString_def)

lemma EncodeToString_Cons [simp]:
  "EncodeToString (b # bs) =
     hex_digit (of_char b div 16) # hex_digit (of_char b mod 16) # EncodeToString bs"
  by (simp add: EncodeToString_def)

lemma length_EncodeToString [simp]: "length (EncodeToString bs) = 2 * length bs"
  by (induction bs) auto

lemma byte_eqI:
  assumes "(of_char a :: nat) div 16 = of_char b div 16" "(of_char a :: nat) mod 16 = of_char b mod 16"
  shows "a = b"
proof -
  have "(of_char a :: nat) = of_char b"
    by (metis assms div_mult_mod_eq)
  then show ?thesis by simp
qed

lemma EncodeToString_inj: "EncodeToString as = EncodeToString bs \<Longrightarrow> as = bs"
proof (induction as arbitrary: bs)
  case Nil
  then show ?case by (cases bs) auto
next
  case (Cons a as)
  then obtain b bs' where bs: "bs = b # bs'" by (cases bs) auto
  have div16: "(of_char c :: nat) div 16 < 16" for c :: char
    using nat_of_char_less_256 [of c] by (simp add: less_mult_imp_div_less)
  from Cons.prems bs have "a = b"
    by (auto intro!: byte_eqI dest: hex_digit_inj [rotated 2] simp: div16)
  with Cons bs show ?case by auto
qed

subsection \<open>Splitting and searching\<close>

lemma strings_Split_not_Nil [simp]: "strings_Split s sep \<noteq> []"
  by (induction s) (auto split: list.splits)

lemma strings_Split_none: "sep \<notin> set s \<Longrightarrow> strings_Split s sep = [s]"
  by (induction s) auto

lemma strings_Split_append:
  "sep \<notin> set s \<Longrightarrow> strings_Split (s @ sep # t) sep = s # strings_Split t sep"
  by (induction s) auto

lemma strings_Contains_iff: "strings_Contains s t \<longleftrightarrow> (\<exists>u v. s = u @ t @ v)"
proof (induction s)
  case Nil
  then show ?case by auto
next
  case (Cons c s)
  show ?case
  proof
    assume "strings_Contains (c # s) t"
    then show "\<exists>u v. c # s = u @ t @ v"
      using Cons.IH by (metis append.left_neutral append_Cons append_take_drop_id strings_Contains.simps(2))
  next
    assume "\<exists>u v. c # s = u @ t @ v"
    then obtain u v where uv: "c # s = u @ t @ v" by blast
    show "strings_Contains (c # s) t"
    proof (cases u)
      case Nil
      with uv have "take (length t) (c # s) = t" by (metis append_eq_conv_conj append_Nil)
      then show ?thesis by simp
    next
      case (Cons a u')
      with uv have "s = u' @ t @ v" by simp
      with Cons.IH show ?thesis by (metis strings_Contains.simps(2))
    qed
  qed
qed

lemma length_strings_Repeat [simp]: "length (strings_Repeat [c] n) = n"
  by (induction n) (auto simp: strings_Repeat_def)

lemma set_strings_Repeat: "set (strings_Repeat [c] n) \<subseteq> {c}"
  by (auto simp: strings_Repeat_def)

lemma strings_Repeat_single: "strings_Repeat [c] n = replicate n c"
  by (induction n) (auto simp: strings_Repeat_def)

end
