(* ===== verification/Go_Json.thy ===== *)
theory Go_Json
  imports Go_Strings
begin

text \<open>
  The part of Go's \<open>encoding/json\<close> the service relies on, at the level of bytes: the writer
  behind \<open>json.Marshal\<close> (compact, HTML-safe escaping, invalid UTF-8 replaced) and the reader
  behind \<open>json.Unmarshal\<close> and \<open>Decoder.Decode\<close> (whitespace, escapes, surrogate pairs,
  nesting limit of 10000). A number is kept as its literal text and converted by the destination
  field, as Go does. The reader distinguishes an input that is a proper prefix of a value
  (\<open>More\<close>) from one that cannot be completed (\<open>Bad\<close>), because a streaming decoder
  asks for more bytes in the first case only.

  The main facts are the round trip \<open>json_parse_print\<close> and that the fuel of the reader is
  always enough (\<open>parse_value_fuel\<close>).
\<close>

section \<open>Definitions\<close>

datatype json =
    JNull
  | JBool bool
  | JNum string
  | JStr string
  | JArr "json list"
  | JObj "(string \<times> json) list"

datatype 'a parsed = Done 'a string | More | Bad

subsection \<open>UTF-8\<close>

definition between :: "nat \<Rightarrow> nat \<Rightarrow> nat \<Rightarrow> bool" where
  "between lo hi n \<longleftrightarrow> lo \<le> n \<and> n \<le> hi"

abbreviation runeError :: nat where
  "runeError \<equiv> 65533"

text \<open>\<open>utf8.DecodeRune\<close>: the rune and its width; \<open>(RuneError, 1)\<close> on an invalid byte.\<close>

definition DecodeRune :: "string \<Rightarrow> nat \<times> nat" where
  "DecodeRune s =
     (let bs = map (of_char :: char \<Rightarrow> nat) (take 4 s);
          b = (\<lambda>i. if i < length bs then bs ! i else 0);
          cont = (\<lambda>i. between 128 191 (b i))
      in if b 0 < 128 then (b 0, 1)
         else if between 194 223 (b 0) \<and> cont 1 then ((b 0 - 192) * 64 + (b 1 - 128), 2)
         else if between 224 239 (b 0)
              \<and> between (if b 0 = 224 then 160 else 128) (if b 0 = 237 then 159 else 191) (b 1) \<and> cont 2
           then ((b 0 - 224) * 4096 + (b 1 - 128) * 64 + (b 2 - 128), 3)
         else if between 240 244 (b 0)
              \<and> between (if b 0 = 240 then 144 else 128) (if b 0 = 244 then 143 else 191) (b 1)
              \<and> cont 2 \<and> cont 3
           then ((b 0 - 240) * 262144 + (b 1 - 128) * 4096 + (b 2 - 128) * 64 + (b 3 - 128), 4)
         else (runeError, 1))"

definition is_surrogate :: "nat \<Rightarrow> bool" where
  "is_surrogate r \<longleftrightarrow> between 55296 57343 r"

definition EncodeRune :: "nat \<Rightarrow> string" where
  "EncodeRune r0 =
     (let r = (if is_surrogate r0 \<or> r0 > 1114111 then runeError else r0)
      in if r < 128 then [char_of r]
         else if r < 2048 then [char_of (192 + r div 64), char_of (128 + r mod 64)]
         else if r < 65536 then
           [char_of (224 + r div 4096), char_of (128 + r div 64 mod 64), char_of (128 + r mod 64)]
         else [char_of (240 + r div 262144), char_of (128 + r div 4096 mod 64),
               char_of (128 + r div 64 mod 64), char_of (128 + r mod 64)])"

subsection \<open>Writing\<close>

abbreviation quote :: char where "quote \<equiv> CHR 0x22"
abbreviation bslash :: char where "bslash \<equiv> CHR 0x5C"

definition html_safe :: "char \<Rightarrow> bool" where
  "html_safe c \<longleftrightarrow> between 32 127 (of_char c) \<and> c \<notin> {quote, bslash, CHR ''<'', CHR ''>'', CHR ''&''}"

definition escape_char :: "char \<Rightarrow> string" where
  "escape_char c =
     (if c = bslash \<or> c = quote then [bslash, c]
      else if c = CHR 0x08 then [bslash, CHR ''b'']
      else if c = CHR 0x0C then [bslash, CHR ''f'']
      else if c = CHR 0x0A then [bslash, CHR ''n'']
      else if c = CHR 0x0D then [bslash, CHR ''r'']
      else if c = CHR 0x09 then [bslash, CHR ''t'']
      else [bslash, CHR ''u'', CHR ''0'', CHR ''0'',
            hex_digit (of_char c div 16), hex_digit (of_char c mod 16)])"

function enc_string :: "string \<Rightarrow> string" where
  "enc_string [] = []"
| "enc_string (c # s) =
     (if of_char c < (128::nat) then (if html_safe c then [c] else escape_char c) @ enc_string s
      else case DecodeRune (c # s) of (r, n) \<Rightarrow>
        if r = runeError \<and> n = 1 then [bslash] @ ''ufffd'' @ enc_string s
        else if r = 8232 \<or> r = 8233 then [bslash] @ ''u202'' @ [hex_digit (r mod 16)] @ enc_string (drop (n - 1) s)
        else c # take (n - 1) s @ enc_string (drop (n - 1) s))"
  by pat_completeness auto
termination
  by (relation "measure length") auto

definition print_string :: "string \<Rightarrow> string" where
  "print_string s = [quote] @ enc_string s @ [quote]"

fun join :: "string \<Rightarrow> string list \<Rightarrow> string" where
  "join sep [] = []"
| "join sep [x] = x"
| "join sep (x # y # xs) = x @ sep @ join sep (y # xs)"

fun json_print :: "json \<Rightarrow> string" where
  "json_print JNull = ''null''"
| "json_print (JBool b) = (if b then ''true'' else ''false'')"
| "json_print (JNum s) = s"
| "json_print (JStr s) = print_string s"
| "json_print (JArr js) = ''['' @ join '','' (map json_print js) @ '']''"
| "json_print (JObj kvs) =
     [CHR 0x7B] @ join '','' (map (\<lambda>(k, j). print_string k @ '':'' @ json_print j) kvs) @ [CHR 0x7D]"

subsection \<open>Reading\<close>

definition is_space :: "char \<Rightarrow> bool" where
  "is_space c \<longleftrightarrow> c \<in> {CHR '' '', CHR 0x09, CHR 0x0A, CHR 0x0D}"

definition skip_ws :: "string \<Rightarrow> string" where
  "skip_ws s = dropWhile is_space s"

definition is_hex :: "char \<Rightarrow> bool" where
  "is_hex c \<longleftrightarrow> (let n = of_char c in between 48 57 n \<or> between 65 70 n \<or> between 97 102 n)"

definition hex_value :: "char \<Rightarrow> nat" where
  "hex_value c =
     (let n = of_char c in if n < 58 then n - 48 else if n < 97 then n - 55 else n - 87)"

definition u4 :: "string \<Rightarrow> nat" where
  "u4 s = foldl (\<lambda>acc c. acc * 16 + hex_value c) 0 (take 4 s)"

definition simple_escape :: "char \<Rightarrow> bool" where
  "simple_escape e \<longleftrightarrow> e \<in> {quote, bslash, CHR ''/'', CHR ''b'', CHR ''f'', CHR ''n'', CHR ''r'', CHR ''t''}"

function scan_string :: "string \<Rightarrow> string parsed" where
  "scan_string [] = More"
| "scan_string (c # s) =
     (if c = quote then Done [] s
      else if c = bslash then
        (if s = [] then More
         else if simple_escape (hd s) then map_parsed (\<lambda>r. c # hd s # r) (scan_string (tl s))
         else if hd s = CHR ''u'' then
           (if \<not> list_all is_hex (take 4 (tl s)) then Bad
            else if length (tl s) < 4 then More
            else map_parsed (\<lambda>r. c # take 5 s @ r) (scan_string (drop 5 s)))
         else Bad)
      else if of_char c < (32::nat) then Bad
      else map_parsed (\<lambda>r. c # r) (scan_string s))"
  by pat_completeness auto
termination
  by (relation "measure length") auto

definition unescape :: "char \<Rightarrow> char" where
  "unescape e =
     (if e = CHR ''b'' then CHR 0x08 else if e = CHR ''f'' then CHR 0x0C
      else if e = CHR ''n'' then CHR 0x0A else if e = CHR ''r'' then CHR 0x0D
      else if e = CHR ''t'' then CHR 0x09 else e)"

definition surrogate_pair :: "nat \<Rightarrow> nat \<Rightarrow> nat option" where
  "surrogate_pair r1 r2 =
     (if between 55296 56319 r1 \<and> between 56320 57343 r2
      then Some ((r1 - 55296) * 1024 + (r2 - 56320) + 65536) else None)"

text \<open>\<open>unquote\<close>: the text of a string literal whose raw contents passed the scanner.\<close>

function unquote :: "string \<Rightarrow> string" where
  "unquote [] = []"
| "unquote (c # s) =
     (if c = bslash then
        (if s = [] then []
         else if hd s = CHR ''u'' then
           (let r = u4 (tl s); s' = drop 5 s in
            if is_surrogate r then
              (case (if take 2 s' = [bslash, CHR ''u''] then surrogate_pair r (u4 (drop 2 s')) else None) of
                 Some rr \<Rightarrow> EncodeRune rr @ unquote (drop 6 s')
               | None \<Rightarrow> EncodeRune runeError @ unquote s')
            else EncodeRune r @ unquote s')
         else unescape (hd s) # unquote (tl s))
      else if of_char c < (128::nat) then c # unquote s
      else case DecodeRune (c # s) of (r, n) \<Rightarrow> EncodeRune r @ unquote (drop (n - 1) s))"
  by pat_completeness auto
termination
  by (relation "measure length") (auto simp: Let_def)

definition digits_of :: "string \<Rightarrow> string" where
  "digits_of s = takeWhile is_digit s"

definition scan_int :: "string \<Rightarrow> string parsed" where
  "scan_int s =
     (case s of [] \<Rightarrow> More
      | c # r \<Rightarrow> if c = CHR ''0'' then Done [c] r
          else if is_digit c then Done (digits_of s) (drop (length (digits_of s)) s) else Bad)"

definition scan_digits1 :: "string \<Rightarrow> string parsed" where
  "scan_digits1 s =
     (if s = [] then More else if digits_of s = [] then Bad
      else Done (digits_of s) (drop (length (digits_of s)) s))"

definition scan_frac :: "string \<Rightarrow> string parsed" where
  "scan_frac s =
     (case s of [] \<Rightarrow> Done [] []
      | c # r \<Rightarrow> if c = CHR ''.'' then map_parsed (\<lambda>d. c # d) (scan_digits1 r) else Done [] s)"

definition scan_exp :: "string \<Rightarrow> string parsed" where
  "scan_exp s =
     (case s of [] \<Rightarrow> Done [] []
      | c # r \<Rightarrow> if c = CHR ''e'' \<or> c = CHR ''E'' then
            (case r of [] \<Rightarrow> More
             | x # r' \<Rightarrow> if x = CHR ''+'' \<or> x = CHR ''-'' then map_parsed (\<lambda>d. c # x # d) (scan_digits1 r')
                 else map_parsed (\<lambda>d. c # d) (scan_digits1 r))
          else Done [] s)"

definition and_then :: "string parsed \<Rightarrow> (string \<Rightarrow> string parsed) \<Rightarrow> string parsed" where
  "and_then p k =
     (case p of Done a r \<Rightarrow> map_parsed (\<lambda>b. a @ b) (k r) | More \<Rightarrow> More | Bad \<Rightarrow> Bad)"

definition scan_number :: "string \<Rightarrow> string parsed" where
  "scan_number s =
     (if s \<noteq> [] \<and> hd s = CHR ''-''
      then map_parsed (\<lambda>d. CHR ''-'' # d) (and_then (and_then (scan_int (tl s)) scan_frac) scan_exp)
      else and_then (and_then (scan_int s) scan_frac) scan_exp)"

definition scan_literal :: "string \<Rightarrow> json \<Rightarrow> string \<Rightarrow> json parsed" where
  "scan_literal t j s =
     (if take (length t) s = t then Done j (drop (length t) s)
      else if s = take (length s) t then More else Bad)"

fun parse_value :: "nat \<Rightarrow> nat \<Rightarrow> string \<Rightarrow> json parsed"
  and parse_elems :: "nat \<Rightarrow> nat \<Rightarrow> string \<Rightarrow> json list parsed"
  and parse_members :: "nat \<Rightarrow> nat \<Rightarrow> string \<Rightarrow> (string \<times> json) list parsed" where
  "parse_value 0 d s = Bad"
| "parse_value (Suc f) d s =
     (case skip_ws s of [] \<Rightarrow> More
      | c # r \<Rightarrow>
          if c = CHR 0x7B then
            (if d = 0 then Bad else case skip_ws r of [] \<Rightarrow> More
             | c' # r' \<Rightarrow> if c' = CHR 0x7D then Done (JObj []) r'
                 else map_parsed JObj (parse_members f (d - 1) (c' # r')))
          else if c = CHR ''['' then
            (if d = 0 then Bad else case skip_ws r of [] \<Rightarrow> More
             | c' # r' \<Rightarrow> if c' = CHR '']'' then Done (JArr []) r'
                 else map_parsed JArr (parse_elems f (d - 1) (c' # r')))
          else if c = quote then map_parsed (\<lambda>raw. JStr (unquote raw)) (scan_string r)
          else if c = CHR ''n'' then scan_literal ''null'' JNull (c # r)
          else if c = CHR ''t'' then scan_literal ''true'' (JBool True) (c # r)
          else if c = CHR ''f'' then scan_literal ''false'' (JBool False) (c # r)
          else map_parsed JNum (scan_number (c # r)))"
| "parse_elems 0 d s = Bad"
| "parse_elems (Suc f) d s =
     (case parse_value f d s of More \<Rightarrow> More | Bad \<Rightarrow> Bad
      | Done v r \<Rightarrow> (case skip_ws r of [] \<Rightarrow> More
          | c # r' \<Rightarrow> if c = CHR '']'' then Done [v] r'
              else if c = CHR '','' then map_parsed (\<lambda>vs. v # vs) (parse_elems f d r') else Bad))"
| "parse_members 0 d s = Bad"
| "parse_members (Suc f) d s =
     (case skip_ws s of [] \<Rightarrow> More
      | q # r \<Rightarrow> if q \<noteq> quote then Bad else
          (case scan_string r of More \<Rightarrow> More | Bad \<Rightarrow> Bad
           | Done raw r1 \<Rightarrow> (case skip_ws r1 of [] \<Rightarrow> More
               | c \<Rightarrow> if hd c \<noteq> CHR '':'' then Bad else
                   (case parse_value f d (tl c) of More \<Rightarrow> More | Bad \<Rightarrow> Bad
                    | Done v r3 \<Rightarrow> (case skip_ws r3 of [] \<Rightarrow> More
                        | c3 # r4 \<Rightarrow> if c3 = CHR 0x7D then Done [(unquote raw, v)] r4
                            else if c3 = CHR '','' then
                              map_parsed (\<lambda>kvs. (unquote raw, v) # kvs) (parse_members f d r4)
                            else Bad)))))"

declare parse_value.simps [simp del] parse_elems.simps [simp del] parse_members.simps [simp del]

definition maxNestingDepth :: nat where
  "maxNestingDepth = 10000"

definition parse_prefix :: "string \<Rightarrow> json parsed" where
  "parse_prefix s = parse_value (2 * length s + 2) maxNestingDepth s"

definition json_parse :: "string \<Rightarrow> json option" where
  "json_parse s =
     (case parse_prefix s of Done j r \<Rightarrow> if skip_ws r = [] then Some j else None
      | More \<Rightarrow> None | Bad \<Rightarrow> None)"

section \<open>Facts\<close>

definition ascii :: "string \<Rightarrow> bool" where
  "ascii s \<longleftrightarrow> list_all (\<lambda>c. of_char c < (128::nat)) s"

definition delim :: "string \<Rightarrow> bool" where
  "delim rest \<longleftrightarrow>
     rest = [] \<or> (\<not> is_digit (hd rest) \<and> hd rest \<notin> {CHR ''.'', CHR ''e'', CHR ''E''})"

definition number_lit :: "string \<Rightarrow> bool" where
  "number_lit s \<longleftrightarrow> scan_number s = Done s []"

fun wf_json :: "json \<Rightarrow> bool" where
  "wf_json (JNum s) = number_lit s"
| "wf_json (JStr s) = ascii s"
| "wf_json (JArr js) = list_all wf_json js"
| "wf_json (JObj kvs) = list_all (\<lambda>(k, j). ascii k \<and> wf_json j) kvs"
| "wf_json JNull = True"
| "wf_json (JBool b) = True"

fun json_depth :: "json \<Rightarrow> nat" where
  "json_depth (JArr js) = Suc (foldr max (map json_depth js) 0)"
| "json_depth (JObj kvs) = Suc (foldr max (map (\<lambda>(k, j). json_depth j) kvs) 0)"
| "json_depth JNull = 0"
| "json_depth (JBool b) = 0"
| "json_depth (JNum s) = 0"
| "json_depth (JStr s) = 0"

subsection \<open>Strings\<close>

definition enc_char :: "char \<Rightarrow> string" where
  "enc_char c = (if html_safe c then [c] else escape_char c)"

lemma enc_string_ascii: "ascii s \<Longrightarrow> enc_string s = concat (map enc_char s)"
  by (induction s) (auto simp: ascii_def enc_char_def)

lemma is_hex_hex_digit [simp]: "d < 16 \<Longrightarrow> is_hex (hex_digit d)"
  by (auto simp: is_hex_def hex_digit_def between_def Let_def take_bit_eq_mod)

lemma hex_value_hex_digit [simp]: "d < 16 \<Longrightarrow> hex_value (hex_digit d) = d"
  by (auto simp: hex_value_def hex_digit_def Let_def take_bit_eq_mod)

lemma is_hex_zero [simp]: "is_hex (CHR ''0'')"
  by (simp add: is_hex_def between_def)

lemma hex_value_zero [simp]: "hex_value (CHR ''0'') = 0"
  by (simp add: hex_value_def)

lemma of_char_div16 [simp]: "(of_char c :: nat) div 16 < 16"
  using nat_of_char_less_256 [of c] by (simp add: less_mult_imp_div_less)

lemma scan_string_enc_char:
  assumes "of_char c < (128::nat)"
  shows "scan_string (enc_char c @ t) = map_parsed (\<lambda>r. enc_char c @ r) (scan_string t)"
proof (cases "html_safe c")
  case True
  then show ?thesis
    by (auto simp: enc_char_def html_safe_def between_def)
next
  case False
  then show ?thesis
    by (cases "scan_string t") (simp_all add: enc_char_def escape_char_def simple_escape_def)
qed

lemma unquote_enc_char:
  assumes "of_char c < (128::nat)"
  shows "unquote (enc_char c @ t) = c # unquote t"
proof (cases "html_safe c")
  case True
  with assms show ?thesis
    by (auto simp: enc_char_def html_safe_def)
next
  case False
  have "u4 (CHR ''0'' # CHR ''0'' # hex_digit (of_char c div 16) # hex_digit (of_char c mod 16) # t)
      = of_char c"
    by (simp add: u4_def)
  with False assms show ?thesis
    by (simp add: enc_char_def escape_char_def unescape_def EncodeRune_def is_surrogate_def between_def)
qed

lemma scan_string_enc: 
  assumes "ascii s"
  shows "scan_string (enc_string s @ quote # rest) = Done (enc_string s) rest"
proof -
  have "scan_string (concat (map enc_char s) @ quote # rest) = Done (concat (map enc_char s)) rest"
    using assms by (induction s) (simp_all add: ascii_def scan_string_enc_char del: scan_string.simps(2), simp)
  with assms show ?thesis by (simp add: enc_string_ascii)
qed

lemma unquote_enc:
  assumes "ascii s"
  shows "unquote (enc_string s) = s"
proof -
  have "unquote (concat (map enc_char s)) = s"
    using assms by (induction s) (simp_all add: ascii_def unquote_enc_char del: unquote.simps(2))
  with assms show ?thesis by (simp add: enc_string_ascii)
qed

subsection \<open>Numbers\<close>

lemma digits_of_append: "delim rest \<Longrightarrow> digits_of (s @ rest) = digits_of s"
  by (induction s) (cases rest; auto simp: digits_of_def delim_def)+

lemma drop_digits_of_append:
  "delim rest \<Longrightarrow> drop (length (digits_of (s @ rest))) (s @ rest) = drop (length (digits_of s)) s @ rest"
  by (simp add: digits_of_append) (simp add: digits_of_def length_takeWhile_le)

lemma scan_int_append:
  "delim rest \<Longrightarrow> scan_int s = Done a r \<Longrightarrow> scan_int (s @ rest) = Done a (r @ rest)"
  using digits_of_append [of rest s] drop_digits_of_append [of rest s]
  by (cases s) (auto simp: scan_int_def split: if_splits)

lemma scan_digits1_append:
  "delim rest \<Longrightarrow> scan_digits1 s = Done a r \<Longrightarrow> scan_digits1 (s @ rest) = Done a (r @ rest)"
  using digits_of_append [of rest s] drop_digits_of_append [of rest s]
  by (auto simp: scan_digits1_def split: if_splits)

lemma map_parsed_eq_Done: "map_parsed f p = Done b r \<longleftrightarrow> (\<exists>a. p = Done a r \<and> b = f a)"
  by (cases p) auto

lemma scan_frac_delim: "delim rest \<Longrightarrow> scan_frac rest = Done [] rest"
  by (cases rest) (auto simp: scan_frac_def delim_def)

lemma scan_exp_delim: "delim rest \<Longrightarrow> scan_exp rest = Done [] rest"
  by (cases rest) (auto simp: scan_exp_def delim_def)

lemma scan_frac_append:
  assumes "delim rest" "scan_frac s = Done a r"
  shows "scan_frac (s @ rest) = Done a (r @ rest)"
proof (cases s)
  case Nil
  with assms show ?thesis by (auto simp: scan_frac_delim scan_frac_def [of "[]"])
next
  case (Cons c s')
  with assms(2) show ?thesis
    by (auto simp: scan_frac_def map_parsed_eq_Done dest: scan_digits1_append [OF assms(1)] split: if_splits)
qed

lemma scan_exp_append:
  assumes "delim rest" "scan_exp s = Done a r"
  shows "scan_exp (s @ rest) = Done a (r @ rest)"
proof (cases s)
  case Nil
  with assms show ?thesis by (auto simp: scan_exp_delim scan_exp_def [of "[]"])
next
  case (Cons c s')
  show ?thesis
  proof (cases s')
    case Nil
    with Cons assms(2) show ?thesis by (auto simp: scan_exp_def split: if_splits)
  next
    case (Cons x s'')
    with \<open>s = c # s'\<close> assms(2) show ?thesis
      using scan_digits1_append [OF assms(1), of s'] scan_digits1_append [OF assms(1), of s'']
      by (auto simp: scan_exp_def map_parsed_eq_Done split: if_splits)
  qed
qed

lemma and_then_eq_Done:
  "and_then p k = Done a r \<longleftrightarrow> (\<exists>x y r'. p = Done x r' \<and> k r' = Done y r \<and> a = x @ y)"
  by (auto simp: and_then_def map_parsed_eq_Done split: parsed.splits)

definition scan_unsigned :: "string \<Rightarrow> string parsed" where
  "scan_unsigned s = and_then (and_then (scan_int s) scan_frac) scan_exp"

lemma scan_unsigned_append:
  assumes "delim rest" "scan_unsigned s = Done a r"
  shows "scan_unsigned (s @ rest) = Done a (r @ rest)"
proof -
  from assms(2) obtain x y z r1 r2 where
    parts: "scan_int s = Done x r1" "scan_frac r1 = Done y r2" "scan_exp r2 = Done z r"
    and a: "a = (x @ y) @ z"
    by (auto simp: scan_unsigned_def and_then_eq_Done)
  show ?thesis
    using scan_int_append [OF assms(1) parts(1)] scan_frac_append [OF assms(1) parts(2)]
      scan_exp_append [OF assms(1) parts(3)] a
    by (simp add: scan_unsigned_def and_then_def)
qed

lemma scan_number_unsigned:
  "scan_number s =
     (if s \<noteq> [] \<and> hd s = CHR ''-'' then map_parsed (\<lambda>d. CHR ''-'' # d) (scan_unsigned (tl s))
      else scan_unsigned s)"
  by (simp add: scan_number_def scan_unsigned_def)

lemma number_lit_not_Nil: "number_lit s \<Longrightarrow> s \<noteq> []"
  by (auto simp: number_lit_def scan_number_def scan_int_def and_then_def)

lemma scan_number_append:
  assumes "delim rest" "number_lit s"
  shows "scan_number (s @ rest) = Done s rest"
proof (cases "hd s = CHR ''-''")
  case True
  with assms number_lit_not_Nil [OF assms(2)] obtain d where
    "scan_unsigned (tl s) = Done d []" "s = CHR ''-'' # d"
    by (auto simp: number_lit_def scan_number_unsigned map_parsed_eq_Done)
  with scan_unsigned_append [OF assms(1)] True show ?thesis
    by (simp add: scan_number_unsigned)
next
  case False
  with assms number_lit_not_Nil [OF assms(2)] scan_unsigned_append [OF assms(1)] show ?thesis
    by (fastforce simp: number_lit_def scan_number_unsigned)
qed

lemma scan_int_fmt_nat: "scan_int (fmt_nat n) = Done (fmt_nat n) []"
proof -
  have *: "digits_of (fmt_nat n) = fmt_nat n"
    using fmt_nat_digits [of n] by (auto simp: digits_of_def list_all_iff takeWhile_eq_all_conv)
  have "hd (fmt_nat n) = CHR ''0'' \<Longrightarrow> tl (fmt_nat n) = []" for n
  proof (induction n rule: fmt_nat.induct)
    case (1 n)
    show ?case
    proof (cases "n < 10")
      case True
      then show ?thesis by (subst fmt_nat.simps) simp
    next
      case False
      with "1.prems" have hd0: "hd (fmt_nat (n div 10)) = CHR ''0''"
        by (subst (asm) fmt_nat.simps) simp
      with "1.IH" False have "tl (fmt_nat (n div 10)) = []" by simp
      with hd0 have "fmt_nat (n div 10) = ''0''"
        by (metis fmt_nat_not_Nil list.collapse)
      then have "n div 10 = 0"
        using nat_of_digits_fmt_nat [of "n div 10"] by (simp add: nat_of_digits_def digit_value_def)
      with False show ?thesis by simp
    qed
  qed
  from this [of n] * fmt_nat_hd_digit [of n] show ?thesis
    by (cases "fmt_nat n") (auto simp: scan_int_def)
qed

lemma number_lit_fmt_int: "number_lit (fmt_int i)"
  using scan_int_fmt_nat
  by (auto simp: number_lit_def scan_number_def fmt_int_def and_then_def scan_frac_def scan_exp_def
                 fmt_nat_hd_not_sign)

lemma fmt_int_not_Nil [simp]: "fmt_int i \<noteq> []"
  by (simp add: fmt_int_def)

subsection \<open>Round trip\<close>

lemma skip_ws_Cons: "\<not> is_space c \<Longrightarrow> skip_ws (c # s) = c # s"
  by (simp add: skip_ws_def)

lemma delim_simps [simp]:
  "delim []" "delim (CHR '','' # s)" "delim (CHR '']'' # s)" "delim (CHR 0x7D # s)"
  by (auto simp: delim_def is_digit_def)

lemma not_is_space [simp]:
  "\<not> is_space (CHR '','')" "\<not> is_space (CHR '']'')" "\<not> is_space (CHR 0x7D)" "\<not> is_space (CHR '':'')"
  "\<not> is_space quote" "\<not> is_space (CHR 0x7B)" "\<not> is_space (CHR ''['')" "\<not> is_space (CHR ''n'')"
  "\<not> is_space (CHR ''t'')" "\<not> is_space (CHR ''f'')" "\<not> is_space (CHR ''-'')"
  by (auto simp: is_space_def)

lemma is_digit_not_special:
  "is_digit c \<Longrightarrow> \<not> is_space c"
  "is_digit c \<Longrightarrow>
     c \<notin> {CHR '']'', CHR 0x7D, CHR 0x7B, CHR ''['', quote, CHR ''n'', CHR ''t'', CHR ''f'', CHR '',''}"
  by (auto simp: is_digit_def is_space_def)

lemma number_lit_hd:
  assumes "number_lit s"
  obtains c t where "s = c # t" "is_digit c \<or> c = CHR ''-''"
proof -
  from number_lit_not_Nil [OF assms] obtain c t where s: "s = c # t" by (cases s) auto
  with assms have "is_digit c \<or> c = CHR ''-''"
    by (auto simp: number_lit_def scan_number_def scan_int_def and_then_def is_digit_def split: if_splits)
  with s that show thesis by blast
qed

text \<open>A printed value starts with a byte that is neither white space nor a closing bracket.\<close>

lemma json_print_hd:
  assumes "wf_json j"
  obtains c t where "json_print j = c # t" "\<not> is_space c" "c \<noteq> CHR '']''" "c \<noteq> CHR 0x7D"
proof (cases j)
  case (JNum s)
  with assms obtain c t where "s = c # t" "is_digit c \<or> c = CHR ''-''"
    by (auto elim: number_lit_hd)
  with JNum that show ?thesis
    using is_digit_not_special [of c] by auto
next
  case (JBool b)
  with that show ?thesis by (cases b) auto
qed (use that in \<open>auto simp: print_string_def\<close>)

lemma parse_value_number:
  assumes "number_lit s" "delim rest"
  shows "parse_value (Suc f) d (s @ rest) = Done (JNum s) rest"
proof -
  from assms(1) obtain c t where s: "s = c # t" and c: "is_digit c \<or> c = CHR ''-''"
    by (rule number_lit_hd)
  from c have "\<not> is_space c"
    "c \<notin> {CHR 0x7B, CHR ''['', quote, CHR ''n'', CHR ''t'', CHR ''f''}"
    using is_digit_not_special [of c] by auto
  with s scan_number_append [OF assms(2,1)] show ?thesis
    by (simp add: parse_value.simps skip_ws_Cons)
qed

lemma parse_value_string:
  "ascii s \<Longrightarrow> parse_value (Suc f) d (print_string s @ rest) = Done (JStr s) rest"
  using scan_string_enc [of s rest] unquote_enc [of s]
  by (simp add: parse_value.simps skip_ws_Cons print_string_def)

definition reads_back :: "json \<Rightarrow> bool" where
  "reads_back j \<longleftrightarrow>
     (\<forall>f d rest. 2 * length (json_print j) \<le> f \<longrightarrow> json_depth j \<le> d \<longrightarrow> delim rest \<longrightarrow>
        parse_value f d (json_print j @ rest) = Done j rest)"

lemma parse_elems_print:
  assumes "js \<noteq> []" "\<And>j. j \<in> set js \<Longrightarrow> reads_back j"
    and "\<And>j. j \<in> set js \<Longrightarrow> json_depth j \<le> d"
    and "2 * length (join '','' (map json_print js)) + 1 \<le> f"
  shows "parse_elems f d (join '','' (map json_print js) @ CHR '']'' # rest) = Done js rest"
  using assms
proof (induction js arbitrary: f rule: induct_list012)
  case (2 j)
  then show ?case
    by (cases f) (simp_all add: reads_back_def parse_elems.simps skip_ws_Cons)
next
  case (3 j j' js)
  from "3.prems"(4) obtain f' where f: "f = Suc f'" by (cases f) auto
  have "parse_elems f' d (join '','' (map json_print (j' # js)) @ CHR '']'' # rest) = Done (j' # js) rest"
    by (rule "3.IH"(2)) (use "3.prems" f in auto)
  moreover have "parse_value f' d (json_print j @ CHR '','' # join '','' (map json_print (j' # js)) @ CHR '']'' # rest)
      = Done j (CHR '','' # join '','' (map json_print (j' # js)) @ CHR '']'' # rest)"
    using "3.prems"(2-4) f by (auto simp: reads_back_def)
  ultimately show ?case
    by (simp add: f parse_elems.simps skip_ws_Cons)
qed simp

abbreviation print_member :: "string \<times> json \<Rightarrow> string" where
  "print_member \<equiv> \<lambda>(k, j). print_string k @ '':'' @ json_print j"

lemma parse_members_print:
  assumes "kvs \<noteq> []" "\<And>k j. (k, j) \<in> set kvs \<Longrightarrow> ascii k \<and> reads_back j \<and> json_depth j \<le> d"
    and "2 * length (join '','' (map print_member kvs)) + 1 \<le> f"
  shows "parse_members f d (join '','' (map print_member kvs) @ CHR 0x7D # rest) = Done kvs rest"
  using assms
proof (induction kvs arbitrary: f rule: induct_list012)
  case (2 kv)
  obtain k j where kv: "kv = (k, j)" by force
  from 2 kv show ?case
    by (cases f)
       (simp_all add: parse_members.simps skip_ws_Cons print_string_def scan_string_enc unquote_enc
          reads_back_def)
next
  case (3 kv kv' kvs)
  obtain k j where kv: "kv = (k, j)" by force
  from "3.prems"(3) obtain f' where f: "f = Suc f'" by (cases f) auto
  let ?rest = "join '','' (map print_member (kv' # kvs)) @ CHR 0x7D # rest"
  have IH: "parse_members f' d ?rest = Done (kv' # kvs) rest"
    by (rule "3.IH"(2)) (use "3.prems" f in \<open>auto split: prod.splits\<close>)
  from "3.prems"(2) kv have j: "ascii k" "reads_back j" "json_depth j \<le> d" by auto
  have "2 * length (json_print j) \<le> f'"
    using "3.prems"(3) f kv by (simp split: prod.splits)
  with j have "parse_value f' d (json_print j @ CHR '','' # ?rest) = Done j (CHR '','' # ?rest)"
    by (auto simp: reads_back_def)
  with IH j show ?case
    by (simp add: f kv parse_members.simps skip_ws_Cons print_string_def scan_string_enc unquote_enc)
qed simp

lemma foldr_max_ge: "x \<in> set xs \<Longrightarrow> (x::nat) \<le> foldr max xs 0"
  by (induction xs) auto

lemma reads_back_JArr:
  assumes "\<And>j. j \<in> set js \<Longrightarrow> reads_back j" "list_all wf_json js"
  shows "reads_back (JArr js)"
  unfolding reads_back_def
proof (intro allI impI)
  fix f d rest
  assume f: "2 * length (json_print (JArr js)) \<le> f" and d: "json_depth (JArr js) \<le> d" and rest: "delim rest"
  from f d obtain f' d' where S: "f = Suc f'" "d = Suc d'" by (cases f; cases d) auto
  show "parse_value f d (json_print (JArr js) @ rest) = Done (JArr js) rest"
  proof (cases js)
    case Nil
    then show ?thesis by (simp add: S parse_value.simps skip_ws_Cons)
  next
    case (Cons j' js')
    from assms(2) Cons have "wf_json j'" by simp
    then obtain c t where ct: "json_print j' = c # t" "\<not> is_space c" "c \<noteq> CHR '']''"
      by (rule json_print_hd)
    then obtain t' where t': "join '','' (map json_print js) = c # t'"
      by (cases js') (auto simp: Cons)
    have "json_depth j \<le> d'" if "j \<in> set js" for j
      using d S that foldr_max_ge [of "json_depth j" "map json_depth js"] by simp
    then have "parse_elems f' d' (join '','' (map json_print js) @ CHR '']'' # rest) = Done js rest"
      using assms f S Cons by (intro parse_elems_print) auto
    with ct t' show ?thesis
      by (simp add: S parse_value.simps skip_ws_Cons)
  qed
qed

lemma reads_back_JObj:
  assumes "\<And>k j. (k, j) \<in> set kvs \<Longrightarrow> ascii k \<and> reads_back j"
  shows "reads_back (JObj kvs)"
  unfolding reads_back_def
proof (intro allI impI)
  fix f d rest
  assume f: "2 * length (json_print (JObj kvs)) \<le> f" and d: "json_depth (JObj kvs) \<le> d" and rest: "delim rest"
  from f d obtain f' d' where S: "f = Suc f'" "d = Suc d'" by (cases f; cases d) auto
  show "parse_value f d (json_print (JObj kvs) @ rest) = Done (JObj kvs) rest"
  proof (cases kvs)
    case Nil
    then show ?thesis by (simp add: S parse_value.simps skip_ws_Cons)
  next
    case (Cons kv kvs')
    obtain k0 j0 where "kv = (k0, j0)" by force
    with Cons obtain t' where t': "join '','' (map print_member kvs) = quote # t'"
      by (cases kvs') (auto simp: print_string_def)
    have "json_depth j \<le> d'" if "(k, j) \<in> set kvs" for k j
      using d S that foldr_max_ge [of "json_depth j" "map (\<lambda>(k, j). json_depth j) kvs"]
      by (force simp: image_iff)
    then have "parse_members f' d' (join '','' (map print_member kvs) @ CHR 0x7D # rest) = Done kvs rest"
      using assms f S Cons by (intro parse_members_print) fastforce+
    with t' show ?thesis
      by (simp add: S parse_value.simps skip_ws_Cons)
  qed
qed

lemma reads_back_wf: "wf_json j \<Longrightarrow> reads_back j"
proof (induction j)
  case (JArr js)
  then show ?case by (intro reads_back_JArr) (auto simp: list_all_iff)
next
  case (JObj kvs)
  then show ?case by (intro reads_back_JObj) (fastforce simp: list_all_iff)
next
  case JNull
  show ?case
    by (auto simp: reads_back_def parse_value.simps scan_literal_def skip_ws_Cons le_Suc_eq numeral_eq_Suc dest!: Suc_le_D)
next
  case (JBool b)
  show ?case
    by (auto simp: reads_back_def parse_value.simps scan_literal_def skip_ws_Cons numeral_eq_Suc dest!: Suc_le_D)
next
  case (JNum s)
  then have "number_lit s" by simp
  moreover from number_lit_not_Nil [OF this] have "2 * length s \<le> f \<Longrightarrow> \<exists>f'. f = Suc f'" for f
    by (cases f) auto
  ultimately show ?case
    by (fastforce simp: reads_back_def parse_value_number)
next
  case (JStr s)
  have "2 * length (print_string s) \<le> f \<Longrightarrow> \<exists>f'. f = Suc f'" for f
    by (cases f) (auto simp: print_string_def)
  with JStr show ?case
    by (fastforce simp: reads_back_def parse_value_string)
qed

lemma parse_prefix_print:
  assumes "wf_json j" "json_depth j \<le> maxNestingDepth" "delim rest"
  shows "parse_prefix (json_print j @ rest) = Done j rest"
  using reads_back_wf [OF assms(1)] assms(2,3) by (simp add: reads_back_def parse_prefix_def)

lemma parse_prefix_reads_back:
  "reads_back j \<Longrightarrow> json_depth j \<le> maxNestingDepth \<Longrightarrow> parse_prefix (json_print j) = Done j []"
  unfolding reads_back_def parse_prefix_def by (metis append_Nil2 delim_def le_add1)

lemma json_parse_print:
  assumes "wf_json j" "json_depth j \<le> maxNestingDepth"
  shows "json_parse (json_print j) = Some j"
  using parse_prefix_print [OF assms, of "[]"] by (simp add: json_parse_def skip_ws_def)

subsection \<open>The reader always has enough fuel\<close>

lemma skip_ws_length: "length (skip_ws s) \<le> length s"
  by (simp add: skip_ws_def length_dropWhile_le)

lemma skip_ws_Cons_length: "skip_ws s = c # r \<Longrightarrow> length r < length s"
  using skip_ws_length [of s] by simp

lemma scan_string_length: "scan_string s = Done raw r \<Longrightarrow> length r < length s"
proof (induction s arbitrary: raw rule: scan_string.induct)
  case (2 c s)
  then show ?case
    by (auto simp: map_parsed_eq_Done split: if_splits)
qed simp

lemma scan_digits1_length: "scan_digits1 s = Done a r \<Longrightarrow> length r \<le> length s"
  by (auto simp: scan_digits1_def split: if_splits)

lemma scan_frac_length: "scan_frac s = Done a r \<Longrightarrow> length r \<le> length s"
  by (auto simp: scan_frac_def map_parsed_eq_Done dest: scan_digits1_length split: list.splits if_splits)

lemma scan_exp_length: "scan_exp s = Done a r \<Longrightarrow> length r \<le> length s"
  by (auto simp: scan_exp_def map_parsed_eq_Done dest: scan_digits1_length split: list.splits if_splits)

lemma scan_int_length: "scan_int s = Done a r \<Longrightarrow> length r < length s"
  by (auto simp: scan_int_def digits_of_def split: list.splits if_splits)

lemma scan_number_length: "scan_number s = Done a r \<Longrightarrow> length r < length s"
proof -
  have "scan_unsigned s = Done a r \<Longrightarrow> length r < length s" for s a r
    by (auto simp: scan_unsigned_def and_then_eq_Done
             dest!: scan_int_length scan_frac_length scan_exp_length)
  then show "scan_number s = Done a r \<Longrightarrow> length r < length s"
    by (cases s) (fastforce simp: scan_number_unsigned map_parsed_eq_Done less_Suc_eq split: if_splits)+
qed

lemma scan_literal_length: "t \<noteq> [] \<Longrightarrow> scan_literal t j s = Done v r \<Longrightarrow> length r < length s"
  by (cases s) (auto simp: scan_literal_def split: if_splits)

lemma parse_length:
  "parse_value f d s = Done v r \<Longrightarrow> length r < length s"
  "parse_elems f d s = Done vs r \<Longrightarrow> length r < length s"
  "parse_members f d s = Done kvs r \<Longrightarrow> length r < length s"
proof (induction f arbitrary: d s v r vs kvs)
  case (Suc f)
  {
    case 1
    then show ?case
      by (auto simp: parse_value.simps map_parsed_eq_Done split: list.splits if_splits
            dest!: skip_ws_Cons_length Suc.IH(2,3) scan_string_length scan_number_length
                   scan_literal_length [rotated])
  next
    case 2
    then show ?case
      by (auto simp: parse_elems.simps map_parsed_eq_Done split: list.splits if_splits parsed.splits
            dest!: skip_ws_Cons_length Suc.IH(1,2))
  next
    case 3
    then show ?case
      by (auto simp: parse_members.simps map_parsed_eq_Done split: list.splits if_splits parsed.splits
            dest!: skip_ws_Cons_length Suc.IH(1,3) scan_string_length)
  }
qed (simp_all add: parse_value.simps parse_elems.simps parse_members.simps)

lemma parse_fuel_step:
  "2 * length s + 1 \<le> f \<Longrightarrow> parse_value (Suc f) d s = parse_value f d s"
  "2 * length s + 2 \<le> f \<Longrightarrow> parse_elems (Suc f) d s = parse_elems f d s"
  "2 * length s + 1 \<le> f \<Longrightarrow> parse_members (Suc f) d s = parse_members f d s"
proof (induction f arbitrary: d s)
  case (Suc f)
  {
    case 1
    have "parse_members (Suc f) (d - 1) (c # r) = parse_members f (d - 1) (c # r)"
      "parse_elems (Suc f) (d - 1) (c # r) = parse_elems f (d - 1) (c # r)"
      if "skip_ws r0 = c # r" "skip_ws s = c0 # r0" for c c0 r r0
      using that 1 skip_ws_length [of r0] skip_ws_length [of s] by (auto intro!: Suc.IH)
    then show ?case
      by (auto simp: parse_value.simps(2) [of "Suc f" d s] parse_value.simps(2) [of f d s] split: list.splits)
  next
    case 2
    have "parse_value (Suc f) d s = parse_value f d s" using 2 by (intro Suc.IH) auto
    moreover have "parse_elems (Suc f) d r' = parse_elems f d r'"
      if "parse_value f d s = Done v r" "skip_ws r = c # r'" for v r c r'
      using that 2 parse_length(1) [OF that(1)] skip_ws_Cons_length [OF that(2)] by (intro Suc.IH) auto
    ultimately show ?case
      by (auto simp: parse_elems.simps(2) [of "Suc f" d s] parse_elems.simps(2) [of f d s] split: parsed.splits list.splits)
  next
    case 3
    have val: "parse_value (Suc f) d r2 = parse_value f d r2"
      if "skip_ws s = q # r" "scan_string r = Done raw r1" "skip_ws r1 = c # r2" for q r raw r1 c r2
      using that 3 skip_ws_Cons_length [OF that(1)] scan_string_length [OF that(2)] skip_ws_Cons_length [OF that(3)]
      by (intro Suc.IH) auto
    have mem: "parse_members (Suc f) d r4 = parse_members f d r4"
      if "skip_ws s = q # r" "scan_string r = Done raw r1" "skip_ws r1 = c # r2"
        "parse_value f d r2 = Done v r3" "skip_ws r3 = c3 # r4" for q r raw r1 c r2 v r3 c3 r4
      using that 3 skip_ws_Cons_length [OF that(1)] scan_string_length [OF that(2)]
        skip_ws_Cons_length [OF that(3)] parse_length(1) [OF that(4)] skip_ws_Cons_length [OF that(5)]
      by (intro Suc.IH) auto
    show ?case
      by (auto simp: parse_members.simps(2) [of "Suc f" d s] parse_members.simps(2) [of f d s] val mem
               split: parsed.splits list.splits)
  }
qed simp_all

lemma parse_value_fuel:
  "2 * length s + 1 \<le> f \<Longrightarrow> parse_value f maxNestingDepth s = parse_prefix s"
proof (induction f)
  case (Suc f)
  show ?case
  proof (cases "2 * length s + 1 \<le> f")
    case True
    with Suc parse_fuel_step(1) show ?thesis by simp
  next
    case False
    with Suc.prems have "Suc f = 2 * length s + 1" by simp
    then show ?thesis
      using parse_fuel_step(1) [of s "2 * length s + 1" maxNestingDepth] by (simp add: parse_prefix_def)
  qed
qed simp

end
