(* ===== verification/Go_Float.thy ===== *)
theory Go_Float
  imports Go_Json "HOL-Library.Log_Nat"
begin

text \<open>
  Go's \<open>float64\<close>: IEEE 754 binary64 with round-to-nearest-even, for the conversions and the one
  addition the service performs, and the decimal reading and printing of \<open>encoding/json\<close>. A finite
  value is a sign and a magnitude counted in units of \<open>2 ^ -1074\<close>, the least positive float, so
  every float is an exact integer multiple of the unit and rounding is integer arithmetic.

  Converting a float outside the \<open>int64\<close> range to \<open>int64\<close> is implementation-dependent in Go:
  the conversion takes what the machine answers there (\<open>ovf\<close>) as an argument.

  Facts: integers up to \<open>2 ^ 53\<close> in absolute value convert exactly and back, \<open>2 ^ 53 + 1\<close> does
  not; rounding is off by at most half a unit in the last place.
\<close>

section \<open>Definitions\<close>

datatype float64 = Fin bool nat | Inf bool | NaN

abbreviation unit_exp :: nat where
  "unit_exp \<equiv> 1074"

text \<open>\<open>p / q\<close> rounded to the nearest integer, ties to even.\<close>

definition round_half_even :: "nat \<Rightarrow> nat \<Rightarrow> nat" where
  "round_half_even p q =
     (let d = p div q; r = p mod q in if q < 2 * r \<or> (2 * r = q \<and> odd d) then d + 1 else d)"

text \<open>\<open>p / q\<close> units rounded to 53 significant bits (or to a whole unit below the normal range).\<close>

definition ulp_exp :: "nat \<Rightarrow> nat" where
  "ulp_exp n = floorlog 2 n - 53"

definition round_units :: "nat \<Rightarrow> nat \<Rightarrow> nat" where
  "round_units p q = (let e = ulp_exp (p div q) in round_half_even p (q * 2 ^ e) * 2 ^ e)"

definition mk_float :: "bool \<Rightarrow> nat \<Rightarrow> float64" where
  "mk_float s m = (if 2 ^ (1024 + unit_exp) \<le> m then Inf s else Fin s m)"

definition f64_of_ratio :: "bool \<Rightarrow> nat \<Rightarrow> nat \<Rightarrow> float64" where
  "f64_of_ratio s p q = mk_float s (round_units (p * 2 ^ unit_exp) q)"

definition f64_of_int :: "int \<Rightarrow> float64" where
  "f64_of_int i = f64_of_ratio (i < 0) (nat \<bar>i\<bar>) 1"

definition signed_units :: "bool \<Rightarrow> nat \<Rightarrow> int" where
  "signed_units s m = (if s then - int m else int m)"

definition f64_add :: "float64 \<Rightarrow> float64 \<Rightarrow> float64" where
  "f64_add x y =
     (case (x, y) of
        (Fin s a, Fin t b) \<Rightarrow>
          let z = signed_units s a + signed_units t b
          in mk_float (if z = 0 then s \<and> t else z < 0) (round_units (nat \<bar>z\<bar>) 1)
      | (Inf s, Fin t b) \<Rightarrow> Inf s
      | (Fin s a, Inf t) \<Rightarrow> Inf t
      | (Inf s, Inf t) \<Rightarrow> if s = t then Inf s else NaN
      | _ \<Rightarrow> NaN)"

text \<open>The operator \<open>==\<close>: the two zeros are equal, NaN equals nothing.\<close>

definition f64_eq :: "float64 \<Rightarrow> float64 \<Rightarrow> bool" where
  "f64_eq x y =
     (case (x, y) of
        (Fin s a, Fin t b) \<Rightarrow> a = b \<and> (s = t \<or> a = 0)
      | (Inf s, Inf t) \<Rightarrow> s = t
      | _ \<Rightarrow> False)"

text \<open>\<open>int64(x)\<close>: truncation towards zero.\<close>

definition f64_to_int64 :: "(float64 \<Rightarrow> int64) \<Rightarrow> float64 \<Rightarrow> int64" where
  "f64_to_int64 ovf x =
     (case x of
        Fin s m \<Rightarrow>
          let i = signed_units s (m div 2 ^ unit_exp)
          in if - (2 ^ 63) \<le> i \<and> i < 2 ^ 63 then word_of_int i else ovf x
      | _ \<Rightarrow> ovf x)"

text \<open>The constant \<open>0.01\<close> of the source, rounded to \<open>float64\<close>.\<close>

definition f64_0_01 :: float64 where
  "f64_0_01 = Fin False (5764607523034235 * 2 ^ 1015)"

subsection \<open>Reading a JSON number\<close>

text \<open>Sign, digits and decimal exponent of a literal; the value is \<open>digits * 10 ^ exponent\<close>.\<close>

definition split_number :: "string \<Rightarrow> bool \<times> nat \<times> int" where
  "split_number s =
     (let neg = (s \<noteq> [] \<and> hd s = CHR ''-''); u = (if neg then tl s else s);
          ip = digits_of u; r = drop (length ip) u;
          fp = (case r of c # r' \<Rightarrow> if c = CHR ''.'' then digits_of r' else [] | [] \<Rightarrow> []);
          x = (if fp = [] then r else drop (length fp + 1) r);
          ex = (case x of [] \<Rightarrow> 0
                | c # y \<Rightarrow> (case y of
                     [] \<Rightarrow> 0
                   | z # y' \<Rightarrow> if z = CHR ''-'' then - int (nat_of_digits y')
                              else if z = CHR ''+'' then int (nat_of_digits y') else int (nat_of_digits y)))
      in (neg, nat_of_digits (ip @ fp), ex - int (length fp)))"

definition f64_of_decimal :: "bool \<Rightarrow> nat \<Rightarrow> int \<Rightarrow> float64" where
  "f64_of_decimal s d e =
     (if 0 \<le> e then f64_of_ratio s (d * 10 ^ nat e) 1 else f64_of_ratio s d (10 ^ nat (- e)))"

text \<open>\<open>strconv.ParseFloat(s, 64)\<close> on a JSON number; a value too large is a range error.\<close>

definition ParseFloat :: "string \<Rightarrow> float64 option" where
  "ParseFloat s =
     (case split_number s of (neg, d, e) \<Rightarrow>
        (case f64_of_decimal neg d e of Inf b \<Rightarrow> None | x \<Rightarrow> Some x))"

subsection \<open>Printing a float\<close>

text \<open>
  The decimal point position \<open>dp\<close>: the least with \<open>value < 10 ^ dp\<close>. A nonzero magnitude is at
  least \<open>2 ^ -1074 > 10 ^ -324\<close>.
\<close>

fun count_up :: "nat \<Rightarrow> int \<Rightarrow> (int \<Rightarrow> bool) \<Rightarrow> int" where
  "count_up 0 i P = i"
| "count_up (Suc n) i P = (if P i then i else count_up n (i + 1) P)"

definition below_pow10 :: "nat \<Rightarrow> int \<Rightarrow> bool" where
  "below_pow10 m i =
     (if 0 \<le> i then m < 10 ^ nat i * 2 ^ unit_exp else m * 10 ^ nat (- i) < 2 ^ unit_exp)"

definition decimal_point :: "nat \<Rightarrow> int" where
  "decimal_point m = count_up 640 (- 330) (below_pow10 m)"

text \<open>
  A \<open>float32\<close> is kept as the \<open>float64\<close> of the same value; its precision is 24 bits and its least
  positive value \<open>2 ^ -149\<close>, which is \<open>2 ^ 925\<close> units.
\<close>

definition round_units32 :: "nat \<Rightarrow> nat \<Rightarrow> nat" where
  "round_units32 p q =
     (let e = max (floorlog 2 (p div q) - 24) 925 in round_half_even p (q * 2 ^ e) * 2 ^ e)"

text \<open>The magnitude a decimal reads back as, at the given precision.\<close>

definition read_decimal :: "(nat \<Rightarrow> nat \<Rightarrow> nat) \<Rightarrow> nat \<Rightarrow> int \<Rightarrow> nat" where
  "read_decimal rd d e =
     (if 0 \<le> e then rd (d * 10 ^ nat e * 2 ^ unit_exp) 1 else rd (d * 2 ^ unit_exp) (10 ^ nat (- e)))"

text \<open>The nearest \<open>n\<close>-digit decimal that reads back as the float, if there is one.\<close>

definition digits_try :: "(nat \<Rightarrow> nat \<Rightarrow> nat) \<Rightarrow> nat \<Rightarrow> int \<Rightarrow> nat \<Rightarrow> nat option" where
  "digits_try rd m dp n =
     (let k = int n - dp;
          p = (if 0 \<le> k then m * 10 ^ nat k else m);
          q = (if 0 \<le> k then 2 ^ unit_exp else 10 ^ nat (- k) * 2 ^ unit_exp);
          lo = p div q;
          ok = (\<lambda>c. read_decimal rd c (- k) = m);
          near = (if 2 * (p mod q) \<le> q then lo else lo + 1);
          far = (if 2 * (p mod q) \<le> q then lo + 1 else lo)
      in if ok near then Some near else if ok far then Some far else None)"

text \<open>The least number of digits that identifies the float; 17 digits always do.\<close>

fun shortest_from :: "(nat \<Rightarrow> nat \<Rightarrow> nat) \<Rightarrow> nat \<Rightarrow> nat \<Rightarrow> nat \<Rightarrow> int \<Rightarrow> nat \<times> nat" where
  "shortest_from rd 0 n m dp = (0, n)"
| "shortest_from rd (Suc f) n m dp =
     (case digits_try rd m dp n of Some c \<Rightarrow> (c, n) | None \<Rightarrow> shortest_from rd f (n + 1) m dp)"

definition strip_zeros :: "string \<Rightarrow> string" where
  "strip_zeros s = rev (dropWhile (\<lambda>c. c = CHR ''0'') (rev s))"

text \<open>The significant digits and the position of the decimal point (\<open>0.digits * 10 ^ dp\<close>).\<close>

definition shortest_decimal :: "(nat \<Rightarrow> nat \<Rightarrow> nat) \<Rightarrow> nat \<Rightarrow> string \<times> int" where
  "shortest_decimal rd m =
     (if m = 0 then ([], 0)
      else let dp = decimal_point m; (c, n) = shortest_from rd 17 1 m dp; ds = fmt_nat c
           in (strip_zeros ds, dp + (int (length ds) - int n)))"

text \<open>Format \<open>'f'\<close>.\<close>

definition format_f :: "string \<Rightarrow> int \<Rightarrow> string" where
  "format_f ds dp =
     (let ip = (if 0 < dp then take (nat dp) ds @ replicate (nat dp - length ds) (CHR ''0'') else ''0'');
          fp = (if 0 < dp then drop (nat dp) ds else replicate (nat (- dp)) (CHR ''0'') @ ds)
      in if int (length ds) \<le> dp \<or> ds = [] then ip else ip @ CHR ''.'' # fp)"

text \<open>Format \<open>'e'\<close>; \<open>encoding/json\<close> rewrites \<open>e-09\<close> to \<open>e-9\<close>.\<close>

definition format_e :: "string \<Rightarrow> int \<Rightarrow> string" where
  "format_e ds dp =
     (let x = dp - 1
      in take 1 ds @ (if length ds \<le> 1 then [] else CHR ''.'' # drop 1 ds)
         @ CHR ''e'' # (if x < 0 then CHR ''-'' else CHR ''+'') # fmt_nat (nat \<bar>x\<bar>))"

text \<open>The exponent form is used below \<open>1e-6\<close> and from \<open>1e21\<close> on, both rounded to the precision.\<close>

definition format_float :: "(nat \<Rightarrow> nat \<Rightarrow> nat) \<Rightarrow> bool \<Rightarrow> nat \<Rightarrow> string" where
  "format_float rd s m =
     (case shortest_decimal rd m of (ds, dp) \<Rightarrow>
        (if s then ''-'' else []) @
        (if m \<noteq> 0 \<and> (m < rd (2 ^ unit_exp) (10 ^ 6) \<or> rd (10 ^ 21 * 2 ^ unit_exp) 1 \<le> m)
         then format_e ds dp else format_f ds dp))"

text \<open>\<open>json.Marshal\<close> of a float; infinities and NaN are an \<open>UnsupportedValueError\<close>.\<close>

definition json_float :: "float64 \<Rightarrow> json option" where
  "json_float x = (case x of Fin s m \<Rightarrow> Some (JNum (format_float round_units s m)) | _ \<Rightarrow> None)"

definition json_float32 :: "float64 \<Rightarrow> json option" where
  "json_float32 x = (case x of Fin s m \<Rightarrow> Some (JNum (format_float round_units32 s m)) | _ \<Rightarrow> None)"

section \<open>Facts\<close>

lemma round_half_even_dvd: "0 < q \<Longrightarrow> q dvd p \<Longrightarrow> round_half_even p q * q = p"
  by (auto simp: round_half_even_def Let_def)

text \<open>Rounding moves a value by at most half a quantum.\<close>

lemma round_half_even_error:
  assumes "0 < q"
  shows "2 * (round_half_even p q * q) \<le> 2 * p + q" "2 * p \<le> 2 * (round_half_even p q * q) + q"
proof -
  have p: "p = p div q * q + p mod q" and r: "p mod q < q"
    using assms by simp_all
  define a where "a = p div q * q"
  have c: "round_half_even p q * q = (if q < 2 * (p mod q) \<or> 2 * (p mod q) = q \<and> odd (p div q) then a + q else a)"
    by (simp add: round_half_even_def Let_def a_def algebra_simps)
  have "p = a + p mod q" using p by (simp add: a_def)
  with r c show "2 * (round_half_even p q * q) \<le> 2 * p + q" "2 * p \<le> 2 * (round_half_even p q * q) + q"
    by (auto split: if_splits)
qed

lemma floorlog_le: "n < 2 ^ w \<Longrightarrow> floorlog 2 n \<le> w"
  by (rule floorlog_leI) auto

lemma round_units_exact:
  assumes "2 ^ ulp_exp n dvd n"
  shows "round_units n 1 = n"
  using assms by (simp add: round_units_def Let_def round_half_even_dvd)

lemma ulp_exp_le: "n < 2 ^ (53 + k) \<Longrightarrow> ulp_exp n \<le> k"
  using floorlog_le [of n "53 + k"] by (simp add: ulp_exp_def)

lemma ulp_exp_dvd:
  assumes "n \<le> 2 ^ 53"
  shows "2 ^ ulp_exp (n * 2 ^ k) dvd n * 2 ^ k"
proof (cases "n = 2 ^ 53")
  case True
  have "(2::nat) ^ (53 + k) < 2 ^ (53 + (k + 1))" by (rule power_strict_increasing) simp_all
  from ulp_exp_le [OF this] have "ulp_exp (2 ^ (53 + k)) \<le> 53 + k" by simp
  then have "(2::nat) ^ ulp_exp (2 ^ (53 + k)) dvd 2 ^ (53 + k)" by (rule le_imp_power_dvd)
  with True show ?thesis by (simp only: power_add)
next
  case False
  with assms have "n * 2 ^ k < 2 ^ 53 * 2 ^ k" by simp
  then have "ulp_exp (n * 2 ^ k) \<le> k"
    by (intro ulp_exp_le) (simp only: power_add)
  then have "(2::nat) ^ ulp_exp (n * 2 ^ k) dvd 2 ^ k" by (rule le_imp_power_dvd)
  then show ?thesis by simp
qed

lemma scale_less: "n < 2 ^ j \<Longrightarrow> n * 2 ^ k < (2::nat) ^ (j + k)"
  by (simp add: power_add)

lemma f64_of_int_exact:
  assumes "\<bar>i\<bar> \<le> 2 ^ 53"
  shows "f64_of_int i = Fin (i < 0) (nat \<bar>i\<bar> * 2 ^ unit_exp)"
proof -
  let ?n = "nat \<bar>i\<bar>"
  have le: "?n \<le> 2 ^ 53" using assms by (simp add: nat_le_iff)
  have "round_units (?n * 2 ^ unit_exp) 1 = ?n * 2 ^ unit_exp"
    by (rule round_units_exact [OF ulp_exp_dvd [OF le]])
  moreover have "?n * 2 ^ unit_exp < 2 ^ (1024 + unit_exp)"
    by (rule scale_less) (rule order.strict_trans1 [OF le], simp)
  ultimately show ?thesis by (simp only: f64_of_int_def f64_of_ratio_def mk_float_def not_le [symmetric] if_False)
qed

lemma int64_of_f64_of_int:
  assumes "\<bar>i\<bar> \<le> 2 ^ 53"
  shows "f64_to_int64 ovf (f64_of_int i) = word_of_int i"
proof -
  have "signed_units (i < 0) (nat \<bar>i\<bar>) = i" by (simp add: signed_units_def)
  moreover have "- (2 ^ 63) \<le> i" "i < 2 ^ 63" using assms by auto
  ultimately show ?thesis
    using assms by (simp add: f64_of_int_exact f64_to_int64_def Let_def)
qed

lemma ulp_exp_ge:
  assumes "2 ^ (52 + k) \<le> n"
  shows "k \<le> ulp_exp n"
proof -
  have "53 + k \<le> floorlog 2 n"
    by (rule floorlog_geI) (use assms in simp_all)
  then show ?thesis by (simp add: ulp_exp_def)
qed

text \<open>\<open>2 ^ 53 + 1\<close> is the first integer that is lost.\<close>

lemma f64_of_int_inexact: "f64_of_int (2 ^ 53 + 1) = f64_of_int (2 ^ 53)"
proof -
  define u :: nat where "u = 2 ^ unit_exp"
  have u: "0 < u" by (simp add: u_def)
  let ?N = "(2 ^ 53 + 1) * 2 ^ unit_exp :: nat"
  have lo: "2 ^ (52 + 1075) \<le> ?N" and hi: "?N < 2 ^ (53 + 1075)"
    by (simp_all add: power_add)
  have "ulp_exp ?N = 1075"
    using ulp_exp_ge [OF lo] ulp_exp_le [OF hi] by simp
  moreover have N: "?N = (2 ^ 53 + 1) * u" and q: "2 ^ 1075 = 2 * u"
    by (simp_all add: u_def)
  ultimately have "round_units ?N 1 = round_half_even ((2 ^ 53 + 1) * u) (2 * u) * (2 * u)"
    by (simp only: round_units_def Let_def div_by_1 mult_1)
  also have "round_half_even ((2 ^ 53 + 1) * u) (2 * u) = 2 ^ 52"
  proof -
    have split: "(2 ^ 53 + 1) * u = u + 2 ^ 52 * (2 * u)" by (simp add: algebra_simps)
    have "((2 ^ 53 + 1) * u) div (2 * u) = 2 ^ 52"
      unfolding split using u by simp
    moreover have "((2 ^ 53 + 1) * u) mod (2 * u) = u"
      unfolding split mod_mult_self1 using u by simp
    ultimately show ?thesis by (simp only: round_half_even_def Let_def) simp
  qed
  also have "2 ^ 52 * (2 * u) = 2 ^ 53 * 2 ^ unit_exp" by (simp add: u_def)
  finally have r: "round_units ?N 1 = 2 ^ 53 * 2 ^ unit_exp" .
  have n: "nat \<bar>2 ^ 53 + 1\<bar> = 2 ^ 53 + 1" "nat \<bar>2 ^ 53\<bar> = 2 ^ 53" by simp_all
  have "(2 ^ 53 * 2 ^ unit_exp :: nat) < 2 ^ (1024 + unit_exp)"
    by (rule scale_less) simp
  then have "mk_float False (2 ^ 53 * 2 ^ unit_exp) = Fin False (2 ^ 53 * 2 ^ unit_exp)"
    by (simp only: mk_float_def not_le [symmetric] if_False)
  moreover have "f64_of_int (2 ^ 53) = Fin False (2 ^ 53 * 2 ^ unit_exp)"
    using f64_of_int_exact [of "2 ^ 53"] by simp
  ultimately show ?thesis
    by (simp only: f64_of_int_def f64_of_ratio_def n r) simp
qed

subsection \<open>Reading integers\<close>

lemma digits_of_fmt_nat: "digits_of (fmt_nat n) = fmt_nat n"
  using fmt_nat_digits [of n] by (simp add: digits_of_def list_all_iff)

lemma split_number_fmt_int: "split_number (fmt_int i) = (i < 0, nat \<bar>i\<bar>, 0)"
  using fmt_nat_hd_not_sign [of "nat i"]
  by (auto simp: split_number_def fmt_int_def Let_def digits_of_fmt_nat)

lemma ParseFloat_fmt_int:
  assumes "\<bar>i\<bar> \<le> 2 ^ 53"
  shows "ParseFloat (fmt_int i) = Some (f64_of_int i)"
proof -
  have "f64_of_decimal (i < 0) (nat \<bar>i\<bar>) 0 = f64_of_int i"
    by (simp add: f64_of_decimal_def f64_of_int_def)
  then show ?thesis
    using f64_of_int_exact [OF assms] by (simp add: ParseFloat_def split_number_fmt_int)
qed

lemma ParseFloat_inexact: "ParseFloat (fmt_int (2 ^ 53 + 1)) = Some (f64_of_int (2 ^ 53))"
proof -
  have "f64_of_decimal False (nat \<bar>2 ^ 53 + 1\<bar>) 0 = f64_of_int (2 ^ 53 + 1)"
    by (simp add: f64_of_decimal_def f64_of_int_def)
  moreover have "f64_of_int (2 ^ 53) = Fin False (2 ^ 53 * 2 ^ unit_exp)"
    using f64_of_int_exact [of "2 ^ 53"] by simp
  ultimately show ?thesis
    by (simp only: ParseFloat_def split_number_fmt_int f64_of_int_inexact) simp
qed

subsection \<open>Adding one hundredth\<close>

lemma f64_0_01_correct: "f64_0_01 = f64_of_ratio False 1 100"
proof -
  define b :: nat where "b = 2 ^ 1015"
  have b: "0 < b" by (simp add: b_def)
  have u: "(1 * 2 ^ unit_exp :: nat) = 2 ^ 59 * b" by (simp add: b_def)
  have d: "2 ^ 59 * b div 100 = 5764607523034234 * b + (88 * b) div 100"
  proof -
    have "2 ^ 59 * b = 88 * b + (5764607523034234 * b) * 100" by simp
    then show ?thesis by simp
  qed
  have p: "(2::nat) ^ (52 + 1015) = 2 ^ 52 * b" "(2::nat) ^ (53 + 1015) = 2 ^ 53 * b"
    by (simp_all only: power_add b_def)
  have "(88 * b) div 100 \<le> b" by simp
  then have lo: "2 ^ (52 + 1015) \<le> 2 ^ 59 * b div 100" and hi: "2 ^ 59 * b div 100 < 2 ^ (53 + 1015)"
    unfolding p d using b by simp_all
  have "ulp_exp (2 ^ 59 * b div 100) = 1015"
    using ulp_exp_ge [OF lo] ulp_exp_le [OF hi] by (rule antisym [rotated])
  then have "round_units (1 * 2 ^ unit_exp) 100 = round_half_even (2 ^ 59 * b) (100 * b) * b"
    unfolding u round_units_def Let_def by (simp only: b_def [symmetric])
  also have "round_half_even (2 ^ 59 * b) (100 * b) = 5764607523034235"
  proof -
    have split: "2 ^ 59 * b = 88 * b + 5764607523034234 * (100 * b)" by simp
    have "2 ^ 59 * b div (100 * b) = 5764607523034234" unfolding split using b by simp
    moreover have "2 ^ 59 * b mod (100 * b) = 88 * b" unfolding split mod_mult_self1 using b by simp
    ultimately show ?thesis using b by (simp only: round_half_even_def Let_def) simp
  qed
  finally have "round_units (1 * 2 ^ unit_exp) 100 = 5764607523034235 * 2 ^ 1015" by (simp only: b_def)
  moreover have "(5764607523034235 * 2 ^ 1015 :: nat) < 2 ^ (1083 + 1015)" by (rule scale_less) simp
  then have "\<not> (2::nat) ^ (1024 + unit_exp) \<le> 5764607523034235 * 2 ^ 1015" by simp
  ultimately show ?thesis by (simp only: f64_0_01_def f64_of_ratio_def mk_float_def if_False)
qed

text \<open>A float that counts whole numbers.\<close>

definition integral :: "float64 \<Rightarrow> bool" where
  "integral x \<longleftrightarrow> (case x of Fin s m \<Rightarrow> 2 ^ unit_exp dvd m | _ \<Rightarrow> False)"

lemma between_multiples: "a = k * u \<Longrightarrow> a < r \<Longrightarrow> r < a + u \<Longrightarrow> \<not> u dvd (r :: nat)"
  by (metis dvd_def mult.commute mult_less_cancel2 not_less_eq mult_Suc add.commute)

lemma round_units_bounds:
  assumes "n < 2 ^ (53 + k)"
  shows "2 * round_units n 1 \<le> 2 * n + 2 ^ k" "2 * n \<le> 2 * round_units n 1 + 2 ^ k"
proof -
  have "(2::nat) ^ ulp_exp n \<le> 2 ^ k" using ulp_exp_le [OF assms] by (rule power_increasing) simp
  moreover have "0 < (2::nat) ^ ulp_exp n" by simp
  note round_half_even_error [OF this, of n]
  moreover have "round_units n 1 = round_half_even n (2 ^ ulp_exp n) * 2 ^ ulp_exp n"
    by (simp add: round_units_def Let_def)
  ultimately show "2 * round_units n 1 \<le> 2 * n + 2 ^ k" "2 * n \<le> 2 * round_units n 1 + 2 ^ k" by linarith+
qed

text \<open>Below \<open>2 ^ 47\<close> the sum keeps a fractional part; from there up to \<open>2 ^ 53\<close> the hundredth is lost.\<close>

lemma add_hundredth_small:
  assumes "\<bar>i\<bar> < 2 ^ 47"
  shows "\<not> integral (f64_add (f64_of_int i) f64_0_01)" "\<exists>s m. f64_add (f64_of_int i) f64_0_01 = Fin s m"
proof -
  define n where "n = nat \<bar>i\<bar>"
  define b :: nat where "b = 2 ^ 1015"
  define a where "a = n * 2 ^ unit_exp"
  define z where "z = (if i < 0 then a - 5764607523034235 * b else a + 5764607523034235 * b)"
  define r where "r = round_units z 1"
  have n: "n + 1 \<le> 2 ^ 47" "i < 0 \<Longrightarrow> 1 \<le> n" using assms by (auto simp: n_def)
  have b: "0 < b" by (simp add: b_def)
  have u: "(2::nat) ^ unit_exp = 2 ^ 59 * b" by (simp only: b_def flip: power_add) simp
  have p: "(2::nat) ^ (53 + 1068) = 2 ^ 106 * b" "(2::nat) ^ 1068 = 2 ^ 53 * b"
    by (simp_all only: b_def flip: power_add) simp_all
  have "(n + 1) * (2 ^ 59 * b) \<le> 2 ^ 47 * (2 ^ 59 * b)" using n(1) by (rule mult_right_mono) simp
  then have nb: "a + 2 ^ 59 * b \<le> 2 ^ 106 * b" unfolding a_def u by (simp add: algebra_simps)
  have nb1: "2 ^ 59 * b \<le> a" if "i < 0" unfolding a_def u using n(2) [OF that] by simp
  have zlt: "z < 2 ^ (53 + 1068)" unfolding p z_def using nb b by (cases "i < 0") simp_all
  note e = round_units_bounds [OF zlt, unfolded p, folded r_def]
  have add: "f64_add (f64_of_int i) f64_0_01 = mk_float (i < 0) r"
  proof -
    have ex: "f64_of_int i = Fin (i < 0) a"
      unfolding a_def n_def by (rule f64_of_int_exact) (use assms in simp)
    have s: "signed_units (i < 0) a + signed_units False (5764607523034235 * 2 ^ 1015)
        = (if i < 0 then - int z else int z)"
      unfolding z_def signed_units_def b_def [symmetric] using nb1 by (cases "i < 0") auto
    have "z \<noteq> 0" unfolding z_def using nb1 b by (cases "i < 0") auto
    then show ?thesis
      unfolding f64_add_def f64_0_01_def ex prod.case float64.case s by (simp add: r_def)
  qed
  show "\<exists>s m. f64_add (f64_of_int i) f64_0_01 = Fin s m"
  proof -
    have "r < 2 ^ (1024 + unit_exp)"
    proof -
      have "r < 2 ^ 107 * b" using e(1) zlt unfolding p by simp
      also have "\<dots> = 2 ^ (107 + 1015)" by (simp only: b_def power_add)
      also have "\<dots> \<le> 2 ^ (1024 + unit_exp)" by (rule power_increasing) simp_all
      finally show ?thesis .
    qed
    then show ?thesis by (simp only: add mk_float_def not_le [symmetric] if_False) blast
  qed
  have "\<not> 2 ^ unit_exp dvd r"
  proof (cases "i < 0")
    case True
    have a: "(n - 1) * 2 ^ unit_exp + 2 ^ unit_exp = a"
      unfolding a_def using n(2) [OF True] by (cases n) simp_all
    have "a < r + 2 ^ 59 * b" "r < a"
      using e b nb1 [OF True] True unfolding z_def by simp_all
    with a show ?thesis
      unfolding u by (intro between_multiples [of "(n - 1) * (2 ^ 59 * b)" "n - 1"]) linarith+
  next
    case False
    have "a < r" "r < a + 2 ^ 59 * b"
      using e b False unfolding z_def by simp_all
    then show ?thesis
      unfolding u by (intro between_multiples [of a n]) (simp_all only: a_def u)
  qed
  then show "\<not> integral (f64_add (f64_of_int i) f64_0_01)"
    by (simp only: add mk_float_def integral_def) simp
qed

lemma add_hundredth_large:
  assumes "2 ^ 47 \<le> i" "i \<le> 2 ^ 53"
  shows "f64_add (f64_of_int i) f64_0_01 = f64_of_int i"
proof -
  define n where "n = nat i"
  define b :: nat where "b = 2 ^ 1015"
  define a where "a = n * 2 ^ unit_exp"
  define c where "c = 5764607523034235 * b"
  define Q :: nat where "Q = 2 ^ ulp_exp (a + c)"
  have n: "2 ^ 47 \<le> n" "n \<le> 2 ^ 53" using assms by (auto simp: n_def)
  have b: "0 < b" by (simp add: b_def)
  have u: "(2::nat) ^ unit_exp = 2 ^ 59 * b" by (simp only: b_def flip: power_add) simp
  have p: "(2::nat) ^ (52 + 1069) = 2 ^ 47 * 2 ^ unit_exp" "(2::nat) ^ 1069 = 2 ^ 54 * b"
    by (simp only: u, simp only: b_def flip: power_add, simp) (simp only: b_def flip: power_add, simp)
  have "2 ^ 47 * 2 ^ unit_exp \<le> a" unfolding a_def using n(1) by (rule mult_right_mono) simp
  then have "1069 \<le> ulp_exp (a + c)" by (intro ulp_exp_ge) (simp only: p trans_le_add1)
  then have "(2::nat) ^ 1069 \<le> Q" unfolding Q_def by (rule power_increasing) simp
  then have cQ: "2 * c < Q" using b unfolding p c_def by simp
  have dv: "Q dvd a"
  proof (cases "n = 2 ^ 53")
    case True
    have "a + c < 2 ^ 54 * 2 ^ unit_exp" unfolding a_def c_def u True using b by simp
    then have "ulp_exp (a + c) \<le> 1 + unit_exp"
      by (intro ulp_exp_le) (simp only: power_add add.assoc [symmetric], simp)
    then have "Q dvd 2 ^ (53 + unit_exp)" unfolding Q_def by (intro le_imp_power_dvd) simp
    then show ?thesis unfolding a_def True by (simp only: power_add)
  next
    case False
    with n(2) have "(n + 1) * (2 ^ 59 * b) \<le> 2 ^ 53 * (2 ^ 59 * b)" by (intro mult_right_mono) simp_all
    then have "a + 2 ^ 59 * b \<le> 2 ^ 53 * 2 ^ unit_exp" unfolding a_def u by (simp add: algebra_simps)
    then have "a + c < 2 ^ 53 * 2 ^ unit_exp" using b unfolding c_def by simp
    then have "ulp_exp (a + c) \<le> unit_exp" by (intro ulp_exp_le) (simp only: power_add)
    then have "Q dvd 2 ^ unit_exp" unfolding Q_def by (rule le_imp_power_dvd)
    then show ?thesis unfolding a_def by simp
  qed
  then obtain k where k: "a = Q * k" by (rule dvdE)
  have "round_half_even (a + c) Q = k"
    using cQ unfolding k round_half_even_def Let_def by simp
  then have r: "round_units (a + c) 1 = a"
    unfolding round_units_def Let_def div_by_1 mult_1 Q_def [symmetric] by (simp only: k mult.commute)
  have ex: "f64_of_int i = Fin False a"
  proof -
    have i: "\<bar>i\<bar> \<le> 2 ^ 53" "\<not> i < 0" "\<bar>i\<bar> = i" using assms by auto
    show ?thesis using f64_of_int_exact [OF i(1)] by (simp only: i(2,3) a_def n_def)
  qed
  have m: "mk_float False a = Fin False a"
  proof -
    have "a < 2 ^ (1024 + unit_exp)" unfolding a_def by (rule scale_less) (rule order.strict_trans1 [OF n(2)], simp)
    then show ?thesis by (simp only: mk_float_def not_le [symmetric] if_False)
  qed
  have "c \<noteq> 0" using b by (simp add: c_def)
  then have z: "int a + int c \<noteq> 0" "\<not> int a + int c < 0" "nat \<bar>int a + int c\<bar> = a + c" by auto
  show ?thesis
    unfolding ex f64_add_def f64_0_01_def prod.case float64.case Let_def signed_units_def if_False
      b_def [symmetric] c_def [symmetric] by (simp only: z if_False r m)
qed

end
