(* ===== verification/Go_Any.thy ===== *)
theory Go_Any
  imports Go_Float "HOL-Library.Char_ord" "HOL-Library.List_Lexorder" "HOL-Library.AList" "HOL-Library.Multiset"
begin

text \<open>
  Dynamic values (\<open>interface{}\<close>) with the concrete types the service tests for, Go maps with
  string keys as association lists with distinct keys (the list order stands for Go's unspecified
  iteration order), and \<open>json.Marshal\<close>/\<open>json.Unmarshal\<close> of such values. Marshalling writes map
  keys in increasing byte order, so that the bytes only depend on the map, not on the iteration order
  (\<open>marshal_map_order\<close>); a decoded number is always a \<open>float64\<close>.
\<close>

section \<open>Definitions\<close>

datatype any =
    ANil
  | ABool bool
  | AInt int64
  | AInt64 int64
  | AFloat32 float64
  | AFloat64 float64
  | AString string
  | AList "any list"
  | AMap "(string \<times> any) list"

type_synonym 'v gomap = "(string \<times> 'v) list"

definition sorted_members :: "'v gomap \<Rightarrow> 'v gomap" where
  "sorted_members m = sort_key fst m"

fun any_json :: "any \<Rightarrow> json option" where
  "any_json ANil = Some JNull"
| "any_json (ABool b) = Some (JBool b)"
| "any_json (AInt i) = Some (JNum (FormatInt i))"
| "any_json (AInt64 i) = Some (JNum (FormatInt i))"
| "any_json (AFloat32 x) = json_float32 x"
| "any_json (AFloat64 x) = json_float x"
| "any_json (AString s) = Some (JStr s)"
| "any_json (AList xs) = map_option JArr (those (map any_json xs))"
| "any_json (AMap kvs) =
     map_option (\<lambda>m. JObj (sorted_members m))
       (those (map (\<lambda>(k, v). map_option (Pair k) (any_json v)) kvs))"

text \<open>Decoding into \<open>interface{}\<close>; a number out of the \<open>float64\<close> range is an error.\<close>

fun json_any :: "json \<Rightarrow> any option" where
  "json_any JNull = Some ANil"
| "json_any (JBool b) = Some (ABool b)"
| "json_any (JNum s) = map_option AFloat64 (ParseFloat s)"
| "json_any (JStr s) = Some (AString s)"
| "json_any (JArr xs) = map_option AList (those (map json_any xs))"
| "json_any (JObj kvs) =
     map_option (\<lambda>m. AMap (fold (\<lambda>(k, v). AList.update k v) m []))
       (those (map (\<lambda>(k, j). map_option (Pair k) (json_any j)) kvs))"

section \<open>Facts\<close>

text \<open>Two iteration orders of one map sort to the same list.\<close>

lemma sorted_members_unique:
  assumes "distinct (map fst m)" "distinct (map fst m')" "set m = set m'"
  shows "sorted_members m = sorted_members m'"
proof -
  have "mset m = mset m'"
    using assms by (intro set_eq_iff_mset_eq_distinct [THEN iffD1]) (auto simp: distinct_map)
  then show ?thesis
    unfolding sorted_members_def
    using assms(1) by (intro sort_key_inj_key_eq) (auto simp: distinct_map)
qed

end
