(* ===== verification/Go_Http.thy ===== *)
theory Go_Http
  imports Go_Any
begin

text \<open>
  The part of \<open>net/http\<close>, \<open>io\<close> and \<open>time\<close> the service uses: header maps with
  canonical keys, the response writer (headers are frozen by the first \<open>WriteHeader\<close>, later status
  codes are ignored), request bodies behind \<open>http.MaxBytesReader\<close>, handlers and middleware, and
  truncation of instants to a window. The package \<open>response\<close> of the service
  (\<open>RespondWithError\<close>, \<open>RespondWithJSON\<close>) is at the end.

  Facts: a response is committed exactly once (\<open>WriteHeader_keeps_status\<close>), a body
  of more than \<open>n\<close> bytes never passes \<open>MaxBytesReader\<close>, and a truncated instant is the start
  of the window that contains it.
\<close>

section \<open>Definitions\<close>

subsection \<open>Headers\<close>

type_synonym header = "string \<rightharpoonup> string list"

definition is_token_char :: "char \<Rightarrow> bool" where
  "is_token_char c \<longleftrightarrow>
     (let n = of_char c in between 48 57 n \<or> between 65 90 n \<or> between 97 122 n)
     \<or> c \<in> set ''!#$%&*+-.^_|~'' \<or> of_char c \<in> {39, 96 :: nat}"

fun canonical_from :: "bool \<Rightarrow> string \<Rightarrow> string" where
  "canonical_from up [] = []"
| "canonical_from up (c # s) =
     (if up then upper_char c else lower_char c) # canonical_from (c = CHR ''-'') s"

definition CanonicalMIMEHeaderKey :: "string \<Rightarrow> string" where
  "CanonicalMIMEHeaderKey k = (if list_all is_token_char k then canonical_from True k else k)"

definition Header_Get :: "header \<Rightarrow> string \<Rightarrow> string" where
  "Header_Get h k =
     (case h (CanonicalMIMEHeaderKey k) of Some (v # vs) \<Rightarrow> v | _ \<Rightarrow> [])"

definition Header_Set :: "header \<Rightarrow> string \<Rightarrow> string \<Rightarrow> header" where
  "Header_Set h k v = h(CanonicalMIMEHeaderKey k \<mapsto> [v])"

definition Header_Del :: "header \<Rightarrow> string \<Rightarrow> header" where
  "Header_Del h k = h(CanonicalMIMEHeaderKey k := None)"

subsection \<open>The response writer\<close>

text \<open>
  \<open>rw_header\<close> is the map the handlers edit, \<open>rw_sent\<close> the status and headers committed by
  the first \<open>WriteHeader\<close>, \<open>rw_body\<close> the bytes written so far.
\<close>

record response_writer =
  rw_header :: header
  rw_sent :: "(nat \<times> header) option"
  rw_body :: bytes

definition new_writer :: response_writer where
  "new_writer = \<lparr>rw_header = Map.empty, rw_sent = None, rw_body = []\<rparr>"

definition SetHeader :: "string \<Rightarrow> string \<Rightarrow> response_writer \<Rightarrow> response_writer" where
  "SetHeader k v rw = rw\<lparr>rw_header := Header_Set (rw_header rw) k v\<rparr>"

definition WriteHeader :: "nat \<Rightarrow> response_writer \<Rightarrow> response_writer" where
  "WriteHeader code rw =
     (case rw_sent rw of None \<Rightarrow> rw\<lparr>rw_sent := Some (code, rw_header rw)\<rparr> | Some _ \<Rightarrow> rw)"

definition Write :: "bytes \<Rightarrow> response_writer \<Rightarrow> response_writer" where
  "Write bs rw = (let rw' = WriteHeader 200 rw in rw'\<lparr>rw_body := rw_body rw' @ bs\<rparr>)"

definition http_Error :: "string \<Rightarrow> nat \<Rightarrow> response_writer \<Rightarrow> response_writer" where
  "http_Error msg code rw =
     Write (msg @ [CHR 0x0A])
       (WriteHeader code
         (SetHeader ''X-Content-Type-Options'' ''nosniff''
           (SetHeader ''Content-Type'' ''text/plain; charset=utf-8''
             (rw\<lparr>rw_header := Header_Del (rw_header rw) ''Content-Length''\<rparr>))))"

definition rw_status :: "response_writer \<Rightarrow> nat" where
  "rw_status rw = (case rw_sent rw of None \<Rightarrow> 200 | Some (code, h) \<Rightarrow> code)"

subsection \<open>Requests, handlers, middleware\<close>

text \<open>
  A body is the bytes the peer sends and the error that ends the stream (\<open>None\<close> for
  \<open>io.EOF\<close>). \<open>'c\<close> is the request context, whose values the service's middleware defines.
\<close>

datatype body = Body bytes "go_error option"

record 'c http_request =
  rq_method :: string
  rq_path :: string
  rq_header :: header
  rq_body :: body
  rq_urlparam :: "string \<Rightarrow> string"
  rq_ctx :: 'c

type_synonym ('w, 'c) handler = "response_writer \<Rightarrow> 'c http_request \<Rightarrow> ('w, response_writer) state"
type_synonym ('w, 'c) middleware = "('w, 'c) handler \<Rightarrow> ('w, 'c) handler"

definition MaxBytesReader :: "body \<Rightarrow> nat \<Rightarrow> body" where
  "MaxBytesReader b n =
     (case b of Body bs e \<Rightarrow> if length bs > n then Body (take n bs) (Some MaxBytesError) else Body bs e)"

definition ReadAll :: "body \<Rightarrow> bytes \<times> go_error option" where
  "ReadAll b = (case b of Body bs e \<Rightarrow> (bs, e))"

text \<open>
  \<open>json.NewDecoder(r).Decode\<close> reads the first value of the stream and ignores what follows
  it; a stream that ends inside a value reports the error that ended it.
\<close>

definition io_EOF :: go_error where
  "io_EOF = ErrorString ''EOF''"

definition io_ErrUnexpectedEOF :: go_error where
  "io_ErrUnexpectedEOF = ErrorString ''unexpected EOF''"

definition json_syntax_error :: go_error where
  "json_syntax_error = ErrorString ''invalid character in JSON input''"

definition Decode :: "body \<Rightarrow> json result" where
  "Decode b =
     (case b of Body bs e \<Rightarrow>
        (case parse_prefix bs of
           Done j r \<Rightarrow> Inr j
         | Bad \<Rightarrow> Inl json_syntax_error
         | More \<Rightarrow> (case e of Some err \<Rightarrow> Inl err
                    | None \<Rightarrow> Inl (if skip_ws bs = [] then io_EOF else io_ErrUnexpectedEOF))))"

definition Unmarshal :: "bytes \<Rightarrow> json result" where
  "Unmarshal bs = (case json_parse bs of Some j \<Rightarrow> Inr j | None \<Rightarrow> Inl json_syntax_error)"

subsection \<open>Decoding into structs\<close>

text \<open>
  A struct is filled member by member: a member name selects the field with exactly that JSON name,
  else the one equal to it under case folding; unknown members are skipped, later members win, and
  \<open>null\<close> leaves a field as it is. The folding maps ASCII letters to lower case and the two
  non-ASCII letters that fold to ASCII ones (long s, Kelvin sign).
\<close>

function foldName :: "string \<Rightarrow> string" where
  "foldName [] = []"
| "foldName (c # s) =
     (if take 2 (c # s) = [CHR 0xC5, CHR 0xBF] then CHR ''s'' # foldName (drop 1 s)
      else if take 3 (c # s) = [CHR 0xE2, CHR 0x84, CHR 0xAA] then CHR ''k'' # foldName (drop 2 s)
      else lower_char c # foldName s)"
  by pat_completeness auto
termination
  by (relation "measure length") auto

definition json_type_error :: go_error where
  "json_type_error = ErrorString ''json: cannot unmarshal value into Go value''"

definition select_field :: "string list \<Rightarrow> string \<Rightarrow> string option" where
  "select_field names k =
     (if k \<in> set names then Some k else find (\<lambda>n. foldName n = foldName k) names)"

fun decode_members ::
  "string list \<Rightarrow> (string \<Rightarrow> json \<Rightarrow> 's \<Rightarrow> 's result) \<Rightarrow> (string \<times> json) list \<Rightarrow> 's \<Rightarrow> 's result" where
  "decode_members names setf [] s = Inr s"
| "decode_members names setf ((k, v) # kvs) s =
     (case select_field names k of
        None \<Rightarrow> decode_members names setf kvs s
      | Some n \<Rightarrow> (case setf n v s of Inl e \<Rightarrow> Inl e | Inr s' \<Rightarrow> decode_members names setf kvs s'))"

definition decode_struct ::
  "string list \<Rightarrow> (string \<Rightarrow> json \<Rightarrow> 's \<Rightarrow> 's result) \<Rightarrow> json \<Rightarrow> 's \<Rightarrow> 's result" where
  "decode_struct names setf j s =
     (case j of JNull \<Rightarrow> Inr s | JObj kvs \<Rightarrow> decode_members names setf kvs s | _ \<Rightarrow> Inl json_type_error)"

definition dec_int64 :: "json \<Rightarrow> int64 \<Rightarrow> int64 result" where
  "dec_int64 j old =
     (case j of JNull \<Rightarrow> Inr old
      | JNum s \<Rightarrow> (case ParseInt s of Some i \<Rightarrow> Inr i | None \<Rightarrow> Inl json_type_error)
      | _ \<Rightarrow> Inl json_type_error)"

definition dec_int32 :: "json \<Rightarrow> int32 \<Rightarrow> int32 result" where
  "dec_int32 j old =
     (case j of JNull \<Rightarrow> Inr old
      | JNum s \<Rightarrow> (case ParseInt s of
            Some i \<Rightarrow> if - (2 ^ 31) \<le> sint i \<and> sint i < 2 ^ 31 then Inr (word_of_int (sint i))
                      else Inl json_type_error
          | None \<Rightarrow> Inl json_type_error)
      | _ \<Rightarrow> Inl json_type_error)"

definition dec_bool :: "json \<Rightarrow> bool \<Rightarrow> bool result" where
  "dec_bool j old = (case j of JNull \<Rightarrow> Inr old | JBool b \<Rightarrow> Inr b | _ \<Rightarrow> Inl json_type_error)"

definition dec_string :: "json \<Rightarrow> string \<Rightarrow> string result" where
  "dec_string j old = (case j of JNull \<Rightarrow> Inr old | JStr s \<Rightarrow> Inr s | _ \<Rightarrow> Inl json_type_error)"

subsection \<open>Instants\<close>

definition second :: int where
  "second = 1000000000"

text \<open>Nanoseconds from Go's zero time (1 January of year 1) to the Unix epoch.\<close>

definition unixToInternal :: int where
  "unixToInternal = 62135596800 * second"

definition time_Truncate :: "time \<Rightarrow> duration \<Rightarrow> time" where
  "time_Truncate t d = (if d \<le> 0 then t else t - (t + unixToInternal) mod d)"

definition time_Unix :: "time \<Rightarrow> int" where
  "time_Unix t = t div second"

text \<open>
  \<open>d.Seconds()\<close> adds the whole seconds and the fraction as floats; \<open>int(...)\<close> truncates. A
  duration has fewer than \<open>2 ^ 34\<close> seconds, so the conversion to \<open>int64\<close> is never out of range.
\<close>

definition duration_Seconds :: "duration \<Rightarrow> float64" where
  "duration_Seconds d =
     f64_add (f64_of_int (d sdiv second)) (f64_of_ratio (d smod second < 0) (nat \<bar>d smod second\<bar>) (10 ^ 9))"

definition int_Seconds :: "duration \<Rightarrow> int64" where
  "int_Seconds d = f64_to_int64 (\<lambda>_. 0) (duration_Seconds d)"

section \<open>Package response\<close>

text \<open>
  \<open>RespondWithJSON\<close>: \<open>None\<close> is a payload \<open>json.Marshal\<close> rejects (an infinite or
  NaN float).
\<close>

definition RespondWithJSON :: "response_writer \<Rightarrow> nat \<Rightarrow> json option \<Rightarrow> response_writer" where
  "RespondWithJSON w code payload =
     (case payload of
        None \<Rightarrow> http_Error ''Internal Server Error'' 500 w
      | Some j \<Rightarrow> Write (json_print j) (WriteHeader code (SetHeader ''Content-Type'' ''application/json'' w)))"

definition RespondWithError :: "response_writer \<Rightarrow> nat \<Rightarrow> string \<Rightarrow> response_writer" where
  "RespondWithError w code message = RespondWithJSON w code (Some (JObj [(''error'', JStr message)]))"

section \<open>Facts\<close>

lemma Header_Get_Set: "Header_Get (Header_Set h k v) k = v"
  by (simp add: Header_Get_def Header_Set_def)

lemma WriteHeader_keeps_status: "rw_sent rw = Some x \<Longrightarrow> rw_sent (WriteHeader code rw) = Some x"
  by (simp add: WriteHeader_def)

lemma writer_simps [simp]:
  "rw_sent (SetHeader k v rw) = rw_sent rw"
  "rw_body (SetHeader k v rw) = rw_body rw"
  "rw_header (SetHeader k v rw) = Header_Set (rw_header rw) k v"
  "rw_body (WriteHeader c rw) = rw_body rw"
  "rw_header (WriteHeader c rw) = rw_header rw"
  "rw_header (Write bs rw) = rw_header rw"
  "rw_body (Write bs rw) = rw_body rw @ bs"
  by (simp_all add: SetHeader_def WriteHeader_def Write_def Let_def split: option.splits)

lemma rw_sent_WriteHeader: "rw_sent (WriteHeader c rw) = (case rw_sent rw of None \<Rightarrow> Some (c, rw_header rw) | Some x \<Rightarrow> Some x)"
  by (simp add: WriteHeader_def split: option.splits)

lemma rw_sent_Write: "rw_sent (Write bs rw) = rw_sent (WriteHeader 200 rw)"
  by (simp add: Write_def Let_def)

text \<open>The first answer fixes the status; an answer already committed is not changed by a later one.\<close>

lemma status_RespondWithJSON:
  "rw_sent w = None \<Longrightarrow> rw_status (RespondWithJSON w code (Some j)) = code"
  by (simp add: RespondWithJSON_def rw_status_def rw_sent_Write rw_sent_WriteHeader split: option.splits)

lemma status_RespondWithError [simp]:
  "rw_sent w = None \<Longrightarrow> rw_status (RespondWithError w code msg) = code"
  by (simp add: RespondWithError_def status_RespondWithJSON)

lemma rw_sent_new_writer [simp]: "rw_sent new_writer = None"
  by (simp add: new_writer_def)

lemma status_WriteHeader [simp]: "rw_sent w = None \<Longrightarrow> rw_status (WriteHeader code w) = code"
  by (simp add: rw_status_def rw_sent_WriteHeader)

lemma status_RespondWithJSON_committed:
  "rw_sent w = Some (c, h) \<Longrightarrow> rw_status (RespondWithJSON w code p) = c"
  by (simp add: RespondWithJSON_def http_Error_def rw_status_def rw_sent_Write rw_sent_WriteHeader split: option.splits)

lemma MaxBytesReader_too_long:
  "ReadAll (MaxBytesReader (Body bs e) n) = (if length bs > n then (take n bs, Some MaxBytesError) else (bs, e))"
  by (simp add: MaxBytesReader_def ReadAll_def)

lemma truncate_window:
  assumes "0 < d"
  shows "time_Truncate t d \<le> t" "t < time_Truncate t d + d"
    and "time_Truncate (time_Truncate t d) d = time_Truncate t d"
proof -
  have m: "0 \<le> (t + unixToInternal) mod d" "(t + unixToInternal) mod d < d"
    using assms by simp_all
  then show "time_Truncate t d \<le> t" "t < time_Truncate t d + d"
    using assms by (simp_all add: time_Truncate_def)
  have "(t - (t + unixToInternal) mod d + unixToInternal) mod d = 0"
    by (simp add: algebra_simps flip: mod_diff_eq)
  then show "time_Truncate (time_Truncate t d) d = time_Truncate t d"
    using assms by (simp add: time_Truncate_def)
qed

lemma truncate_same_window:
  assumes "0 < d" "time_Truncate s d \<le> t" "t < time_Truncate s d + d"
  shows "time_Truncate t d = time_Truncate s d"
proof -
  let ?m = "\<lambda>x. (x + unixToInternal) mod d" and ?q = "\<lambda>x. (x + unixToInternal) div d"
  have "d * ?q s = s + unixToInternal - ?m s" by (simp add: minus_mod_eq_mult_div)
  then have "d * ?q s \<le> t + unixToInternal" "t + unixToInternal < d * ?q s + d"
    using assms by (auto simp: time_Truncate_def split: if_splits)
  then have "?q t = ?q s"
    using assms(1) by (intro int_div_pos_eq [where r = "t + unixToInternal - d * ?q s"]) auto
  then have "d * ?q t = d * ?q s" by simp
  then show ?thesis
    using assms(1) by (simp add: time_Truncate_def minus_mod_eq_mult_div [symmetric] algebra_simps)
qed

lemma dec_int64_FormatInt: "dec_int64 (JNum (FormatInt (i :: int64))) old = Inr i"
  by (simp add: dec_int64_def ParseInt_FormatInt)

lemma sint32_range: "- (2 ^ 31) \<le> sint (w :: int32)" "sint (w :: int32) < 2 ^ 31"
  using sint_range_size [of w] by (simp_all add: word_size)

lemma dec_int32_FormatInt: "dec_int32 (JNum (FormatInt (r :: int32))) old = Inr r"
proof -
  have "ParseInt (FormatInt r) = Some (word_of_int (sint r))"
    using sint32_range [of r] by (simp add: FormatInt_def ParseInt_fmt_int)
  moreover have "sint (word_of_int (sint r) :: int64) = sint r"
    by (simp add: sint_up_scast is_up)
  ultimately show ?thesis
    using sint32_range [of r] by (simp add: dec_int32_def)
qed

lemma dec_bool_JBool [simp]: "dec_bool (JBool b) old = Inr b"
  by (simp add: dec_bool_def)

subsection \<open>Durations in seconds\<close>

lemma round_units_0 [simp]: "0 < q \<Longrightarrow> round_units 0 q = 0"
  by (simp add: round_units_def round_half_even_def Let_def)

lemma f64_add_zero:
  assumes "0 \<le> k" "k \<le> 2 ^ 53"
  shows "f64_add (f64_of_int k) (Fin False 0) = f64_of_int k"
proof -
  define a where "a = nat \<bar>k\<bar> * 2 ^ unit_exp"
  have k: "\<bar>k\<bar> \<le> 2 ^ 53" "\<not> k < 0" using assms by auto
  have le: "nat \<bar>k\<bar> \<le> 2 ^ 53" using k by (simp add: nat_le_iff)
  have ex: "f64_of_int k = Fin False a" using f64_of_int_exact [OF k(1)] by (simp only: k(2) a_def)
  have r: "round_units a 1 = a" unfolding a_def by (rule round_units_exact [OF ulp_exp_dvd [OF le]])
  have "a < 2 ^ (1024 + unit_exp)" unfolding a_def
    by (rule scale_less) (rule order.strict_trans1 [OF le], simp)
  then have m: "mk_float False a = Fin False a" by (simp only: mk_float_def not_le [symmetric] if_False)
  have z: "int a + int 0 = int a" "\<not> int a < 0" "nat \<bar>int a\<bar> = a" by simp_all
  show ?thesis
    unfolding ex f64_add_def prod.case float64.case Let_def signed_units_def if_False z(1)
    by (simp only: z r m if_False simp_thms if_cancel)
qed

lemma int_Seconds_whole:
  assumes "0 \<le> k" "k \<le> 2 ^ 53"
  shows "int_Seconds (k * second) = word_of_int k"
proof -
  have s: "k * second sdiv second = k" "k * second smod second = 0"
    using assms by (auto simp: signed_divide_int_def signed_modulo_int_def second_def sgn_if)
  have "f64_of_ratio (0 < (0::int)) (nat \<bar>0::int\<bar>) (10 ^ 9) = Fin False 0"
    by (simp add: f64_of_ratio_def mk_float_def)
  then have "duration_Seconds (k * second) = f64_add (f64_of_int k) (Fin False 0)"
    unfolding duration_Seconds_def s by simp
  also have "\<dots> = f64_of_int k" using assms by (rule f64_add_zero)
  finally show ?thesis
    using assms by (simp add: int_Seconds_def int64_of_f64_of_int)
qed

text \<open>Less than a second counts as zero seconds.\<close>

lemma round_units_fraction:
  assumes "d < 10 ^ 9"
  shows "round_units (d * 2 ^ unit_exp) (10 ^ 9) + 2 ^ 1044 \<le> 2 ^ unit_exp + 2 ^ 1020"
proof -
  define b :: nat where "b = 2 ^ 1020"
  define p where "p = d * 2 ^ unit_exp"
  define r where "r = round_units p (10 ^ 9)"
  define Q :: nat where "Q = 2 ^ ulp_exp (p div 10 ^ 9)"
  have u: "(2::nat) ^ unit_exp = 2 ^ 54 * b" and u': "(2::nat) ^ 1044 = 2 ^ 24 * b" "(2::nat) ^ 1021 = 2 * b"
    by (simp_all only: b_def flip: power_add power_Suc) simp_all
  have "(d + 1) * 2 ^ unit_exp \<le> 10 ^ 9 * 2 ^ unit_exp" using assms by (intro mult_right_mono) simp_all
  then have pb: "p + 2 ^ 54 * b \<le> 10 ^ 9 * (2 ^ 54 * b)" unfolding p_def u by (simp add: algebra_simps)
  have "p div 10 ^ 9 \<le> 2 ^ 54 * b"
  proof -
    have "p div 10 ^ 9 \<le> (10 ^ 9 * (2 ^ 54 * b)) div 10 ^ 9" using pb by (intro div_le_mono) simp
    then show ?thesis by simp
  qed
  then have "p div 10 ^ 9 < 2 ^ (53 + 1022)"
  proof -
    have "(2::nat) ^ (53 + 1022) = 2 ^ 55 * b" by (simp only: b_def flip: power_add) simp
    moreover have "0 < b" by (simp add: b_def)
    ultimately show ?thesis using \<open>p div 10 ^ 9 \<le> 2 ^ 54 * b\<close> by simp
  qed
  from ulp_exp_le [OF this] have "Q \<le> 2 ^ 1022" unfolding Q_def by (intro power_increasing) simp_all
  then have Q: "Q \<le> 4 * b" by (simp only: b_def flip: power_add power_Suc) simp
  have "2 * (r * 10 ^ 9) \<le> 2 * p + 10 ^ 9 * Q"
  proof -
    have "0 < 10 ^ 9 * Q" by (simp add: Q_def)
    from round_half_even_error(1) [OF this, of p] show ?thesis
      unfolding r_def round_units_def Let_def Q_def [symmetric] by (simp only: ac_simps)
  qed
  with Q pb have "r + 2 ^ 24 * b \<le> 2 ^ 54 * b + b" by simp
  then show ?thesis unfolding r_def p_def u u' b_def [symmetric] by simp
qed

lemma int_Seconds_subsecond:
  assumes "0 \<le> d" "d < second"
  shows "int_Seconds d = 0"
proof -
  define b :: nat where "b = 2 ^ 1020"
  have b: "0 < b" by (simp add: b_def)
  have u: "(2::nat) ^ unit_exp = 2 ^ 54 * b" "(2::nat) ^ 1044 = 2 ^ 24 * b" "(2::nat) ^ 1021 = 2 * b"
      "(2::nat) ^ (53 + 1021) = 2 ^ 54 * b"
    by (simp_all only: b_def flip: power_add power_Suc) simp_all
  define r where "r = round_units (nat d * 2 ^ unit_exp) (10 ^ 9)"
  define r' where "r' = round_units r 1"
  have "r + 2 ^ 24 * b \<le> 2 ^ 54 * b + b"
    using round_units_fraction [of "nat d"] assms
    unfolding r_def u b_def [symmetric] by (simp add: second_def nat_less_iff)
  with b have r: "r + 2 * b < 2 ^ 54 * b" by simp
  then have "r < 2 ^ (53 + 1021)" unfolding u by simp
  from round_units_bounds(1) [OF this] have "2 * r' \<le> 2 * r + 2 * b" unfolding u r'_def .
  with r have r': "r' < 2 ^ unit_exp" unfolding u by simp
  have big: "(2::nat) ^ unit_exp \<le> 2 ^ (1024 + unit_exp)" by (rule power_increasing) simp_all
  have r_lt: "r < 2 ^ unit_exp" using r unfolding u by simp
  have sm: "d sdiv second = 0" "d smod second = d"
    using assms by (simp_all add: signed_divide_int_def signed_modulo_int_def second_def sgn_if)
  have nd: "\<not> d < 0" "nat \<bar>d\<bar> = nat d" using assms by auto
  have "f64_of_int 0 = Fin False 0" using f64_of_int_exact [of 0] by simp
  moreover have "f64_of_ratio (d < 0) (nat \<bar>d\<bar>) (10 ^ 9) = Fin False r"
    unfolding f64_of_ratio_def nd r_def [symmetric] mk_float_def using r_lt big nd(1) by simp
  moreover have "f64_add (Fin False 0) (Fin False r) = Fin False r'"
  proof -
    have z: "signed_units False 0 + signed_units False r = int r" "nat \<bar>int r\<bar> = r" "\<not> int r < 0"
      by (simp_all add: signed_units_def)
    have "\<not> 2 ^ (1024 + unit_exp) \<le> r'" using r' big by simp
    then show ?thesis
      unfolding f64_add_def prod.case float64.case Let_def z(1,2) r'_def [symmetric] mk_float_def
      using z(3) by simp
  qed
  ultimately have "duration_Seconds d = Fin False r'" unfolding duration_Seconds_def sm by simp
  moreover have "r' div 2 ^ unit_exp = 0" using r' by (rule div_less)
  ultimately show ?thesis
    unfolding int_Seconds_def f64_to_int64_def by (simp only: float64.case signed_units_def) simp
qed

end
