(* ===== verification/Db.thy ===== *)
theory Db
  imports Go_Http
begin

text \<open>
  Package \<open>internal/db\<close>: the row and parameter structs, the SQL texts, the query methods of
  \<open>Queries\<close> over a \<open>DBTX\<close> handle, and the \<open>Querier\<close> interface they implement. A
  \<open>DBTX\<close> (\<open>*sql.DB\<close> in production) is an argument: a record of actions that take the SQL
  text and the argument list, as in \<open>db.go\<close>. What PostgreSQL answers is stated as a contract in
  \<open>World\<close>.

  Facts: every query method returns the decoded row when the driver delivers one of the declared
  column types and otherwise the driver's or the scanner's error (\<open>scan\<close> lemmas).
\<close>

section \<open>Values, scanning\<close>

datatype sqlval =
    VNull
  | VInt int
  | VText string
  | VBytes bytes
  | VBool bool
  | VTime time
  | VJson bytes

definition scan_error :: go_error where
  "scan_error = ErrorString ''sql: Scan error: unsupported conversion''"

definition scan_count_error :: go_error where
  "scan_count_error = ErrorString ''sql: expected destination arguments in Scan''"

definition bindR :: "'a result \<Rightarrow> ('a \<Rightarrow> 'b result) \<Rightarrow> 'b result" where
  "bindR r k = (case r of Inl e \<Rightarrow> Inl e | Inr a \<Rightarrow> k a)"

lemma bindR_simps [simp]: "bindR (Inl e) k = Inl e" "bindR (Inr a) k = k a"
  by (simp_all add: bindR_def)

definition scan_int64 :: "sqlval \<Rightarrow> int64 result" where
  "scan_int64 v = (case v of VInt i \<Rightarrow> if - (2 ^ 63) \<le> i \<and> i < 2 ^ 63 then Inr (word_of_int i) else Inl scan_error
                   | _ \<Rightarrow> Inl scan_error)"

definition scan_int32 :: "sqlval \<Rightarrow> int32 result" where
  "scan_int32 v = (case v of VInt i \<Rightarrow> if - (2 ^ 31) \<le> i \<and> i < 2 ^ 31 then Inr (word_of_int i) else Inl scan_error
                   | _ \<Rightarrow> Inl scan_error)"

definition scan_text :: "sqlval \<Rightarrow> string result" where
  "scan_text v = (case v of VText s \<Rightarrow> Inr s | _ \<Rightarrow> Inl scan_error)"

definition scan_NullString :: "sqlval \<Rightarrow> string option result" where
  "scan_NullString v = (case v of VNull \<Rightarrow> Inr None | VText s \<Rightarrow> Inr (Some s) | _ \<Rightarrow> Inl scan_error)"

definition scan_bytes :: "sqlval \<Rightarrow> bytes result" where
  "scan_bytes v = (case v of VNull \<Rightarrow> Inr [] | VBytes b \<Rightarrow> Inr b | _ \<Rightarrow> Inl scan_error)"

definition scan_bool :: "sqlval \<Rightarrow> bool result" where
  "scan_bool v = (case v of VBool b \<Rightarrow> Inr b | _ \<Rightarrow> Inl scan_error)"

definition scan_time :: "sqlval \<Rightarrow> time result" where
  "scan_time v = (case v of VTime t \<Rightarrow> Inr t | _ \<Rightarrow> Inl scan_error)"

definition scan_NullTime :: "sqlval \<Rightarrow> time option result" where
  "scan_NullTime v = (case v of VNull \<Rightarrow> Inr None | VTime t \<Rightarrow> Inr (Some t) | _ \<Rightarrow> Inl scan_error)"

definition nullable :: "('a \<Rightarrow> sqlval) \<Rightarrow> 'a option \<Rightarrow> sqlval" where
  "nullable f x = (case x of None \<Rightarrow> VNull | Some a \<Rightarrow> f a)"

section \<open>db.go: the connection handle\<close>

text \<open>\<open>rows\<close>: the delivered rows, the error of \<open>rows.Close()\<close> and of \<open>rows.Err()\<close>.\<close>

record rows =
  rows_data :: "sqlval list list"
  rows_close :: "go_error option"
  rows_err :: "go_error option"

record 'w DBTX =
  ExecContext :: "string \<Rightarrow> sqlval list \<Rightarrow> ('w, unit result) state"
  QueryContext :: "string \<Rightarrow> sqlval list \<Rightarrow> ('w, rows result) state"
  QueryRowContext :: "string \<Rightarrow> sqlval list \<Rightarrow> ('w, sqlval list result) state"

text \<open>The loop \<open>for rows.Next() { rows.Scan(...) }\<close> and the checks after it.\<close>

fun scan_loop :: "(sqlval list \<Rightarrow> 'a result) \<Rightarrow> sqlval list list \<Rightarrow> 'a list \<Rightarrow> 'a list result" where
  "scan_loop scan [] items = Inr items"
| "scan_loop scan (r # rs) items =
     (case scan r of Inl e \<Rightarrow> Inl e | Inr i \<Rightarrow> scan_loop scan rs (items @ [i]))"

definition collect_rows :: "(sqlval list \<Rightarrow> 'a result) \<Rightarrow> rows \<Rightarrow> 'a list result" where
  "collect_rows scan rs =
     bindR (scan_loop scan (rows_data rs) []) (\<lambda>items.
       case rows_close rs of Some e \<Rightarrow> Inl e
       | None \<Rightarrow> (case rows_err rs of Some e \<Rightarrow> Inl e | None \<Rightarrow> Inr items))"

section \<open>models.go\<close>

record ApiKey =
  k_ID :: int64
  k_UserID :: int64
  k_KeyHash :: bytes
  k_Label :: "string option"
  k_Active :: bool
  k_RateRpm :: int32
  k_LastUsedAt :: "time option"
  k_CreatedAt :: time

record InferenceLog =
  l_ID :: int64
  l_UserID :: int64
  l_ApiKeyID :: "int64 option"
  l_RequestPayload :: "bytes option"
  l_ResponsePayload :: "bytes option"
  l_Error :: "string option"
  l_RequestTime :: time
  l_ResponseTime :: time
  l_CreatedAt :: time

record User =
  u_ID :: int64
  u_Email :: string
  u_PasswordHash :: string
  u_Plan :: string
  u_CreatedAt :: time
  u_UpdatedAt :: time
  u_Name :: string

section \<open>apikeys.sql.go\<close>

definition createAPIKey :: string where
  "createAPIKey = ''-- name: CreateAPIKey :one\<newline>INSERT INTO api_keys (user_id, key_hash, label, rate_rpm)\<newline>VALUES ($1, $2, $3, $4)\<newline>RETURNING id, user_id, label, active, rate_rpm, created_at\<newline>''"

record CreateAPIKeyParams =
  cp_UserID :: int64
  cp_KeyHash :: bytes
  cp_Label :: "string option"
  cp_RateRpm :: int32

record CreateAPIKeyRow =
  cr_ID :: int64
  cr_UserID :: int64
  cr_Label :: "string option"
  cr_Active :: bool
  cr_RateRpm :: int32
  cr_CreatedAt :: time

definition scan_CreateAPIKeyRow :: "sqlval list \<Rightarrow> CreateAPIKeyRow result" where
  "scan_CreateAPIKeyRow vs =
     (case vs of [c1, c2, c3, c4, c5, c6] \<Rightarrow>
        bindR (scan_int64 c1) (\<lambda>i. bindR (scan_int64 c2) (\<lambda>u. bindR (scan_NullString c3) (\<lambda>l.
        bindR (scan_bool c4) (\<lambda>a. bindR (scan_int32 c5) (\<lambda>r. bindR (scan_time c6) (\<lambda>t.
          Inr \<lparr>cr_ID = i, cr_UserID = u, cr_Label = l, cr_Active = a, cr_RateRpm = r, cr_CreatedAt = t\<rparr>))))))
      | _ \<Rightarrow> Inl scan_count_error)"

definition Queries_CreateAPIKey ::
  "'w DBTX \<Rightarrow> CreateAPIKeyParams \<Rightarrow> ('w, CreateAPIKeyRow result) state" where
  "Queries_CreateAPIKey db arg = do {
     row \<leftarrow> QueryRowContext db createAPIKey
       [VInt (sint (cp_UserID arg)), VBytes (cp_KeyHash arg), nullable VText (cp_Label arg),
        VInt (sint (cp_RateRpm arg))];
     go_return (bindR row scan_CreateAPIKeyRow)
   }"

definition deleteAPIKey :: string where
  "deleteAPIKey = ''-- name: DeleteAPIKey :exec\<newline>DELETE FROM api_keys WHERE user_id = $1 AND id = $2\<newline>''"

record DeleteAPIKeyParams =
  dp_UserID :: int64
  dp_ID :: int64

definition Queries_DeleteAPIKey :: "'w DBTX \<Rightarrow> DeleteAPIKeyParams \<Rightarrow> ('w, unit result) state" where
  "Queries_DeleteAPIKey db arg =
     ExecContext db deleteAPIKey [VInt (sint (dp_UserID arg)), VInt (sint (dp_ID arg))]"

definition getAPIKeyByHash :: string where
  "getAPIKeyByHash = ''-- name: GetAPIKeyByHash :one\<newline>SELECT id, user_id, key_hash, active, rate_rpm FROM api_keys WHERE key_hash = $1\<newline>''"

record GetAPIKeyByHashRow =
  gr_ID :: int64
  gr_UserID :: int64
  gr_KeyHash :: bytes
  gr_Active :: bool
  gr_RateRpm :: int32

definition scan_GetAPIKeyByHashRow :: "sqlval list \<Rightarrow> GetAPIKeyByHashRow result" where
  "scan_GetAPIKeyByHashRow vs =
     (case vs of [c1, c2, c3, c4, c5] \<Rightarrow>
        bindR (scan_int64 c1) (\<lambda>i. bindR (scan_int64 c2) (\<lambda>u. bindR (scan_bytes c3) (\<lambda>h.
        bindR (scan_bool c4) (\<lambda>a. bindR (scan_int32 c5) (\<lambda>r.
          Inr \<lparr>gr_ID = i, gr_UserID = u, gr_KeyHash = h, gr_Active = a, gr_RateRpm = r\<rparr>)))))
      | _ \<Rightarrow> Inl scan_count_error)"

definition Queries_GetAPIKeyByHash :: "'w DBTX \<Rightarrow> bytes \<Rightarrow> ('w, GetAPIKeyByHashRow result) state" where
  "Queries_GetAPIKeyByHash db keyHash = do {
     row \<leftarrow> QueryRowContext db getAPIKeyByHash [VBytes keyHash];
     go_return (bindR row scan_GetAPIKeyByHashRow)
   }"

definition listAPIKeysByUser :: string where
  "listAPIKeysByUser = ''-- name: ListAPIKeysByUser :many\<newline>SELECT id, label, key_hash, active, rate_rpm, last_used_at, created_at FROM api_keys WHERE user_id = $1 AND active = TRUE\<newline>''"

record ListAPIKeysByUserRow =
  lr_ID :: int64
  lr_Label :: "string option"
  lr_KeyHash :: bytes
  lr_Active :: bool
  lr_RateRpm :: int32
  lr_LastUsedAt :: "time option"
  lr_CreatedAt :: time

definition scan_ListAPIKeysByUserRow :: "sqlval list \<Rightarrow> ListAPIKeysByUserRow result" where
  "scan_ListAPIKeysByUserRow vs =
     (case vs of [c1, c2, c3, c4, c5, c6, c7] \<Rightarrow>
        bindR (scan_int64 c1) (\<lambda>i. bindR (scan_NullString c2) (\<lambda>l. bindR (scan_bytes c3) (\<lambda>h.
        bindR (scan_bool c4) (\<lambda>a. bindR (scan_int32 c5) (\<lambda>r. bindR (scan_NullTime c6) (\<lambda>t. bindR (scan_time c7) (\<lambda>c.
          Inr \<lparr>lr_ID = i, lr_Label = l, lr_KeyHash = h, lr_Active = a, lr_RateRpm = r, lr_LastUsedAt = t,
               lr_CreatedAt = c\<rparr>)))))))
      | _ \<Rightarrow> Inl scan_count_error)"

definition Queries_ListAPIKeysByUser :: "'w DBTX \<Rightarrow> int64 \<Rightarrow> ('w, ListAPIKeysByUserRow list result) state" where
  "Queries_ListAPIKeysByUser db userID = do {
     rs \<leftarrow> QueryContext db listAPIKeysByUser [VInt (sint userID)];
     go_return (bindR rs (collect_rows scan_ListAPIKeysByUserRow))
   }"

definition updateAPIKeyLastUsed :: string where
  "updateAPIKeyLastUsed = ''-- name: UpdateAPIKeyLastUsed :exec\<newline>UPDATE api_keys SET last_used_at = NOW() WHERE id = $1\<newline>''"

definition Queries_UpdateAPIKeyLastUsed :: "'w DBTX \<Rightarrow> int64 \<Rightarrow> ('w, unit result) state" where
  "Queries_UpdateAPIKeyLastUsed db i = ExecContext db updateAPIKeyLastUsed [VInt (sint i)]"

section \<open>inference_logs.sql.go\<close>

definition createInferenceLog :: string where
  "createInferenceLog = ''-- name: CreateInferenceLog :exec\<newline>INSERT INTO inference_logs (\<newline>  user_id, api_key_id, request_payload, response_payload, error, request_time, response_time\<newline>) VALUES (\<newline>  $1, $2, $3, $4, $5, $6, $7\<newline>)\<newline>''"

text \<open>A nil \<open>json.RawMessage\<close> (\<open>None\<close>) is sent to the database as NULL.\<close>

record CreateInferenceLogParams =
  lp_UserID :: int64
  lp_ApiKeyID :: "int64 option"
  lp_RequestPayload :: "bytes option"
  lp_ResponsePayload :: "bytes option"
  lp_Error :: "string option"
  lp_RequestTime :: time
  lp_ResponseTime :: time

definition Queries_CreateInferenceLog :: "'w DBTX \<Rightarrow> CreateInferenceLogParams \<Rightarrow> ('w, unit result) state" where
  "Queries_CreateInferenceLog db arg =
     ExecContext db createInferenceLog
       [VInt (sint (lp_UserID arg)), nullable (\<lambda>i. VInt (sint i)) (lp_ApiKeyID arg),
        nullable VJson (lp_RequestPayload arg), nullable VJson (lp_ResponsePayload arg),
        nullable VText (lp_Error arg), VTime (lp_RequestTime arg), VTime (lp_ResponseTime arg)]"

section \<open>users.sql.go\<close>

definition createUser :: string where
  "createUser = ''-- name: CreateUser :one\<newline>INSERT INTO users (name, email, password_hash, plan) VALUES ($1, $2, $3, $4)\<newline>RETURNING id, name, email, plan, created_at, updated_at\<newline>''"

record CreateUserParams =
  up_Name :: string
  up_Email :: string
  up_PasswordHash :: string
  up_Plan :: string

text \<open>
  \<open>CreateUserRow\<close>, \<open>GetUserByEmailRow\<close> and \<open>GetUserByIDRow\<close> have the same fields in the
  same order; they share one record.
\<close>

record UserRow =
  ur_ID :: int64
  ur_Name :: string
  ur_Email :: string
  ur_Plan :: string
  ur_CreatedAt :: time
  ur_UpdatedAt :: time

type_synonym CreateUserRow = UserRow
type_synonym GetUserByEmailRow = UserRow
type_synonym GetUserByIDRow = UserRow

definition scan_UserRow :: "sqlval list \<Rightarrow> UserRow result" where
  "scan_UserRow vs =
     (case vs of [c1, c2, c3, c4, c5, c6] \<Rightarrow>
        bindR (scan_int64 c1) (\<lambda>i. bindR (scan_text c2) (\<lambda>n. bindR (scan_text c3) (\<lambda>e.
        bindR (scan_text c4) (\<lambda>p. bindR (scan_time c5) (\<lambda>c. bindR (scan_time c6) (\<lambda>u.
          Inr \<lparr>ur_ID = i, ur_Name = n, ur_Email = e, ur_Plan = p, ur_CreatedAt = c, ur_UpdatedAt = u\<rparr>))))))
      | _ \<Rightarrow> Inl scan_count_error)"

definition Queries_CreateUser :: "'w DBTX \<Rightarrow> CreateUserParams \<Rightarrow> ('w, CreateUserRow result) state" where
  "Queries_CreateUser db arg = do {
     row \<leftarrow> QueryRowContext db createUser
       [VText (up_Name arg), VText (up_Email arg), VText (up_PasswordHash arg), VText (up_Plan arg)];
     go_return (bindR row scan_UserRow)
   }"

definition getUserByEmail :: string where
  "getUserByEmail = ''-- name: GetUserByEmail :one\<newline>SELECT id, name, email, plan, created_at, updated_at\<newline>FROM users\<newline>WHERE email = $1\<newline>''"

definition Queries_GetUserByEmail :: "'w DBTX \<Rightarrow> string \<Rightarrow> ('w, GetUserByEmailRow result) state" where
  "Queries_GetUserByEmail db email = do {
     row \<leftarrow> QueryRowContext db getUserByEmail [VText email];
     go_return (bindR row scan_UserRow)
   }"

definition getUserByEmailForLogin :: string where
  "getUserByEmailForLogin = ''-- name: GetUserByEmailForLogin :one\<newline>SELECT id, name, email, password_hash, plan, created_at, updated_at\<newline>FROM users\<newline>WHERE email = $1\<newline>''"

record GetUserByEmailForLoginRow =
  ul_ID :: int64
  ul_Name :: string
  ul_Email :: string
  ul_PasswordHash :: string
  ul_Plan :: string
  ul_CreatedAt :: time
  ul_UpdatedAt :: time

definition scan_GetUserByEmailForLoginRow :: "sqlval list \<Rightarrow> GetUserByEmailForLoginRow result" where
  "scan_GetUserByEmailForLoginRow vs =
     (case vs of [c1, c2, c3, c4, c5, c6, c7] \<Rightarrow>
        bindR (scan_int64 c1) (\<lambda>i. bindR (scan_text c2) (\<lambda>n. bindR (scan_text c3) (\<lambda>e.
        bindR (scan_text c4) (\<lambda>h. bindR (scan_text c5) (\<lambda>p. bindR (scan_time c6) (\<lambda>c. bindR (scan_time c7) (\<lambda>u.
          Inr \<lparr>ul_ID = i, ul_Name = n, ul_Email = e, ul_PasswordHash = h, ul_Plan = p, ul_CreatedAt = c,
               ul_UpdatedAt = u\<rparr>)))))))
      | _ \<Rightarrow> Inl scan_count_error)"

definition Queries_GetUserByEmailForLogin ::
  "'w DBTX \<Rightarrow> string \<Rightarrow> ('w, GetUserByEmailForLoginRow result) state" where
  "Queries_GetUserByEmailForLogin db email = do {
     row \<leftarrow> QueryRowContext db getUserByEmailForLogin [VText email];
     go_return (bindR row scan_GetUserByEmailForLoginRow)
   }"

definition getUserByID :: string where
  "getUserByID = ''-- name: GetUserByID :one\<newline>\<newline>SELECT id, name, email, plan, created_at, updated_at\<newline>FROM users\<newline>WHERE id = $1\<newline>''"

definition Queries_GetUserByID :: "'w DBTX \<Rightarrow> int64 \<Rightarrow> ('w, GetUserByIDRow result) state" where
  "Queries_GetUserByID db i = do {
     row \<leftarrow> QueryRowContext db getUserByID [VInt (sint i)];
     go_return (bindR row scan_UserRow)
   }"

definition listUsersPaged :: string where
  "listUsersPaged = ''-- name: ListUsersPaged :many\<newline>SELECT id, email, plan, created_at FROM users\<newline>WHERE id > $1 ORDER BY id ASC LIMIT $2\<newline>''"

record ListUsersPagedParams =
  pg_ID :: int64
  pg_Limit :: int32

record ListUsersPagedRow =
  pr_ID :: int64
  pr_Email :: string
  pr_Plan :: string
  pr_CreatedAt :: time

definition scan_ListUsersPagedRow :: "sqlval list \<Rightarrow> ListUsersPagedRow result" where
  "scan_ListUsersPagedRow vs =
     (case vs of [c1, c2, c3, c4] \<Rightarrow>
        bindR (scan_int64 c1) (\<lambda>i. bindR (scan_text c2) (\<lambda>e. bindR (scan_text c3) (\<lambda>p. bindR (scan_time c4) (\<lambda>c.
          Inr \<lparr>pr_ID = i, pr_Email = e, pr_Plan = p, pr_CreatedAt = c\<rparr>))))
      | _ \<Rightarrow> Inl scan_count_error)"

definition Queries_ListUsersPaged ::
  "'w DBTX \<Rightarrow> ListUsersPagedParams \<Rightarrow> ('w, ListUsersPagedRow list result) state" where
  "Queries_ListUsersPaged db arg = do {
     rs \<leftarrow> QueryContext db listUsersPaged [VInt (sint (pg_ID arg)), VInt (sint (pg_Limit arg))];
     go_return (bindR rs (collect_rows scan_ListUsersPagedRow))
   }"

section \<open>querier.go\<close>

record 'w Querier =
  q_CreateAPIKey :: "CreateAPIKeyParams \<Rightarrow> ('w, CreateAPIKeyRow result) state"
  q_CreateInferenceLog :: "CreateInferenceLogParams \<Rightarrow> ('w, unit result) state"
  q_CreateUser :: "CreateUserParams \<Rightarrow> ('w, CreateUserRow result) state"
  q_DeleteAPIKey :: "DeleteAPIKeyParams \<Rightarrow> ('w, unit result) state"
  q_GetAPIKeyByHash :: "bytes \<Rightarrow> ('w, GetAPIKeyByHashRow result) state"
  q_GetUserByEmail :: "string \<Rightarrow> ('w, GetUserByEmailRow result) state"
  q_GetUserByEmailForLogin :: "string \<Rightarrow> ('w, GetUserByEmailForLoginRow result) state"
  q_GetUserByID :: "int64 \<Rightarrow> ('w, GetUserByIDRow result) state"
  q_ListAPIKeysByUser :: "int64 \<Rightarrow> ('w, ListAPIKeysByUserRow list result) state"
  q_ListUsersPaged :: "ListUsersPagedParams \<Rightarrow> ('w, ListUsersPagedRow list result) state"
  q_UpdateAPIKeyLastUsed :: "int64 \<Rightarrow> ('w, unit result) state"

text \<open>\<open>db.New\<close>: the query methods over a connection.\<close>

definition New :: "'w DBTX \<Rightarrow> 'w Querier" where
  "New db = \<lparr>
     q_CreateAPIKey = Queries_CreateAPIKey db,
     q_CreateInferenceLog = Queries_CreateInferenceLog db,
     q_CreateUser = Queries_CreateUser db,
     q_DeleteAPIKey = Queries_DeleteAPIKey db,
     q_GetAPIKeyByHash = Queries_GetAPIKeyByHash db,
     q_GetUserByEmail = Queries_GetUserByEmail db,
     q_GetUserByEmailForLogin = Queries_GetUserByEmailForLogin db,
     q_GetUserByID = Queries_GetUserByID db,
     q_ListAPIKeysByUser = Queries_ListAPIKeysByUser db,
     q_ListUsersPaged = Queries_ListUsersPaged db,
     q_UpdateAPIKeyLastUsed = Queries_UpdateAPIKeyLastUsed db\<rparr>"

section \<open>Facts\<close>

lemmas queries_defs =
  New_def Queries_CreateAPIKey_def Queries_CreateInferenceLog_def Queries_CreateUser_def
  Queries_DeleteAPIKey_def Queries_GetAPIKeyByHash_def Queries_GetUserByEmail_def
  Queries_GetUserByEmailForLogin_def Queries_GetUserByID_def Queries_ListAPIKeysByUser_def
  Queries_ListUsersPaged_def Queries_UpdateAPIKeyLastUsed_def

lemma scan_simps [simp]:
  "scan_int64 (VInt (sint (i :: int64))) = Inr i"
  "scan_int32 (VInt (sint (r :: int32))) = Inr r"
  "scan_text (VText s) = Inr s"
  "scan_NullString (nullable VText l) = Inr l"
  "scan_bytes (VBytes b) = Inr b"
  "scan_bool (VBool v) = Inr v"
  "scan_time (VTime t) = Inr t"
  "scan_NullTime (nullable VTime u) = Inr u"
  using sint64_range [of i] sint32_range [of r]
  by (simp_all add: scan_int64_def scan_int32_def scan_text_def scan_NullString_def scan_bytes_def
        scan_bool_def scan_time_def scan_NullTime_def nullable_def split: option.splits)

lemma scan_loop_map:
  "(\<And>x. x \<in> set xs \<Longrightarrow> scan (f x) = Inr (g x)) \<Longrightarrow>
   scan_loop scan (map f xs) items = Inr (items @ map g xs)"
  by (induction xs arbitrary: items) auto

lemma collect_rows_map:
  "(\<And>x. x \<in> set xs \<Longrightarrow> scan (f x) = Inr (g x)) \<Longrightarrow>
   collect_rows scan \<lparr>rows_data = map f xs, rows_close = None, rows_err = None\<rparr> = Inr (map g xs)"
  by (simp add: collect_rows_def scan_loop_map)

text \<open>A failure anywhere in a result set is reported, never a shortened list.\<close>

lemma scan_loop_length:
  "scan_loop scan rs items = Inr out \<Longrightarrow> length out = length items + length rs"
  by (induction rs arbitrary: items) (auto split: sum.splits)

lemma collect_rows_complete:
  assumes "collect_rows scan rs = Inr out"
  shows "length out = length (rows_data rs)" "rows_close rs = None" "rows_err rs = None"
  using assms
  by (auto simp: collect_rows_def bindR_def dest: scan_loop_length split: sum.splits option.splits)

end
