(* ===== verification/Redis.thy ===== *)
theory Redis
  imports Db
begin

text \<open>
  The Redis client handle (\<open>*redis.Client\<close> of go-redis) the service is given, and the contract of
  the server behind it. The handle is an argument of every definition that uses Redis: a record of
  actions. \<open>call_INCR\<close> and \<open>call_EXPIRE\<close> are the commands a server-side script calls,
  \<open>redis_Run\<close> is the transport of a script (\<open>script.Run\<close>).

  The locale \<open>redis_server\<close> states the documented behaviour of the commands in terms of the live
  keyspace (key to value and expiry instant) and the server clock: an expired key is gone, an error
  leaves open whether the command took effect. \<open>redis_reliable\<close> adds that commands do not fail.
  Both are interpreted on the reference server of \<open>World\<close>.
\<close>

type_synonym keyspace = "string \<rightharpoonup> string \<times> time option"

record 'w redis_client =
  redis_Get :: "string \<Rightarrow> ('w, string result) state"
  redis_Set :: "string \<Rightarrow> string \<Rightarrow> duration \<Rightarrow> ('w, unit result) state"
  redis_Del :: "string \<Rightarrow> ('w, unit result) state"
  redis_TTL :: "string \<Rightarrow> ('w, duration result) state"
  redis_Ping :: "('w, unit result) state"
  redis_Run :: "('w, int result) state \<Rightarrow> ('w, int result) state"
  call_INCR :: "string \<Rightarrow> ('w, int result) state"
  call_EXPIRE :: "string \<Rightarrow> int \<Rightarrow> ('w, unit result) state"

text \<open>What is left of a keyspace at instant \<open>t\<close>: a key whose expiry instant has passed is gone.\<close>

definition advance :: "time \<Rightarrow> keyspace \<Rightarrow> keyspace" where
  "advance t m =
     (\<lambda>k. case m k of Some (v, Some d) \<Rightarrow> (if d < t then None else Some (v, Some d)) | x \<Rightarrow> x)"

lemma advance_Some:
  "advance t m k = Some (v, d) \<longleftrightarrow> m k = Some (v, d) \<and> (\<forall>x. d = Some x \<longrightarrow> t \<le> x)"
  by (auto simp: advance_def split: option.splits if_splits)

lemma advance_SomeD: "advance t m k = Some x \<Longrightarrow> m k = Some x"
  by (cases x) (simp add: advance_Some)

lemma advance_advance: "s \<le> t \<Longrightarrow> advance t (advance s m) = advance t m"
  by (rule ext) (auto simp: advance_def split: option.splits if_splits)

lemma advance_upd_None: "advance t (m(k := None)) = (advance t m)(k := None)"
  by (auto simp: advance_def fun_eq_iff)

lemma advance_other: "m k = m' k \<Longrightarrow> advance t m k = advance t m' k"
  by (simp add: advance_def)

locale redis_server =
  fixes rc :: "'w redis_client"
    and live :: "'w \<Rightarrow> keyspace"
    and clk :: "'w \<Rightarrow> time"
    and tables :: "'w \<Rightarrow> 't"
  assumes get_frame: "runs_to (redis_Get rc k) w r w' \<Longrightarrow>
        clk w \<le> clk w' \<and> live w' = advance (clk w') (live w) \<and> tables w' = tables w"
    and get_hit: "runs_to (redis_Get rc k) w (Inr v) w' \<Longrightarrow> \<exists>d. live w' k = Some (v, d)"
    and get_nil: "runs_to (redis_Get rc k) w (Inl RedisNil) w' \<Longrightarrow> live w' k = None"
    and set_frame: "runs_to (redis_Set rc k v ttl) w rs w' \<Longrightarrow> clk w \<le> clk w' \<and> tables w' = tables w"
    and set_ok: "runs_to (redis_Set rc k v ttl) w (Inr u) w' \<Longrightarrow> 0 < ttl \<Longrightarrow>
        live w' = (advance (clk w') (live w))(k \<mapsto> (v, Some (clk w' + ttl)))"
    and set_fail: "runs_to (redis_Set rc k v ttl) w (Inl e) w' \<Longrightarrow> 0 < ttl \<Longrightarrow>
        live w' \<in> {advance (clk w') (live w), (advance (clk w') (live w))(k \<mapsto> (v, Some (clk w' + ttl)))}"
    and del_frame: "runs_to (redis_Del rc k) w rd w' \<Longrightarrow> clk w \<le> clk w' \<and> tables w' = tables w"
    and del_ok: "runs_to (redis_Del rc k) w (Inr u) w' \<Longrightarrow> live w' = (advance (clk w') (live w))(k := None)"
    and del_fail: "runs_to (redis_Del rc k) w (Inl e) w' \<Longrightarrow>
        live w' \<in> {advance (clk w') (live w), (advance (clk w') (live w))(k := None)}"

text \<open>A server whose commands do not fail: the only error of \<open>GET\<close> is a missing key.\<close>

locale redis_reliable = redis_server +
  assumes get_no_fault: "runs_to (redis_Get rc k) w (Inl e) w' \<Longrightarrow> e = RedisNil"
    and set_no_fault: "\<not> runs_to (redis_Set rc k v ttl) w (Inl e) w'"
    and del_no_fault: "\<not> runs_to (redis_Del rc k) w (Inl e) w'"
begin

lemma set_live:
  assumes "runs_to (redis_Set rc k v ttl) w r w'" "0 < ttl"
  shows "live w' = (advance (clk w') (live w))(k \<mapsto> (v, Some (clk w' + ttl)))"
    and "clk w \<le> clk w'" and "tables w' = tables w"
  using assms set_no_fault [of k v ttl w _ w'] set_ok [of k v ttl w _ w'] set_frame [OF assms(1)]
  by (cases r; auto)+

lemma del_live:
  assumes "runs_to (redis_Del rc k) w r w'"
  shows "live w' = (advance (clk w') (live w))(k := None)"
    and "clk w \<le> clk w'" and "tables w' = tables w"
  using assms del_no_fault [of k w _ w'] del_ok [of k w _ w'] del_frame [OF assms]
  by (cases r; auto)+

end

end
