(* ===== verification/Go_Sha256.thy ===== *)
theory Go_Sha256
  imports Prelude
begin

text \<open>
  \<open>crypto/sha256.Sum256\<close> (FIPS 180-4), which \<open>HashAPIKey\<close> uses to store API keys: padding to
  64-byte blocks, the message schedule and the 64 rounds over eight 32-bit words, all arithmetic at
  the machine width. A digest always has 32 bytes.
\<close>

unbundle bit_operations_syntax

section \<open>Definitions\<close>

type_synonym w32 = "32 word"

text \<open>
  The constants are the first 32 bits of the fractional parts of the cube roots of the first 64 primes
  and of the square roots of the first 8. \<open>int_root\<close> finds the integer root bit by bit.
\<close>

definition int_root :: "nat \<Rightarrow> nat \<Rightarrow> nat" where
  "int_root k n = foldr (\<lambda>b r. if (r + 2 ^ b) ^ k \<le> n then r + 2 ^ b else r) [0..<40] 0"

definition primes_below :: "nat \<Rightarrow> nat list" where
  "primes_below n = filter (\<lambda>p. list_all (\<lambda>d. p mod d \<noteq> 0) [2..<p]) [2..<n]"

definition root_fraction :: "nat \<Rightarrow> nat \<Rightarrow> w32" where
  "root_fraction k p = of_nat (int_root k (p * 2 ^ (32 * k)))"

definition round_constants :: "w32 list" where
  "round_constants = map (root_fraction 3) (primes_below 312)"

definition initial_state :: "w32 list" where
  "initial_state = map (root_fraction 2) (primes_below 20)"

definition big_sigma0 :: "w32 \<Rightarrow> w32" where
  "big_sigma0 x = word_rotr 2 x XOR word_rotr 13 x XOR word_rotr 22 x"

definition big_sigma1 :: "w32 \<Rightarrow> w32" where
  "big_sigma1 x = word_rotr 6 x XOR word_rotr 11 x XOR word_rotr 25 x"

definition small_sigma0 :: "w32 \<Rightarrow> w32" where
  "small_sigma0 x = word_rotr 7 x XOR word_rotr 18 x XOR drop_bit 3 x"

definition small_sigma1 :: "w32 \<Rightarrow> w32" where
  "small_sigma1 x = word_rotr 17 x XOR word_rotr 19 x XOR drop_bit 10 x"

definition sha_ch :: "w32 \<Rightarrow> w32 \<Rightarrow> w32 \<Rightarrow> w32" where
  "sha_ch e f g = (e AND f) XOR (NOT e AND g)"

definition sha_maj :: "w32 \<Rightarrow> w32 \<Rightarrow> w32 \<Rightarrow> w32" where
  "sha_maj a b c = (a AND b) XOR (a AND c) XOR (b AND c)"

text \<open>The schedule: \<open>n\<close> more words after the sixteen words of the block.\<close>

fun schedule :: "nat \<Rightarrow> w32 list \<Rightarrow> w32 list" where
  "schedule 0 ws = ws"
| "schedule (Suc n) ws =
     (let t = length ws
      in schedule n (ws @ [small_sigma1 (ws ! (t - 2)) + ws ! (t - 7) + small_sigma0 (ws ! (t - 15)) + ws ! (t - 16)]))"

fun sha_round :: "w32 list \<Rightarrow> w32 \<times> w32 \<Rightarrow> w32 list" where
  "sha_round [a, b, c, d, e, f, g, h] (k, w) =
     (let t1 = h + big_sigma1 e + sha_ch e f g + k + w;
          t2 = big_sigma0 a + sha_maj a b c
      in [t1 + t2, a, b, c, d + t1, e, f, g])"
| "sha_round s kw = s"

definition be_word :: "bytes \<Rightarrow> w32" where
  "be_word bs = foldl (\<lambda>acc c. push_bit 8 acc OR of_nat (of_char c)) 0 bs"

fun chunks :: "nat \<Rightarrow> nat \<Rightarrow> 'a list \<Rightarrow> 'a list list" where
  "chunks 0 n xs = []"
| "chunks (Suc k) n xs = take n xs # chunks k n (drop n xs)"

definition sha_block :: "w32 list \<Rightarrow> bytes \<Rightarrow> w32 list" where
  "sha_block st block =
     (let ws = schedule 48 (map be_word (chunks 16 4 block))
      in map2 (+) st (foldl sha_round st (zip round_constants ws)))"

text \<open>The most significant byte first, \<open>n\<close> bytes.\<close>

fun be_bytes :: "nat \<Rightarrow> nat \<Rightarrow> bytes" where
  "be_bytes 0 x = []"
| "be_bytes (Suc n) x = be_bytes n (x div 256) @ [char_of (x mod 256)]"

definition sha_pad :: "bytes \<Rightarrow> bytes" where
  "sha_pad msg =
     (let n = length msg
      in msg @ CHR 0x80 # replicate ((119 - n mod 64) mod 64) (CHR 0x00) @ be_bytes 8 (n * 8))"

definition Sum256 :: "bytes \<Rightarrow> bytes" where
  "Sum256 msg =
     (let m = sha_pad msg
      in concat (map (\<lambda>w. be_bytes 4 (unat w)) (foldl sha_block initial_state (chunks (length m div 64) 64 m))))"

section \<open>Facts\<close>

lemma length_sha_round [simp]: "length (sha_round st kw) = length st"
  by (cases "(st, kw)" rule: sha_round.cases) (auto simp: Let_def)

lemma length_foldl_round [simp]: "length (foldl sha_round st kws) = length st"
  by (induction kws arbitrary: st) auto

lemma length_sha_block [simp]: "length (sha_block st block) = length st"
  by (simp add: sha_block_def Let_def)

lemma length_foldl_block [simp]: "length (foldl sha_block st bs) = length st"
  by (induction bs arbitrary: st) auto

lemma length_be_bytes [simp]: "length (be_bytes n x) = n"
  by (induction n arbitrary: x) auto

text \<open>The padded message fills whole blocks.\<close>

lemma length_sha_pad: "64 dvd length (sha_pad msg)"
proof -
  have "(n + 1 + (119 - n mod 64) mod 64 + 8) mod 64 = 0" for n :: nat
  proof -
    define r where "r = n mod 64"
    have r: "r < 64" by (simp add: r_def)
    have "(119 - r) mod 64 = (if r \<le> 55 then 55 - r else 119 - r)"
      using r by (auto simp: mod_if)
    with r have "r + (1 + (119 - r) mod 64 + 8) = 64 \<or> r + (1 + (119 - r) mod 64 + 8) = 128" by auto
    then have "(r + (1 + (119 - r) mod 64 + 8)) mod 64 = 0" by (elim disjE) (simp_all only:, simp_all)
    then show ?thesis unfolding r_def mod_add_left_eq by (simp only: add.assoc)
  qed
  moreover have "length (sha_pad msg) = length msg + 1 + (119 - length msg mod 64) mod 64 + 8"
    unfolding sha_pad_def Let_def by (simp only: length_append list.size length_replicate length_be_bytes)
  ultimately show ?thesis by (simp only: dvd_eq_mod_eq_0)
qed

lemma length_Sum256: "length (Sum256 msg) = 32"
proof -
  have "length (concat (map (\<lambda>w. be_bytes 4 (unat w)) ws)) = 4 * length ws" for ws :: "w32 list"
    by (induction ws) auto
  moreover have "length initial_state = 8"
    by (simp add: initial_state_def primes_below_def upt_rec)
  ultimately show ?thesis by (simp add: Sum256_def Let_def)
qed

end
