(* ===== verification/Repo.thy ===== *)
theory Repo
  imports Redis Go_Sha256
begin

text \<open>
  Package \<open>internal/repo\<close>: the user and inference-log repositories, which forward to the query
  methods, and the API-key repository, which keeps a read-through cache in Redis. A key is cached
  under \<open>apikey:<hex hash>\<close>; a second entry \<open>apikey_id:<id>\<close> remembers the hash so that
  \<open>DeleteAPIKey\<close>, which only knows the id, can drop the first.

  The correctness notion is \<open>coherent\<close>: every cached key agrees with its row and its
  reverse entry lives at least as long. In the locale \<open>key_cache\<close> (the contracts of the
  query methods and of a reliable Redis) every operation preserves it, a lookup through the cache
  answers like the table, and a key deleted by its owner is never found again.
\<close>

section \<open>Definitions\<close>

subsection \<open>user_repo.go\<close>

record 'w UserRepository =
  usr_CreateUser :: "CreateUserParams \<Rightarrow> ('w, CreateUserRow result) state"
  usr_ListUsersPaged :: "ListUsersPagedParams \<Rightarrow> ('w, ListUsersPagedRow list result) state"
  usr_GetUserByID :: "int64 \<Rightarrow> ('w, GetUserByIDRow result) state"
  usr_GetUserByEmail :: "string \<Rightarrow> ('w, GetUserByEmailRow result) state"
  usr_GetUserByEmailForLogin :: "string \<Rightarrow> ('w, GetUserByEmailForLoginRow result) state"

definition NewUserRepository :: "'w Querier \<Rightarrow> 'w UserRepository" where
  "NewUserRepository q = \<lparr>
     usr_CreateUser = (\<lambda>arg. q_CreateUser q arg),
     usr_ListUsersPaged = (\<lambda>arg. q_ListUsersPaged q arg),
     usr_GetUserByID = (\<lambda>i. q_GetUserByID q i),
     usr_GetUserByEmail = (\<lambda>email. q_GetUserByEmail q email),
     usr_GetUserByEmailForLogin = (\<lambda>email. q_GetUserByEmailForLogin q email)\<rparr>"

subsection \<open>inference_log_repo.go\<close>

record 'w InferenceLogRepository =
  ilr_CreateInferenceLog :: "CreateInferenceLogParams \<Rightarrow> ('w, unit result) state"

definition NewInferenceLogRepository :: "'w Querier \<Rightarrow> 'w InferenceLogRepository" where
  "NewInferenceLogRepository q = \<lparr>ilr_CreateInferenceLog = (\<lambda>arg. q_CreateInferenceLog q arg)\<rparr>"

subsection \<open>apikey_repo.go\<close>

record 'w APIKeyRepository =
  akr_GetAPIKeyByHash :: "bytes \<Rightarrow> ('w, GetAPIKeyByHashRow result) state"
  akr_CreateAPIKey :: "CreateAPIKeyParams \<Rightarrow> ('w, CreateAPIKeyRow result) state"
  akr_ListAPIKeysByUser :: "int64 \<Rightarrow> ('w, ListAPIKeysByUserRow list result) state"
  akr_DeleteAPIKey :: "int64 \<Rightarrow> int64 \<Rightarrow> ('w, unit result) state"
  akr_UpdateAPIKeyLastUsed :: "int64 \<Rightarrow> ('w, unit result) state"

record 'w postgresAPIKeyRepository =
  par_q :: "'w Querier"
  par_redisClient :: "'w redis_client option"
  par_ttl :: duration

record cachedAPIKey =
  ca_ID :: int64
  ca_UserID :: int64
  ca_Active :: bool
  ca_RateRpm :: int32

definition apiKeyCacheKey :: "bytes \<Rightarrow> string" where
  "apiKeyCacheKey hash = ''apikey:'' @ EncodeToString hash"

definition apiKeyIDCacheKey :: "int64 \<Rightarrow> string" where
  "apiKeyIDCacheKey i = ''apikey_id:'' @ FormatInt i"

text \<open>\<open>json.Marshal(c)\<close> and \<open>json.Unmarshal(data, &c)\<close> for a cached key.\<close>

definition marshal_cachedAPIKey :: "cachedAPIKey \<Rightarrow> bytes" where
  "marshal_cachedAPIKey c =
     json_print (JObj [(''id'', JNum (FormatInt (ca_ID c))), (''user_id'', JNum (FormatInt (ca_UserID c))),
       (''active'', JBool (ca_Active c)), (''rate_rpm'', JNum (FormatInt (ca_RateRpm c)))])"

definition zero_cachedAPIKey :: cachedAPIKey where
  "zero_cachedAPIKey = \<lparr>ca_ID = 0, ca_UserID = 0, ca_Active = False, ca_RateRpm = 0\<rparr>"

definition set_cachedAPIKey :: "string \<Rightarrow> json \<Rightarrow> cachedAPIKey \<Rightarrow> cachedAPIKey result" where
  "set_cachedAPIKey n v c =
     (if n = ''id'' then bindR (dec_int64 v (ca_ID c)) (\<lambda>x. Inr (c\<lparr>ca_ID := x\<rparr>))
      else if n = ''user_id'' then bindR (dec_int64 v (ca_UserID c)) (\<lambda>x. Inr (c\<lparr>ca_UserID := x\<rparr>))
      else if n = ''active'' then bindR (dec_bool v (ca_Active c)) (\<lambda>x. Inr (c\<lparr>ca_Active := x\<rparr>))
      else bindR (dec_int32 v (ca_RateRpm c)) (\<lambda>x. Inr (c\<lparr>ca_RateRpm := x\<rparr>)))"

definition unmarshal_cachedAPIKey :: "bytes \<Rightarrow> cachedAPIKey result" where
  "unmarshal_cachedAPIKey data =
     bindR (Unmarshal data) (\<lambda>j.
       decode_struct [''id'', ''user_id'', ''active'', ''rate_rpm''] set_cachedAPIKey j zero_cachedAPIKey)"

text \<open>The two cache writes at the end of \<open>GetAPIKeyByHash\<close> and \<open>CreateAPIKey\<close>; their errors are dropped.\<close>

definition store_in_cache :: "'w postgresAPIKeyRepository \<Rightarrow> bytes \<Rightarrow> cachedAPIKey \<Rightarrow> 'w proc" where
  "store_in_cache r hash c =
     (case par_redisClient r of
        None \<Rightarrow> go_return ()
      | Some rc \<Rightarrow> do {
          _ \<leftarrow> redis_Set rc (apiKeyCacheKey hash) (marshal_cachedAPIKey c) (par_ttl r);
          _ \<leftarrow> redis_Set rc (apiKeyIDCacheKey (ca_ID c)) (EncodeToString hash) (par_ttl r);
          go_return ()
        })"

definition cache_lookup :: "'w postgresAPIKeyRepository \<Rightarrow> bytes \<Rightarrow> ('w, GetAPIKeyByHashRow option) state" where
  "cache_lookup r keyHash =
     (case par_redisClient r of
        None \<Rightarrow> go_return None
      | Some rc \<Rightarrow> do {
          res \<leftarrow> redis_Get rc (apiKeyCacheKey keyHash);
          go_return (case res of
              Inl e \<Rightarrow> None
            | Inr data \<Rightarrow> (case unmarshal_cachedAPIKey data of
                  Inl e \<Rightarrow> None
                | Inr c \<Rightarrow> Some \<lparr>gr_ID = ca_ID c, gr_UserID = ca_UserID c, gr_KeyHash = keyHash,
                                gr_Active = ca_Active c, gr_RateRpm = ca_RateRpm c\<rparr>))
        })"

definition GetAPIKeyByHash ::
  "'w postgresAPIKeyRepository \<Rightarrow> bytes \<Rightarrow> ('w, GetAPIKeyByHashRow result) state" where
  "GetAPIKeyByHash r keyHash = do {
     hit \<leftarrow> cache_lookup r keyHash;
     case hit of
       Some row \<Rightarrow> go_return (Inr row)
     | None \<Rightarrow> do {
         res \<leftarrow> q_GetAPIKeyByHash (par_q r) keyHash;
         case res of
           Inl e \<Rightarrow> go_return (Inl e)
         | Inr apiKey \<Rightarrow> do {
             store_in_cache r keyHash
               \<lparr>ca_ID = gr_ID apiKey, ca_UserID = gr_UserID apiKey, ca_Active = gr_Active apiKey,
                ca_RateRpm = gr_RateRpm apiKey\<rparr>;
             go_return (Inr apiKey)
           }
       }
   }"

definition CreateAPIKey ::
  "'w postgresAPIKeyRepository \<Rightarrow> CreateAPIKeyParams \<Rightarrow> ('w, CreateAPIKeyRow result) state" where
  "CreateAPIKey r arg = do {
     res \<leftarrow> q_CreateAPIKey (par_q r) arg;
     case res of
       Inl e \<Rightarrow> go_return (Inl (if errors_As_PgError e = Some UniqueViolation
                             then RepoErrAPIKeyLabelExists else e))
     | Inr createdKey \<Rightarrow> do {
         store_in_cache r (cp_KeyHash arg)
           \<lparr>ca_ID = cr_ID createdKey, ca_UserID = cr_UserID createdKey, ca_Active = cr_Active createdKey,
            ca_RateRpm = cr_RateRpm createdKey\<rparr>;
         go_return (Inr createdKey)
       }
   }"

definition ListAPIKeysByUser ::
  "'w postgresAPIKeyRepository \<Rightarrow> int64 \<Rightarrow> ('w, ListAPIKeysByUserRow list result) state" where
  "ListAPIKeysByUser r userID = q_ListAPIKeysByUser (par_q r) userID"

definition drop_from_cache :: "'w redis_client \<Rightarrow> int64 \<Rightarrow> 'w proc" where
  "drop_from_cache rc keyID = do {
     res \<leftarrow> redis_Get rc (apiKeyIDCacheKey keyID);
     case res of
       Inl e \<Rightarrow> go_return ()
     | Inr hash \<Rightarrow> do {
         _ \<leftarrow> redis_Del rc (apiKeyIDCacheKey keyID);
         _ \<leftarrow> redis_Del rc (''apikey:'' @ hash);
         go_return ()
       }
   }"

definition DeleteAPIKey ::
  "'w postgresAPIKeyRepository \<Rightarrow> int64 \<Rightarrow> int64 \<Rightarrow> ('w, unit result) state" where
  "DeleteAPIKey r userID keyID = do {
     res \<leftarrow> q_DeleteAPIKey (par_q r) \<lparr>dp_UserID = userID, dp_ID = keyID\<rparr>;
     case res of
       Inl e \<Rightarrow> go_return (Inl e)
     | Inr u \<Rightarrow> (case par_redisClient r of
           None \<Rightarrow> go_return (Inr ())
         | Some rc \<Rightarrow> do { drop_from_cache rc keyID; go_return (Inr ()) })
   }"

definition UpdateAPIKeyLastUsed :: "'w postgresAPIKeyRepository \<Rightarrow> int64 \<Rightarrow> ('w, unit result) state" where
  "UpdateAPIKeyLastUsed r i = q_UpdateAPIKeyLastUsed (par_q r) i"

definition NewAPIKeyRepository ::
  "'w Querier \<Rightarrow> 'w redis_client option \<Rightarrow> duration \<Rightarrow> 'w APIKeyRepository" where
  "NewAPIKeyRepository q redisClient ttl =
     (let r = \<lparr>par_q = q, par_redisClient = redisClient, par_ttl = ttl\<rparr>
      in \<lparr>akr_GetAPIKeyByHash = GetAPIKeyByHash r,
          akr_CreateAPIKey = CreateAPIKey r,
          akr_ListAPIKeysByUser = ListAPIKeysByUser r,
          akr_DeleteAPIKey = DeleteAPIKey r,
          akr_UpdateAPIKeyLastUsed = UpdateAPIKeyLastUsed r\<rparr>)"

definition HashAPIKey :: "string \<Rightarrow> bytes" where
  "HashAPIKey key = Sum256 key"

subsection \<open>Specification: coherence of the cache with the table\<close>

definition cached_of :: "ApiKey \<Rightarrow> cachedAPIKey" where
  "cached_of k = \<lparr>ca_ID = k_ID k, ca_UserID = k_UserID k, ca_Active = k_Active k, ca_RateRpm = k_RateRpm k\<rparr>"

definition hash_row :: "ApiKey \<Rightarrow> GetAPIKeyByHashRow" where
  "hash_row k = \<lparr>gr_ID = k_ID k, gr_UserID = k_UserID k, gr_KeyHash = k_KeyHash k,
                 gr_Active = k_Active k, gr_RateRpm = k_RateRpm k\<rparr>"

definition create_row :: "ApiKey \<Rightarrow> CreateAPIKeyRow" where
  "create_row k = \<lparr>cr_ID = k_ID k, cr_UserID = k_UserID k, cr_Label = k_Label k, cr_Active = k_Active k,
                   cr_RateRpm = k_RateRpm k, cr_CreatedAt = k_CreatedAt k\<rparr>"

definition outlives :: "time option \<Rightarrow> time option \<Rightarrow> bool" where
  "outlives d' d \<longleftrightarrow> (case d' of None \<Rightarrow> True | Some b \<Rightarrow> (case d of None \<Rightarrow> False | Some a \<Rightarrow> a \<le> b))"

definition keys_wf :: "ApiKey list \<Rightarrow> bool" where
  "keys_wf ks \<longleftrightarrow> distinct (map k_ID ks) \<and> distinct (map k_KeyHash ks)"

definition entry_ok :: "ApiKey list \<Rightarrow> keyspace \<Rightarrow> bytes \<Rightarrow> bool" where
  "entry_ok ks m h \<longleftrightarrow>
     (\<forall>data d. m (apiKeyCacheKey h) = Some (data, d) \<longrightarrow>
        (\<exists>k\<in>set ks. k_KeyHash k = h \<and> data = marshal_cachedAPIKey (cached_of k)
           \<and> (\<exists>d'. m (apiKeyIDCacheKey (k_ID k)) = Some (EncodeToString h, d') \<and> outlives d' d)))"

definition coherent :: "ApiKey list \<Rightarrow> keyspace \<Rightarrow> bool" where
  "coherent ks m \<longleftrightarrow> keys_wf ks \<and> (\<forall>h. entry_ok ks m h)"

text \<open>The table lookup a cached lookup has to agree with.\<close>

definition lookup_hash :: "ApiKey list \<Rightarrow> bytes \<Rightarrow> GetAPIKeyByHashRow option" where
  "lookup_hash ks h = map_option hash_row (find (\<lambda>k. k_KeyHash k = h) ks)"

section \<open>Facts\<close>

subsection \<open>Cache keys and cached values\<close>

lemma apiKeyCacheKey_inj [simp]: "apiKeyCacheKey g = apiKeyCacheKey h \<longleftrightarrow> g = h"
  by (auto simp: apiKeyCacheKey_def dest: EncodeToString_inj)

lemma apiKeyIDCacheKey_inj [simp]: "apiKeyIDCacheKey i = apiKeyIDCacheKey j \<longleftrightarrow> i = j"
  by (auto simp: apiKeyIDCacheKey_def dest: FormatInt_inj)

lemma cache_keys_disjoint [simp]:
  "apiKeyCacheKey h \<noteq> apiKeyIDCacheKey i" "apiKeyIDCacheKey i \<noteq> apiKeyCacheKey h"
  "''apikey:'' @ s \<noteq> apiKeyIDCacheKey i" "apiKeyIDCacheKey i \<noteq> ''apikey:'' @ s"
  by (simp_all add: apiKeyCacheKey_def apiKeyIDCacheKey_def)

lemmas cache_keys_disjoint_literal [simp] = cache_keys_disjoint(3,4) [simplified]

lemma number_lit_FormatInt [simp]: "number_lit (FormatInt i)"
  by (simp add: FormatInt_def number_lit_fmt_int)

lemma unmarshal_marshal_cachedAPIKey: "unmarshal_cachedAPIKey (marshal_cachedAPIKey c) = Inr c"
proof -
  have "json_parse (marshal_cachedAPIKey c) =
      Some (JObj [(''id'', JNum (FormatInt (ca_ID c))), (''user_id'', JNum (FormatInt (ca_UserID c))),
        (''active'', JBool (ca_Active c)), (''rate_rpm'', JNum (FormatInt (ca_RateRpm c)))])"
    unfolding marshal_cachedAPIKey_def
    by (rule json_parse_print) (simp_all add: ascii_def maxNestingDepth_def)
  then show ?thesis
    by (simp add: unmarshal_cachedAPIKey_def Unmarshal_def decode_struct_def select_field_def
        set_cachedAPIKey_def dec_int64_FormatInt dec_int32_FormatInt)
qed

subsection \<open>Coherence\<close>

lemma outlives_advance:
  "outlives d' d \<Longrightarrow> (\<And>x. d = Some x \<Longrightarrow> t \<le> x) \<Longrightarrow> d' = Some y \<Longrightarrow> t \<le> y"
  by (auto simp: outlives_def split: option.splits)

lemma coherent_empty: "keys_wf ks \<Longrightarrow> coherent ks Map.empty"
  by (simp add: coherent_def entry_ok_def)

lemma entry_okD:
  assumes "coherent ks m" "m (apiKeyCacheKey h) = Some (data, d)"
  obtains k d' where "k \<in> set ks" "k_KeyHash k = h" "data = marshal_cachedAPIKey (cached_of k)"
    "m (apiKeyIDCacheKey (k_ID k)) = Some (EncodeToString h, d')" "outlives d' d"
  using assms unfolding coherent_def entry_ok_def by blast

lemma coherentI:
  assumes "keys_wf ks"
    and "\<And>h data d. m (apiKeyCacheKey h) = Some (data, d) \<Longrightarrow>
          \<exists>k\<in>set ks. k_KeyHash k = h \<and> data = marshal_cachedAPIKey (cached_of k)
           \<and> (\<exists>d'. m (apiKeyIDCacheKey (k_ID k)) = Some (EncodeToString h, d') \<and> outlives d' d)"
  shows "coherent ks m"
  using assms by (simp add: coherent_def entry_ok_def)

lemma coherent_advance:
  assumes "coherent ks m"
  shows "coherent ks (advance t m)"
proof (rule coherentI)
  show "keys_wf ks" using assms by (simp add: coherent_def)
next
  fix h data d
  assume "advance t m (apiKeyCacheKey h) = Some (data, d)"
  then have m: "m (apiKeyCacheKey h) = Some (data, d)" and t: "\<And>x. d = Some x \<Longrightarrow> t \<le> x"
    by (simp_all add: advance_Some)
  from assms m obtain k d' where k: "k \<in> set ks" "k_KeyHash k = h" "data = marshal_cachedAPIKey (cached_of k)"
    "m (apiKeyIDCacheKey (k_ID k)) = Some (EncodeToString h, d')" "outlives d' d"
    by (rule entry_okD)
  moreover from k(4) outlives_advance [OF k(5) t]
  have "advance t m (apiKeyIDCacheKey (k_ID k)) = Some (EncodeToString h, d')"
    by (simp add: advance_Some)
  ultimately show "\<exists>k\<in>set ks. k_KeyHash k = h \<and> data = marshal_cachedAPIKey (cached_of k)
       \<and> (\<exists>d'. advance t m (apiKeyIDCacheKey (k_ID k)) = Some (EncodeToString h, d') \<and> outlives d' d)"
    by blast
qed

lemma coherent_store:
  assumes coh: "coherent ks m" and k: "k \<in> set ks" and t: "t1 \<le> t2"
  shows "coherent ks ((advance t2 (m(apiKeyCacheKey (k_KeyHash k) \<mapsto> (marshal_cachedAPIKey (cached_of k), Some (t1 + ttl)))))
           (apiKeyIDCacheKey (k_ID k) \<mapsto> (EncodeToString (k_KeyHash k), Some (t2 + ttl))))"
    (is "coherent ks (?a(?ik \<mapsto> ?iv))")
proof (rule coherentI)
  show wf: "keys_wf ks" using coh by (simp add: coherent_def)
  fix h data d
  assume e: "(?a(?ik \<mapsto> ?iv)) (apiKeyCacheKey h) = Some (data, d)"
  show "\<exists>k\<in>set ks. k_KeyHash k = h \<and> data = marshal_cachedAPIKey (cached_of k)
       \<and> (\<exists>d'. (?a(?ik \<mapsto> ?iv)) (apiKeyIDCacheKey (k_ID k)) = Some (EncodeToString h, d') \<and> outlives d' d)"
  proof (cases "h = k_KeyHash k")
    case True
    with e k t show ?thesis
      by (intro bexI [of _ k]) (auto simp: advance_Some outlives_def)
  next
    case False
    with e have m: "m (apiKeyCacheKey h) = Some (data, d)" and s: "\<And>x. d = Some x \<Longrightarrow> t2 \<le> x"
      by (simp_all add: advance_Some)
    from coh m obtain k' d' where k': "k' \<in> set ks" "k_KeyHash k' = h" "data = marshal_cachedAPIKey (cached_of k')"
      "m (apiKeyIDCacheKey (k_ID k')) = Some (EncodeToString h, d')" "outlives d' d"
      by (rule entry_okD)
    from False k'(2) wf k k'(1) have "k_ID k' \<noteq> k_ID k"
      by (auto simp: keys_wf_def dest: distinct_map_inj)
    moreover from k'(4) outlives_advance [OF k'(5) s]
    have "?a (apiKeyIDCacheKey (k_ID k')) = Some (EncodeToString h, d')"
      by (simp add: advance_Some)
    ultimately show ?thesis
      using k' by (intro bexI [of _ k']) auto
  qed
qed

lemma keys_wf_filter: "keys_wf ks \<Longrightarrow> keys_wf (filter P ks)"
  by (simp add: keys_wf_def distinct_map_filter)

abbreviation remove_key :: "int64 \<Rightarrow> int64 \<Rightarrow> ApiKey list \<Rightarrow> ApiKey list" where
  "remove_key u i ks \<equiv> filter (\<lambda>k. \<not> (k_UserID k = u \<and> k_ID k = i)) ks"

text \<open>Without a reverse entry for the id, no cached key has that id: the row can go.\<close>

lemma coherent_remove_uncached:
  assumes "coherent ks m" "m (apiKeyIDCacheKey i) = None"
  shows "coherent (remove_key u i ks) m"
  using assms by (auto simp: coherent_def keys_wf_filter entry_ok_def) (metis option.distinct(1))

text \<open>With a reverse entry, dropping both entries restores coherence with the reduced table.\<close>

lemma coherent_remove_cached:
  assumes coh: "coherent ks m" and i: "m (apiKeyIDCacheKey i) = Some (hs, d0)"
  shows "coherent (remove_key u i ks) ((advance t2 ((advance t1 m)(apiKeyIDCacheKey i := None)))(''apikey:'' @ hs := None))"
    (is "coherent ?ks ?m")
proof (rule coherentI)
  show "keys_wf ?ks" using coh by (simp add: coherent_def keys_wf_filter)
  fix h data d
  assume "?m (apiKeyCacheKey h) = Some (data, d)"
  then have e: "apiKeyCacheKey h \<noteq> ''apikey:'' @ hs" "m (apiKeyCacheKey h) = Some (data, d)"
    and s: "\<And>x. d = Some x \<Longrightarrow> t1 \<le> x" "\<And>x. d = Some x \<Longrightarrow> t2 \<le> x"
    by (auto simp: advance_Some split: if_splits)
  from coh e(2) obtain k d' where k: "k \<in> set ks" "k_KeyHash k = h" "data = marshal_cachedAPIKey (cached_of k)"
    "m (apiKeyIDCacheKey (k_ID k)) = Some (EncodeToString h, d')" "outlives d' d"
    by (rule entry_okD)
  have "k_ID k \<noteq> i"
    using e(1) k(4) i by (auto simp: apiKeyCacheKey_def)
  then show "\<exists>k\<in>set ?ks. k_KeyHash k = h \<and> data = marshal_cachedAPIKey (cached_of k)
       \<and> (\<exists>d'. ?m (apiKeyIDCacheKey (k_ID k)) = Some (EncodeToString h, d') \<and> outlives d' d)"
    using k outlives_advance [OF k(5) s(1)] outlives_advance [OF k(5) s(2)]
    by (intro bexI [of _ k]) (auto simp: advance_Some)
qed

lemma coherent_insert:
  assumes "coherent ks m" "k_ID k \<notin> k_ID ` set ks" "k_KeyHash k \<notin> k_KeyHash ` set ks"
  shows "coherent (ks @ [k]) m"
  using assms by (fastforce simp: coherent_def keys_wf_def entry_ok_def)

lemma coherent_touch:
  assumes "coherent ks m"
  shows "coherent (map (\<lambda>k. if k_ID k = i then k\<lparr>k_LastUsedAt := t\<rparr> else k) ks) m"
proof -
  let ?f = "\<lambda>k. if k_ID k = i then k\<lparr>k_LastUsedAt := t\<rparr> else k"
  have same: "k_ID (?f k) = k_ID k" "k_KeyHash (?f k) = k_KeyHash k" "cached_of (?f k) = cached_of k" for k
    by (simp_all add: cached_of_def)
  have "map k_ID (map ?f ks) = map k_ID ks" "map k_KeyHash (map ?f ks) = map k_KeyHash ks"
    by (simp_all add: same o_def)
  moreover have "entry_ok (map ?f ks) m h = entry_ok ks m h" for h
    by (simp only: entry_ok_def set_map bex_simps(7) same)
  ultimately show ?thesis
    using assms by (simp only: coherent_def keys_wf_def simp_thms)
qed

lemma lookup_hash_Some:
  "keys_wf ks \<Longrightarrow> k \<in> set ks \<Longrightarrow> lookup_hash ks (k_KeyHash k) = Some (hash_row k)"
  by (simp add: lookup_hash_def keys_wf_def map_of_Some_filter)

lemma lookup_hash_None: "lookup_hash ks h = None \<longleftrightarrow> h \<notin> k_KeyHash ` set ks"
  by (auto simp: lookup_hash_def find_eq_None_iff)

subsection \<open>Contract of the API-key queries, and the cached repository on top of it\<close>

text \<open>
  What the repository relies on: each statement is atomic, touches only the table and finds the rows
  its text selects. Time may pass, so cache entries may expire meanwhile (\<open>frame\<close>).
\<close>

locale key_queries =
  fixes q :: "'w Querier"
    and tbl :: "'w \<Rightarrow> ApiKey list"
    and live :: "'w \<Rightarrow> keyspace"
    and clk :: "'w \<Rightarrow> time"
  assumes find_frame: "runs_to (q_GetAPIKeyByHash q h) w rg w' \<Longrightarrow>
        live w' = advance (clk w') (live w) \<and> clk w \<le> clk w' \<and> tbl w' = tbl w"
    and find_row: "runs_to (q_GetAPIKeyByHash q h) w (Inr row) w' \<Longrightarrow>
        \<exists>k\<in>set (tbl w). k_KeyHash k = h \<and> row = hash_row k"
    and find_none: "runs_to (q_GetAPIKeyByHash q h) w (Inl e) w' \<Longrightarrow> errors_Is e ErrNoRows \<Longrightarrow>
        h \<notin> k_KeyHash ` set (tbl w)"
    and insert_frame: "runs_to (q_CreateAPIKey q arg) w rk w' \<Longrightarrow>
        live w' = advance (clk w') (live w) \<and> clk w \<le> clk w'"
    and insert_row: "runs_to (q_CreateAPIKey q arg) w (Inr crow) w' \<Longrightarrow>
        \<exists>k. tbl w' = tbl w @ [k] \<and> k_ID k \<notin> k_ID ` set (tbl w) \<and> k_UserID k = cp_UserID arg
          \<and> k_KeyHash k = cp_KeyHash arg \<and> k_Label k = cp_Label arg \<and> k_Active k
          \<and> k_RateRpm k = cp_RateRpm arg \<and> crow = create_row k"
    and insert_fail: "runs_to (q_CreateAPIKey q arg) w (Inl e) w' \<Longrightarrow> tbl w' = tbl w"
    and remove_frame: "runs_to (q_DeleteAPIKey q dp) w ru w' \<Longrightarrow>
        live w' = advance (clk w') (live w) \<and> clk w \<le> clk w'"
    and remove_ok: "runs_to (q_DeleteAPIKey q dp) w (Inr u) w' \<Longrightarrow>
        tbl w' = remove_key (dp_UserID dp) (dp_ID dp) (tbl w)"
    and remove_fail: "runs_to (q_DeleteAPIKey q dp) w (Inl e) w' \<Longrightarrow> tbl w' = tbl w"
    and touch_frame: "runs_to (q_UpdateAPIKeyLastUsed q i) w ru w' \<Longrightarrow>
        live w' = advance (clk w') (live w) \<and> clk w \<le> clk w'"
    and touch_effect: "runs_to (q_UpdateAPIKeyLastUsed q i) w ru w' \<Longrightarrow>
        tbl w' = tbl w \<or> (\<exists>t. tbl w' = map (\<lambda>k. if k_ID k = i then k\<lparr>k_LastUsedAt := t\<rparr> else k) (tbl w))"
    and list_frame: "runs_to (q_ListAPIKeysByUser q uid) w rl w' \<Longrightarrow>
        live w' = advance (clk w') (live w) \<and> clk w \<le> clk w' \<and> tbl w' = tbl w"

text \<open>Inversion of the repository operations: one case per path through the Go code.\<close>

lemma GetAPIKeyByHash_runs:
  assumes "runs_to (GetAPIKeyByHash r h) w res w'"
  obtains (hit) row where "runs_to (cache_lookup r h) w (Some row) w'" "res = Inr row"
  | (fail) w1 e where "runs_to (cache_lookup r h) w None w1"
      "runs_to (q_GetAPIKeyByHash (par_q r) h) w1 (Inl e) w'" "res = Inl e"
  | (fill) w1 w2 row u where "runs_to (cache_lookup r h) w None w1"
      "runs_to (q_GetAPIKeyByHash (par_q r) h) w1 (Inr row) w2"
      "runs_to (store_in_cache r h \<lparr>ca_ID = gr_ID row, ca_UserID = gr_UserID row, ca_Active = gr_Active row,
         ca_RateRpm = gr_RateRpm row\<rparr>) w2 u w'" "res = Inr row"
  using assms by (auto simp: GetAPIKeyByHash_def go_run intro: that)

lemma CreateAPIKey_runs:
  assumes "runs_to (CreateAPIKey r arg) w res w'"
  obtains (fail) e where "runs_to (q_CreateAPIKey (par_q r) arg) w (Inl e) w'"
      "res = Inl (if errors_As_PgError e = Some UniqueViolation then RepoErrAPIKeyLabelExists else e)"
  | (created) w1 row u where "runs_to (q_CreateAPIKey (par_q r) arg) w (Inr row) w1"
      "runs_to (store_in_cache r (cp_KeyHash arg) \<lparr>ca_ID = cr_ID row, ca_UserID = cr_UserID row,
         ca_Active = cr_Active row, ca_RateRpm = cr_RateRpm row\<rparr>) w1 u w'" "res = Inr row"
  using assms by (auto simp: CreateAPIKey_def go_run intro: that)

lemma DeleteAPIKey_runs:
  assumes "runs_to (DeleteAPIKey r uid i) w res w'"
  obtains (fail) e where "runs_to (q_DeleteAPIKey (par_q r) \<lparr>dp_UserID = uid, dp_ID = i\<rparr>) w (Inl e) w'" "res = Inl e"
  | (uncached) u where "par_redisClient r = None"
      "runs_to (q_DeleteAPIKey (par_q r) \<lparr>dp_UserID = uid, dp_ID = i\<rparr>) w (Inr u) w'" "res = Inr ()"
  | (cached) rc w1 u u' where "par_redisClient r = Some rc"
      "runs_to (q_DeleteAPIKey (par_q r) \<lparr>dp_UserID = uid, dp_ID = i\<rparr>) w (Inr u) w1"
      "runs_to (drop_from_cache rc i) w1 u' w'" "res = Inr ()"
  using assms by (auto simp: DeleteAPIKey_def go_run intro: that)

text \<open>
  The repository on a Redis whose commands may fail, with or without effect; \<open>key_cache\<close> adds that they
  do not.
\<close>

locale fallible_cache = redis_server rc live clk tbl + key_queries q tbl live clk
  for rc :: "'w redis_client" and q :: "'w Querier" and tbl :: "'w \<Rightarrow> ApiKey list"
    and live :: "'w \<Rightarrow> keyspace" and clk :: "'w \<Rightarrow> time" +
  fixes r :: "'w postgresAPIKeyRepository"
  assumes r_q: "par_q r = q" and r_redis: "par_redisClient r = Some rc" and r_ttl: "0 < par_ttl r"
begin

lemma cache_lookup_clock: "runs_to (cache_lookup r h) w hit w' \<Longrightarrow> clk w \<le> clk w' \<and> tbl w' = tbl w"
  by (auto simp: cache_lookup_def r_redis runs_to_bind dest!: get_frame)

lemma store_in_cache_clock: "runs_to (store_in_cache r h c) w u w' \<Longrightarrow> clk w \<le> clk w'"
  by (auto simp: store_in_cache_def r_redis runs_to_bind dest!: set_frame)

lemma GetAPIKeyByHash_clock:
  assumes "runs_to (cache_lookup r h) w None w1" "runs_to (GetAPIKeyByHash r h) w res w'"
  shows "clk w1 \<le> clk w'"
  using assms(2)
proof (cases rule: GetAPIKeyByHash_runs)
  case (hit row)
  with runs_to_deterministic [OF assms(1) hit(1)] show ?thesis by simp
next
  case (fail v e)
  with runs_to_deterministic [OF assms(1) fail(1)] find_frame [of h v "Inl e" w'] show ?thesis by (simp add: r_q)
next
  case (fill v v' row u)
  with runs_to_deterministic [OF assms(1) fill(1)] find_frame [of h v "Inr row" v'] store_in_cache_clock [OF fill(3)]
  show ?thesis by (simp add: r_q)
qed

lemma lookup_clock:
  assumes "runs_to (GetAPIKeyByHash r h) w res w'"
  shows "clk w \<le> clk w'"
proof -
  obtain hit v where c: "runs_to (cache_lookup r h) w hit v" using runs_to_total [of "cache_lookup r h" w] by blast
  show ?thesis
  proof (cases hit)
    case None
    with GetAPIKeyByHash_clock [of h w v res w'] cache_lookup_clock [OF c] assms c show ?thesis by simp
  next
    case (Some row)
    with assms c cache_lookup_clock [OF c] show ?thesis by (simp add: GetAPIKeyByHash_def runs_to_bind_known)
  qed
qed

text \<open>An entry that has not expired when a lookup ends is what the lookup returned, whatever the table holds.\<close>

lemma live_entry_is_served:
  assumes entry: "live w (apiKeyCacheKey h) = Some (marshal_cachedAPIKey c, Some d)"
    and get: "\<And>e v. runs_to (redis_Get rc (apiKeyCacheKey h)) w (Inl e) v \<Longrightarrow> e = RedisNil"
    and run: "runs_to (GetAPIKeyByHash r h) w res w'" and d: "clk w' \<le> d"
  shows "res = Inr \<lparr>gr_ID = ca_ID c, gr_UserID = ca_UserID c, gr_KeyHash = h, gr_Active = ca_Active c,
      gr_RateRpm = ca_RateRpm c\<rparr> \<and> tbl w' = tbl w"
proof -
  obtain g w1 where g: "runs_to (redis_Get rc (apiKeyCacheKey h)) w g w1"
    using runs_to_total [of "redis_Get rc (apiKeyCacheKey h)" w] by blast
  note frame = get_frame [OF g]
  show ?thesis
  proof (cases g)
    case (Inl e)
    with get g have e: "e = RedisNil" by blast
    from g Inl have "runs_to (cache_lookup r h) w None w1"
      by (simp add: cache_lookup_def r_redis runs_to_bind_known)
    from GetAPIKeyByHash_clock [OF this run] d have "clk w1 \<le> d" by simp
    with frame entry have "live w1 (apiKeyCacheKey h) \<noteq> None" by (auto simp: advance_def)
    with get_nil [of "apiKeyCacheKey h" w w1] g Inl e show ?thesis by simp
  next
    case (Inr data)
    with g get_hit [of "apiKeyCacheKey h" w data w1] frame entry have "data = marshal_cachedAPIKey c"
      by (auto simp: advance_Some)
    with g Inr have "runs_to (cache_lookup r h) w (Some \<lparr>gr_ID = ca_ID c, gr_UserID = ca_UserID c, gr_KeyHash = h,
        gr_Active = ca_Active c, gr_RateRpm = ca_RateRpm c\<rparr>) w1"
      by (simp add: cache_lookup_def r_redis runs_to_bind_known unmarshal_marshal_cachedAPIKey)
    with run frame show ?thesis by (simp add: GetAPIKeyByHash_def runs_to_bind_known)
  qed
qed

text \<open>Without a reverse entry a deletion removes the row and nothing from the cache.\<close>

lemma DeleteAPIKey_unlinked:
  assumes "runs_to (DeleteAPIKey r uid i) w (Inr ()) w'" "live w (apiKeyIDCacheKey i) = None"
  shows "tbl w' = remove_key uid i (tbl w) \<and> live w' = advance (clk w') (live w) \<and> clk w \<le> clk w'"
  using assms(1)
proof (cases rule: DeleteAPIKey_runs)
  case (cached rc' w1 u u')
  have rc: "rc' = rc" using cached(1) r_redis by simp
  from cached(2) have w1: "tbl w1 = remove_key uid i (tbl w)" "live w1 = advance (clk w1) (live w)" "clk w \<le> clk w1"
    using remove_ok [of "\<lparr>dp_UserID = uid, dp_ID = i\<rparr>" w u w1] remove_frame [of "\<lparr>dp_UserID = uid, dp_ID = i\<rparr>" w "Inr u" w1]
    by (auto simp: r_q)
  obtain g w2 where g: "runs_to (redis_Get rc (apiKeyIDCacheKey i)) w1 g w2"
    using runs_to_total [of "redis_Get rc (apiKeyIDCacheKey i)" w1] by blast
  note frame = get_frame [OF g]
  have "g \<noteq> Inr v" for v
    using get_hit [of "apiKeyIDCacheKey i" w1 v w2] g frame w1(2) assms(2) by (auto simp: advance_Some)
  then obtain e where "g = Inl e" by (cases g) auto
  with cached(3) g have "w' = w2" by (simp add: rc drop_from_cache_def runs_to_bind_known)
  with w1 frame show ?thesis by (simp add: advance_advance)
qed (simp_all add: r_redis)

end

locale key_cache = fallible_cache rc q tbl live clk r + redis_reliable rc live clk tbl
  for rc :: "'w redis_client" and q :: "'w Querier" and tbl :: "'w \<Rightarrow> ApiKey list"
    and live :: "'w \<Rightarrow> keyspace" and clk :: "'w \<Rightarrow> time" and r :: "'w postgresAPIKeyRepository"
begin

lemma cache_lookup_spec:
  assumes "runs_to (cache_lookup r h) w hit w'" "coherent (tbl w) (live w)"
  shows "tbl w' = tbl w" "coherent (tbl w') (live w')" "clk w \<le> clk w'"
    and "hit = Some row \<Longrightarrow> lookup_hash (tbl w) h = Some row"
proof -
  from assms(1) obtain res where
    get: "runs_to (redis_Get rc (apiKeyCacheKey h)) w res w'" and
    hit: "hit = (case res of Inl e \<Rightarrow> None | Inr data \<Rightarrow> (case unmarshal_cachedAPIKey data of
            Inl e \<Rightarrow> None
          | Inr c \<Rightarrow> Some \<lparr>gr_ID = ca_ID c, gr_UserID = ca_UserID c, gr_KeyHash = h,
                          gr_Active = ca_Active c, gr_RateRpm = ca_RateRpm c\<rparr>))"
    by (auto simp: cache_lookup_def r_redis runs_to_bind)
  from get_frame [OF get] show t: "tbl w' = tbl w" and "clk w \<le> clk w'" by auto
  from get_frame [OF get] assms(2) show coh: "coherent (tbl w') (live w')"
    by (simp add: coherent_advance)
  show "lookup_hash (tbl w) h = Some row" if row: "hit = Some row"
  proof -
    from row hit obtain data where res: "res = Inr data" by (cases res) auto
    with get get_hit obtain d where "live w' (apiKeyCacheKey h) = Some (data, d)" by blast
    with coh obtain k where k: "k \<in> set (tbl w')" "k_KeyHash k = h" "data = marshal_cachedAPIKey (cached_of k)"
      by (auto elim: entry_okD)
    with row hit res have "row = hash_row k"
      by (simp add: unmarshal_marshal_cachedAPIKey hash_row_def cached_of_def)
    with k t coh show ?thesis
      using lookup_hash_Some [of "tbl w'" k] by (simp add: coherent_def)
  qed
qed

lemma store_in_cache_spec:
  assumes "runs_to (store_in_cache r h c) w u w'" "coherent (tbl w) (live w)"
    and "k \<in> set (tbl w)" "k_KeyHash k = h" "c = cached_of k"
  shows "tbl w' = tbl w" "coherent (tbl w') (live w')"
proof -
  from assms(1) obtain r1 r2 w1 where
    s1: "runs_to (redis_Set rc (apiKeyCacheKey h) (marshal_cachedAPIKey c) (par_ttl r)) w r1 w1" and
    s2: "runs_to (redis_Set rc (apiKeyIDCacheKey (ca_ID c)) (EncodeToString h) (par_ttl r)) w1 r2 w'"
    by (auto simp: store_in_cache_def r_redis runs_to_bind)
  show t: "tbl w' = tbl w" using set_live(3) [OF s1 r_ttl] set_live(3) [OF s2 r_ttl] by simp
  have "coherent (tbl w) (advance (clk w1) (live w))"
    using assms(2) by (rule coherent_advance)
  from coherent_store [OF this assms(3) set_live(2) [OF s2 r_ttl], of "par_ttl r"]
  show "coherent (tbl w') (live w')"
    using t assms(4,5) set_live(1) [OF s1 r_ttl] set_live(1) [OF s2 r_ttl] by (simp add: cached_of_def)
qed

text \<open>Lookup through the cache agrees with the table and keeps both coherent.\<close>

lemma GetAPIKeyByHash_spec:
  assumes run: "runs_to (GetAPIKeyByHash r h) w res w'" and coh: "coherent (tbl w) (live w)"
  shows "tbl w' = tbl w \<and> coherent (tbl w') (live w')
    \<and> (\<forall>row. res = Inr row \<longrightarrow> lookup_hash (tbl w) h = Some row)
    \<and> (\<forall>e. res = Inl e \<longrightarrow> errors_Is e ErrNoRows \<longrightarrow> lookup_hash (tbl w) h = None)"
  using run
proof (cases rule: GetAPIKeyByHash_runs)
  case (hit row)
  with cache_lookup_spec [OF hit(1) coh] show ?thesis by auto
next
  case (fail w1 e)
  have "tbl w1 = tbl w" "coherent (tbl w1) (live w1)"
    using cache_lookup_spec(1,2) [OF fail(1) coh] .
  with fail(2,3) show ?thesis
    using find_frame [of h w1 "Inl e" w'] find_none [of h w1 e w']
    by (auto simp: r_q coherent_advance lookup_hash_None)
next
  case (fill w1 w2 row u)
  have c1: "tbl w1 = tbl w" "coherent (tbl w1) (live w1)"
    using cache_lookup_spec(1,2) [OF fill(1) coh] .
  with fill(2) have c2: "tbl w2 = tbl w" "coherent (tbl w2) (live w2)"
    using find_frame [of h w1 "Inr row" w2] by (auto simp: r_q coherent_advance)
  from fill(2) obtain k where k: "k \<in> set (tbl w2)" "k_KeyHash k = h" "row = hash_row k"
    using find_row [of h w1 row w2] c1 c2 by (auto simp: r_q)
  have "tbl w' = tbl w2" "coherent (tbl w') (live w')"
    using store_in_cache_spec [OF fill(3) c2(2) k(1,2)] k(3) by (simp_all add: hash_row_def cached_of_def)
  with k c2 fill(4) show ?thesis
    using lookup_hash_Some [of "tbl w2" k] by (auto simp: coherent_def)
qed

text \<open>Creation adds one row, under a fresh hash, and caches it.\<close>

lemma CreateAPIKey_spec:
  assumes run: "runs_to (CreateAPIKey r arg) w res w'" and coh: "coherent (tbl w) (live w)"
    and fresh: "cp_KeyHash arg \<notin> k_KeyHash ` set (tbl w)"
  shows "coherent (tbl w') (live w')
    \<and> (\<forall>e. res = Inl e \<longrightarrow> tbl w' = tbl w)
    \<and> (\<forall>row. res = Inr row \<longrightarrow> (\<exists>k. tbl w' = tbl w @ [k] \<and> k_UserID k = cp_UserID arg
          \<and> k_KeyHash k = cp_KeyHash arg \<and> k_Label k = cp_Label arg \<and> k_Active k \<and> k_RateRpm k = cp_RateRpm arg
          \<and> row = create_row k))"
  using run
proof (cases rule: CreateAPIKey_runs)
  case (fail e)
  with coh show ?thesis
    using insert_frame [of arg w "Inl e" w'] insert_fail [of arg w e w'] by (auto simp: r_q coherent_advance)
next
  case (created w1 row u)
  from created(1) obtain k where k: "tbl w1 = tbl w @ [k]" "k_ID k \<notin> k_ID ` set (tbl w)" "k_UserID k = cp_UserID arg"
      "k_KeyHash k = cp_KeyHash arg" "k_Label k = cp_Label arg" "k_Active k" "k_RateRpm k = cp_RateRpm arg" "row = create_row k"
    using insert_row [of arg w row w1] by (auto simp: r_q)
  have "coherent (tbl w1) (live w1)"
    using insert_frame [of arg w "Inr row" w1] created(1) coherent_insert [OF coherent_advance [OF coh] k(2)] fresh k(1,4)
    by (simp add: r_q)
  from store_in_cache_spec [OF created(2) this, of k] k created(3) show ?thesis
    by (auto simp: create_row_def cached_of_def)
qed

text \<open>Deletion removes exactly the rows with that owner and id, and the cache follows.\<close>

lemma drop_from_cache_spec:
  assumes run: "runs_to (drop_from_cache rc i) w u w'" and coh: "coherent ks (live w)"
    and t: "tbl w = remove_key uid i ks"
  shows "tbl w' = tbl w" "coherent (tbl w') (live w')"
proof -
  from run obtain res w1 where get: "runs_to (redis_Get rc (apiKeyIDCacheKey i)) w res w1" and
    rest: "runs_to (case res of Inl e \<Rightarrow> go_return () | Inr hash \<Rightarrow>
       redis_Del rc (apiKeyIDCacheKey i) \<bind> (\<lambda>_. redis_Del rc (''apikey:'' @ hash) \<bind> (\<lambda>_. go_return ()))) w1 u w'"
    by (auto simp: drop_from_cache_def runs_to_bind)
  have c1: "tbl w1 = tbl w" "coherent ks (live w1)"
    using get_frame [OF get] coh by (auto simp: coherent_advance)
  have "tbl w' = tbl w \<and> coherent (tbl w') (live w')"
  proof (cases res)
    case (Inl e)
    with get get_no_fault have "runs_to (redis_Get rc (apiKeyIDCacheKey i)) w (Inl RedisNil) w1" by blast
    then have "live w1 (apiKeyIDCacheKey i) = None" by (rule get_nil)
    from coherent_remove_uncached [OF c1(2) this, of uid] Inl rest c1(1) t show ?thesis by auto
  next
    case (Inr hash)
    with get obtain d where d: "live w1 (apiKeyIDCacheKey i) = Some (hash, d)" by (auto dest: get_hit)
    from Inr rest obtain r2 w2 r3 where del: "runs_to (redis_Del rc (apiKeyIDCacheKey i)) w1 r2 w2"
      "runs_to (redis_Del rc (''apikey:'' @ hash)) w2 r3 w'"
      by (auto simp: runs_to_bind)
    show ?thesis
      using coherent_remove_cached [OF c1(2) d, of uid "clk w'" "clk w2"] c1(1) t
        del_live [OF del(1)] del_live [OF del(2)] by simp
  qed
  then show "tbl w' = tbl w" "coherent (tbl w') (live w')" by auto
qed

lemma DeleteAPIKey_spec:
  assumes run: "runs_to (DeleteAPIKey r uid i) w res w'" and coh: "coherent (tbl w) (live w)"
  shows "coherent (tbl w') (live w')
    \<and> (\<forall>e. res = Inl e \<longrightarrow> tbl w' = tbl w)
    \<and> (\<forall>u. res = Inr u \<longrightarrow> tbl w' = remove_key uid i (tbl w))"
  using run
proof (cases rule: DeleteAPIKey_runs)
  case (fail e)
  with coh show ?thesis
    using remove_frame [of _ w "Inl e" w'] remove_fail [of _ w e w'] by (auto simp: r_q coherent_advance)
next
  case (uncached u)
  then show ?thesis using r_redis by simp
next
  case (cached rc' w1 u u')
  with r_redis have rc: "rc' = rc" by simp
  have c1: "tbl w1 = remove_key uid i (tbl w)" "coherent (tbl w) (live w1)"
    using remove_frame [of _ w "Inr u" w1] remove_ok [of _ w u w1] cached(2) coh
    by (auto simp: r_q coherent_advance)
  from drop_from_cache_spec [OF cached(3) [unfolded rc] c1(2,1)] c1(1) cached(4) show ?thesis by auto
qed

lemma UpdateAPIKeyLastUsed_spec:
  assumes run: "runs_to (UpdateAPIKeyLastUsed r i) w res w'" and coh: "coherent (tbl w) (live w)"
  shows "coherent (tbl w') (live w') \<and> map hash_row (tbl w') = map hash_row (tbl w)"
proof -
  from run have run': "runs_to (q_UpdateAPIKeyLastUsed q i) w res w'"
    by (simp add: UpdateAPIKeyLastUsed_def r_q)
  show ?thesis
    using touch_effect [OF run'] touch_frame [OF run'] coh
    by (auto simp: coherent_advance coherent_touch hash_row_def)
qed

lemma ListAPIKeysByUser_spec:
  assumes run: "runs_to (ListAPIKeysByUser r uid) w res w'" and coh: "coherent (tbl w) (live w)"
  shows "coherent (tbl w') (live w') \<and> tbl w' = tbl w"
  using list_frame [of uid w res w'] run coh
  by (auto simp: ListAPIKeysByUser_def r_q coherent_advance)

text \<open>A key its owner deleted is never found again, whatever was cached before.\<close>

lemma deleted_key_not_found:
  assumes coh: "coherent (tbl w) (live w)" and k: "k \<in> set (tbl w)"
    and del: "runs_to (DeleteAPIKey r (k_UserID k) (k_ID k)) w (Inr u) w1"
    and get: "runs_to (GetAPIKeyByHash r (k_KeyHash k)) w1 res w2"
  shows "\<exists>e. res = Inl e"
proof -
  from DeleteAPIKey_spec [OF del coh] have
    c1: "coherent (tbl w1) (live w1)" "tbl w1 = remove_key (k_UserID k) (k_ID k) (tbl w)" by auto
  have "k' = k" if "k' \<in> set (tbl w)" "k_KeyHash k' = k_KeyHash k" for k'
    using coh that k by (auto simp: coherent_def keys_wf_def dest: distinct_map_inj)
  with c1(2) have "lookup_hash (tbl w1) (k_KeyHash k) = None"
    by (auto simp: lookup_hash_None)
  with GetAPIKeyByHash_spec [OF get c1(1)] show ?thesis
    by (cases res) auto
qed

end

end
