(* ===== verification/Middleware.thy ===== *)
theory Middleware
  imports Repo
begin

text \<open>
  Package \<open>internal/transport/http/middleware\<close>: the request context with the identity and the
  request id, API-key and JWT authentication and their chain, the Redis rate limiter with its
  server-side script, request ids, access logging and the CORS options. Each middleware maps a
  handler to a handler, as in the code.

  The JWT library and the CORS handler are not part of the repository: they are the arguments
  \<open>jwt\<close> and \<open>cors_Handler\<close>.
\<close>

section \<open>Definitions\<close>

subsection \<open>auth.go\<close>

record Identity =
  id_UserID :: int64
  id_Plan :: string
  id_APIKeyID :: "int64 option"
  id_RateRPM :: "goint option"

text \<open>The two values the service keeps in a request context.\<close>

record req_ctx =
  ctxKeyIdentity :: "Identity option"
  requestIDKey :: "string option"

type_synonym request = "req_ctx http_request"
type_synonym 'w http_handler = "('w, req_ctx) handler"
type_synonym 'w http_middleware = "('w, req_ctx) middleware"

definition IdentityFrom :: "req_ctx \<Rightarrow> Identity option" where
  "IdentityFrom ctx = ctxKeyIdentity ctx"

definition with_identity :: "request \<Rightarrow> Identity \<Rightarrow> request" where
  "with_identity r i = r\<lparr>rq_ctx := (rq_ctx r)\<lparr>ctxKeyIdentity := Some i\<rparr>\<rparr>"

subsection \<open>auth_api_key.go\<close>

definition APIKeyAuth :: "'w env \<Rightarrow> 'w APIKeyRepository \<Rightarrow> 'w UserRepository \<Rightarrow> 'w http_middleware" where
  "APIKeyAuth env apiKeyRepo userRepo next w r =
     (let apiKey = Header_Get (rq_header r) ''X-API-Key'' in
      if apiKey = [] then next w r
      else do {
        res \<leftarrow> akr_GetAPIKeyByHash apiKeyRepo (HashAPIKey apiKey);
        case res of
          Inl err \<Rightarrow>
            if errors_Is err ErrNoRows then go_return (RespondWithError w 401 ''invalid API key'')
            else do {
              log_Printf env (''GetAPIKeyByHash error: '' @ Error err);
              go_return (RespondWithError w 500 ''could not retrieve API key'')
            }
        | Inr apiKeyData \<Rightarrow>
            if \<not> gr_Active apiKeyData then go_return (RespondWithError w 401 ''API key is not active'')
            else do {
              res2 \<leftarrow> usr_GetUserByID userRepo (gr_UserID apiKeyData);
              case res2 of
                Inl err \<Rightarrow> go_return (RespondWithError w 500 ''could not retrieve user'')
              | Inr user \<Rightarrow> do {
                  res3 \<leftarrow> akr_UpdateAPIKeyLastUsed apiKeyRepo (gr_ID apiKeyData);
                  (case res3 of
                     Inl err \<Rightarrow> log_Printf env (''UpdateAPIKeyLastUsed error: '' @ Error err)
                   | Inr _ \<Rightarrow> go_return ());
                  next w (with_identity r
                    \<lparr>id_UserID = ur_ID user, id_Plan = ur_Plan user, id_APIKeyID = Some (gr_ID apiKeyData),
                     id_RateRPM = Some (scast (gr_RateRpm apiKeyData))\<rparr>)
                }
            }
      })"

subsection \<open>auth_jwt.go\<close>

text \<open>
  The JWT library: \<open>jwt_Parse\<close> takes the token and the key function, which sees the signing method
  of the token's header; \<open>tk_claims\<close> is \<open>Some\<close> when the claims are \<open>MapClaims\<close>.
  \<open>jwt_Sign\<close> is \<open>NewWithClaims(SigningMethodHS256, claims).SignedString(secret)\<close>.
\<close>

datatype signing_method = SigningMethodHMAC | OtherSigningMethod string

record jwt_token =
  tk_claims :: "any gomap option"
  tk_valid :: bool

record 'w jwt_lib =
  jwt_Parse :: "string \<Rightarrow> (signing_method \<Rightarrow> bytes result) \<Rightarrow> ('w, jwt_token result) state"
  jwt_Sign :: "any gomap \<Rightarrow> bytes \<Rightarrow> string result"

definition ErrSignatureInvalid :: go_error where
  "ErrSignatureInvalid = ErrorString ''signature is invalid''"

definition jwt_keyfunc :: "bytes \<Rightarrow> signing_method \<Rightarrow> bytes result" where
  "jwt_keyfunc secret m = (case m of SigningMethodHMAC \<Rightarrow> Inr secret | OtherSigningMethod _ \<Rightarrow> Inl ErrSignatureInvalid)"

text \<open>The checked part of the header: \<open>Bearer <token>\<close>, with the scheme in any case.\<close>

definition bearer_token :: "string \<Rightarrow> string option" where
  "bearer_token authHeader =
     (let parts = strings_Split authHeader (CHR '' '')
      in if length parts \<noteq> 2 \<or> strings_ToLower (parts ! 0) \<noteq> ''bearer'' then None else Some (parts ! 1))"

definition claim_user_id :: "any gomap \<Rightarrow> float64 option" where
  "claim_user_id claims =
     (case map_of claims ''user_id'' of Some (AFloat64 x) \<Rightarrow> Some x | _ \<Rightarrow> None)"

definition JWTAuth ::
  "(float64 \<Rightarrow> int64) \<Rightarrow> 'w jwt_lib \<Rightarrow> bytes \<Rightarrow> 'w UserRepository \<Rightarrow> 'w http_middleware" where
  "JWTAuth ovf jwt secret userRepo next w r =
     (if IdentityFrom (rq_ctx r) \<noteq> None then next w r
      else let authHeader = Header_Get (rq_header r) ''Authorization'' in
      if authHeader = [] then next w r
      else case bearer_token authHeader of
        None \<Rightarrow> next w r
      | Some tokenString \<Rightarrow> do {
          res \<leftarrow> jwt_Parse jwt tokenString (jwt_keyfunc secret);
          case res of
            Inl err \<Rightarrow> go_return (RespondWithError w 401 ''invalid token'')
          | Inr token \<Rightarrow>
              if tk_claims token \<noteq> None \<and> tk_valid token then
                case claim_user_id (the (tk_claims token)) of
                  None \<Rightarrow> go_return (RespondWithError w 401 ''invalid token claims'')
                | Some userID \<Rightarrow> do {
                    res2 \<leftarrow> usr_GetUserByID userRepo (f64_to_int64 ovf userID);
                    case res2 of
                      Inl err \<Rightarrow> go_return (RespondWithError w 500 ''could not retrieve user'')
                    | Inr user \<Rightarrow>
                        next w (with_identity r
                          \<lparr>id_UserID = ur_ID user, id_Plan = ur_Plan user, id_APIKeyID = None, id_RateRPM = None\<rparr>)
                  }
              else go_return (RespondWithError w 401 ''invalid token'')
        })"

subsection \<open>auth_chain.go\<close>

definition Chain :: "'w http_middleware list \<Rightarrow> 'w http_middleware" where
  "Chain middlewares next = fold (\<lambda>m n. m n) (rev middlewares) next"

definition finalAuthCheck :: "'w http_middleware" where
  "finalAuthCheck next w r =
     (if IdentityFrom (rq_ctx r) = None then go_return (RespondWithError w 401 ''unauthorized'') else next w r)"

definition AuthEither :: "'w http_middleware \<Rightarrow> 'w http_middleware \<Rightarrow> 'w http_middleware" where
  "AuthEither apiKeyAuth jwtAuth = Chain [apiKeyAuth, jwtAuth, finalAuthCheck]"

subsection \<open>rate_limit.go\<close>

text \<open>The Lua script: \<open>INCR\<close>, and \<open>EXPIRE\<close> on the first increment.\<close>

definition limit_script :: "'w redis_client \<Rightarrow> string \<Rightarrow> int \<Rightarrow> ('w, int result) state" where
  "limit_script rc key ttl = do {
     res \<leftarrow> call_INCR rc key;
     case res of
       Inl e \<Rightarrow> go_return (Inl e)
     | Inr current \<Rightarrow>
         if current = 1 then do {
           res2 \<leftarrow> call_EXPIRE rc key ttl;
           go_return (case res2 of Inl e \<Rightarrow> Inl e | Inr _ \<Rightarrow> Inr current)
         }
         else go_return (Inr current)
   }"

definition limit_for :: "goint \<Rightarrow> Identity \<Rightarrow> goint" where
  "limit_for jwtLimit i =
     (case id_APIKeyID i of
        None \<Rightarrow> jwtLimit
      | Some _ \<Rightarrow> (case id_RateRPM i of None \<Rightarrow> jwtLimit | Some rpm \<Rightarrow> rpm))"

definition identifier_for :: "Identity \<Rightarrow> string" where
  "identifier_for i =
     (case id_APIKeyID i of None \<Rightarrow> ''user:'' @ FormatInt (id_UserID i) | Some k \<Rightarrow> ''apikey:'' @ FormatInt k)"

definition rate_key :: "Identity \<Rightarrow> string \<Rightarrow> int \<Rightarrow> string" where
  "rate_key i endpoint windowStart =
     ''ratelimit:'' @ identifier_for i @ '':'' @ endpoint @ '':'' @ fmt_int windowStart"

text \<open>The response after the counter and the remaining time are known.\<close>

definition limit_decision ::
  "goint \<Rightarrow> goint \<Rightarrow> duration \<Rightarrow> 'w http_middleware" where
  "limit_decision limit current ttl next w r =
     (let remaining = (if sint (limit - current) < 0 then 0 else limit - current);
          w1 = SetHeader ''X-RateLimit-Limit'' (FormatInt limit) w;
          w2 = SetHeader ''X-RateLimit-Remaining'' (FormatInt remaining) w1;
          w3 = SetHeader ''X-RateLimit-Reset'' (FormatInt (int_Seconds ttl)) w2
      in if sint current > sint limit then
           go_return (RespondWithError (SetHeader ''Retry-After'' (FormatInt (int_Seconds ttl)) w3) 429
             ''rate limit exceeded'')
         else next w3 r)"

definition RateLimiter ::
  "'w env \<Rightarrow> 'w redis_client \<Rightarrow> string \<Rightarrow> goint \<Rightarrow> duration \<Rightarrow> 'w http_middleware" where
  "RateLimiter env redisClient endpoint jwtLimit window next w r =
     (case IdentityFrom (rq_ctx r) of
        None \<Rightarrow> go_return (RespondWithError w 500 ''identity not found in context'')
      | Some identity \<Rightarrow> do {
          now \<leftarrow> time_Now env;
          let windowStart = time_Unix (time_Truncate now window);
          let key = rate_key identity endpoint windowStart;
          res \<leftarrow> redis_Run redisClient (limit_script redisClient key (sint (int_Seconds window)));
          case res of
            Inl err \<Rightarrow> go_return (RespondWithError w 500 ''rate limit check failed'')
          | Inr current \<Rightarrow> do {
              res2 \<leftarrow> redis_TTL redisClient key;
              case res2 of
                Inl err \<Rightarrow> go_return (RespondWithError w 500 ''rate limit ttl failed'')
              | Inr ttl \<Rightarrow> limit_decision (limit_for jwtLimit identity) (word_of_int current) ttl next w r
            }
        })"

subsection \<open>request_id.go\<close>

definition RequestID :: "'w env \<Rightarrow> 'w http_middleware" where
  "RequestID env next w r = do {
     requestID \<leftarrow> uuid_New env;
     next (SetHeader ''X-Request-ID'' requestID w) (r\<lparr>rq_ctx := (rq_ctx r)\<lparr>requestIDKey := Some requestID\<rparr>\<rparr>)
   }"

definition GetRequestID :: "req_ctx \<Rightarrow> string option" where
  "GetRequestID ctx = requestIDKey ctx"

subsection \<open>logger.go\<close>

text \<open>
  The wrapped writer reports the status that was committed (0 if none was) and the bytes written
  through it. Field values are given to the logger as text.
\<close>

definition ww_Status :: "response_writer \<Rightarrow> nat" where
  "ww_Status w = (case rw_sent w of None \<Rightarrow> 0 | Some (code, _) \<Rightarrow> code)"

definition Logger :: "'w env \<Rightarrow> 'w http_middleware" where
  "Logger env next w r = do {
     start \<leftarrow> time_Now env;
     w' \<leftarrow> next w r;
     end \<leftarrow> time_Now env;
     zerolog env ''info''
       [(''request_id'', case GetRequestID (rq_ctx r) of None \<Rightarrow> [] | Some i \<Rightarrow> i),
        (''method'', rq_method r), (''path'', rq_path r), (''status'', fmt_nat (ww_Status w')),
        (''latency'', fmt_int (end - start)),
        (''bytes'', fmt_nat (length (rw_body w') - length (rw_body w)))]
       ''request handled'';
     go_return w'
   }"

subsection \<open>cors.go\<close>

record cors_Options =
  AllowedOrigins :: "string list"
  AllowedMethods :: "string list"
  AllowedHeaders :: "string list"
  ExposedHeaders :: "string list"
  AllowCredentials :: bool
  MaxAge :: nat

definition cors_options :: "string list \<Rightarrow> cors_Options" where
  "cors_options allowedOrigins = \<lparr>
     AllowedOrigins = allowedOrigins,
     AllowedMethods = [''GET'', ''POST'', ''PUT'', ''DELETE'', ''OPTIONS''],
     AllowedHeaders = [''Accept'', ''Authorization'', ''Content-Type'', ''X-CSRF-Token'', ''X-API-Key''],
     ExposedHeaders = [''Link''],
     AllowCredentials = True,
     MaxAge = 300\<rparr>"

definition CORS :: "(cors_Options \<Rightarrow> 'w http_middleware) \<Rightarrow> string list \<Rightarrow> 'w http_middleware" where
  "CORS cors_Handler allowedOrigins = cors_Handler (cors_options allowedOrigins)"

end
