(* ===== verification/Client.thy ===== *)
theory Client
  imports Redis
begin

text \<open>
  Package \<open>internal/clients\<close>: the client of the vendor's prediction API. Every call runs inside a
  circuit breaker and counts vendor requests and errors. The breaker (gobreaker), the HTTP client
  (resty), the Prometheus counters and the tracing span are third-party code: records of actions given
  as arguments. The settings the service chooses for them are the definitions at the end of the first
  section, and the JSON decoding of the vendor's answers is modelled field by field.

  The locale \<open>vendor_metrics\<close> states what the client relies on; in it, each call changes the two
  counters in one of exactly three ways.
\<close>

section \<open>Definitions\<close>

subsection \<open>Vendor data\<close>

text \<open>A nil slice is \<open>None\<close>; an absent map is empty.\<close>

record clients_Model =
  cm_Name :: string
  cm_Version :: string
  cm_Stage :: string
  cm_RunID :: string
  cm_SignatureInputs :: "string list option"

record VersionResponse =
  vr_BuildTime :: string
  vr_GitSHA :: string
  vr_MlflowTrackingURI :: string
  vr_LoadedModels :: "clients_Model gomap"

record clients_PredictRequest =
  cq_Model :: string
  cq_Features :: "any gomap"

record PredictMeta =
  pm_ModelName :: string
  pm_ModelVersion :: string
  pm_ModelStage :: string
  pm_RunID :: string
  pm_RequestID :: string
  pm_Timestamp :: string
  pm_LatencyMs :: float64

record PredictResult =
  pt_Prediction :: goint
  pt_Score :: float64
  pt_Threshold :: float64

record clients_PredictResponse =
  cs_Meta :: PredictMeta
  cs_Result :: PredictResult

subsection \<open>Decoding\<close>

abbreviation f64_zero :: float64 where
  "f64_zero \<equiv> Fin False 0"

definition dec_float64 :: "json \<Rightarrow> float64 \<Rightarrow> float64 result" where
  "dec_float64 j old =
     (case j of JNull \<Rightarrow> Inr old
      | JNum s \<Rightarrow> (case ParseFloat s of Some x \<Rightarrow> Inr x | None \<Rightarrow> Inl json_type_error)
      | _ \<Rightarrow> Inl json_type_error)"

fun dec_elems :: "('a \<Rightarrow> 'b result) \<Rightarrow> 'a list \<Rightarrow> 'b list result" where
  "dec_elems f [] = Inr []"
| "dec_elems f (x # xs) = bindR (f x) (\<lambda>y. bindR (dec_elems f xs) (\<lambda>ys. Inr (y # ys)))"

definition dec_strings :: "json \<Rightarrow> string list option \<Rightarrow> string list option result" where
  "dec_strings j old =
     (case j of JNull \<Rightarrow> Inr None
      | JArr xs \<Rightarrow> bindR (dec_elems (\<lambda>x. dec_string x []) xs) (\<lambda>ys. Inr (Some ys))
      | _ \<Rightarrow> Inl json_type_error)"

definition zero_Model :: clients_Model where
  "zero_Model = \<lparr>cm_Name = [], cm_Version = [], cm_Stage = [], cm_RunID = [], cm_SignatureInputs = None\<rparr>"

definition set_Model :: "string \<Rightarrow> json \<Rightarrow> clients_Model \<Rightarrow> clients_Model result" where
  "set_Model n v m =
     (if n = ''name'' then bindR (dec_string v (cm_Name m)) (\<lambda>x. Inr (m\<lparr>cm_Name := x\<rparr>))
      else if n = ''version'' then bindR (dec_string v (cm_Version m)) (\<lambda>x. Inr (m\<lparr>cm_Version := x\<rparr>))
      else if n = ''stage'' then bindR (dec_string v (cm_Stage m)) (\<lambda>x. Inr (m\<lparr>cm_Stage := x\<rparr>))
      else if n = ''run_id'' then bindR (dec_string v (cm_RunID m)) (\<lambda>x. Inr (m\<lparr>cm_RunID := x\<rparr>))
      else bindR (dec_strings v (cm_SignatureInputs m)) (\<lambda>x. Inr (m\<lparr>cm_SignatureInputs := x\<rparr>)))"

definition dec_Model :: "json \<Rightarrow> clients_Model result" where
  "dec_Model j =
     decode_struct [''name'', ''version'', ''stage'', ''run_id'', ''signature_inputs''] set_Model j zero_Model"

fun dec_model_members :: "(string \<times> json) list \<Rightarrow> clients_Model gomap \<Rightarrow> clients_Model gomap result" where
  "dec_model_members [] m = Inr m"
| "dec_model_members ((k, v) # kvs) m =
     bindR (dec_Model v) (\<lambda>x. dec_model_members kvs (AList.update k x m))"

definition dec_models :: "json \<Rightarrow> clients_Model gomap \<Rightarrow> clients_Model gomap result" where
  "dec_models j old =
     (case j of JNull \<Rightarrow> Inr [] | JObj kvs \<Rightarrow> dec_model_members kvs old | _ \<Rightarrow> Inl json_type_error)"

definition zero_VersionResponse :: VersionResponse where
  "zero_VersionResponse = \<lparr>vr_BuildTime = [], vr_GitSHA = [], vr_MlflowTrackingURI = [], vr_LoadedModels = []\<rparr>"

definition set_VersionResponse :: "string \<Rightarrow> json \<Rightarrow> VersionResponse \<Rightarrow> VersionResponse result" where
  "set_VersionResponse n v r =
     (if n = ''build_time'' then bindR (dec_string v (vr_BuildTime r)) (\<lambda>x. Inr (r\<lparr>vr_BuildTime := x\<rparr>))
      else if n = ''git_sha'' then bindR (dec_string v (vr_GitSHA r)) (\<lambda>x. Inr (r\<lparr>vr_GitSHA := x\<rparr>))
      else if n = ''mlflow_tracking_uri'' then bindR (dec_string v (vr_MlflowTrackingURI r)) (\<lambda>x. Inr (r\<lparr>vr_MlflowTrackingURI := x\<rparr>))
      else bindR (dec_models v (vr_LoadedModels r)) (\<lambda>x. Inr (r\<lparr>vr_LoadedModels := x\<rparr>)))"

definition dec_VersionResponse :: "json \<Rightarrow> VersionResponse result" where
  "dec_VersionResponse j =
     decode_struct [''build_time'', ''git_sha'', ''mlflow_tracking_uri'', ''loaded_models''] set_VersionResponse j
       zero_VersionResponse"

definition set_PredictMeta :: "string \<Rightarrow> json \<Rightarrow> PredictMeta \<Rightarrow> PredictMeta result" where
  "set_PredictMeta n v m =
     (if n = ''model_name'' then bindR (dec_string v (pm_ModelName m)) (\<lambda>x. Inr (m\<lparr>pm_ModelName := x\<rparr>))
      else if n = ''model_version'' then bindR (dec_string v (pm_ModelVersion m)) (\<lambda>x. Inr (m\<lparr>pm_ModelVersion := x\<rparr>))
      else if n = ''model_stage'' then bindR (dec_string v (pm_ModelStage m)) (\<lambda>x. Inr (m\<lparr>pm_ModelStage := x\<rparr>))
      else if n = ''run_id'' then bindR (dec_string v (pm_RunID m)) (\<lambda>x. Inr (m\<lparr>pm_RunID := x\<rparr>))
      else if n = ''request_id'' then bindR (dec_string v (pm_RequestID m)) (\<lambda>x. Inr (m\<lparr>pm_RequestID := x\<rparr>))
      else if n = ''timestamp'' then bindR (dec_string v (pm_Timestamp m)) (\<lambda>x. Inr (m\<lparr>pm_Timestamp := x\<rparr>))
      else bindR (dec_float64 v (pm_LatencyMs m)) (\<lambda>x. Inr (m\<lparr>pm_LatencyMs := x\<rparr>)))"

definition set_PredictResult :: "string \<Rightarrow> json \<Rightarrow> PredictResult \<Rightarrow> PredictResult result" where
  "set_PredictResult n v r =
     (if n = ''prediction'' then bindR (dec_int64 v (pt_Prediction r)) (\<lambda>x. Inr (r\<lparr>pt_Prediction := x\<rparr>))
      else if n = ''score'' then bindR (dec_float64 v (pt_Score r)) (\<lambda>x. Inr (r\<lparr>pt_Score := x\<rparr>))
      else bindR (dec_float64 v (pt_Threshold r)) (\<lambda>x. Inr (r\<lparr>pt_Threshold := x\<rparr>)))"

definition zero_PredictResponse :: clients_PredictResponse where
  "zero_PredictResponse =
     \<lparr>cs_Meta = \<lparr>pm_ModelName = [], pm_ModelVersion = [], pm_ModelStage = [], pm_RunID = [], pm_RequestID = [],
                  pm_Timestamp = [], pm_LatencyMs = f64_zero\<rparr>,
      cs_Result = \<lparr>pt_Prediction = 0, pt_Score = f64_zero, pt_Threshold = f64_zero\<rparr>\<rparr>"

definition set_PredictResponse :: "string \<Rightarrow> json \<Rightarrow> clients_PredictResponse \<Rightarrow> clients_PredictResponse result" where
  "set_PredictResponse n v r =
     (if n = ''meta'' then
        bindR (decode_struct [''model_name'', ''model_version'', ''model_stage'', ''run_id'', ''request_id'', ''timestamp'',
                 ''latency_ms''] set_PredictMeta v (cs_Meta r)) (\<lambda>x. Inr (r\<lparr>cs_Meta := x\<rparr>))
      else bindR (decode_struct [''prediction'', ''score'', ''threshold''] set_PredictResult v (cs_Result r))
             (\<lambda>x. Inr (r\<lparr>cs_Result := x\<rparr>)))"

definition dec_PredictResponse :: "json \<Rightarrow> clients_PredictResponse result" where
  "dec_PredictResponse j = decode_struct [''meta'', ''result''] set_PredictResponse j zero_PredictResponse"

subsection \<open>Third-party handles\<close>

text \<open>
  A resty response: \<open>rsp_parsed\<close> says whether resty decodes the body into the result set by
  \<open>SetResult\<close>, which it does for a 2xx answer of a JSON content type.
\<close>

record resty_response =
  rsp_StatusCode :: nat
  rsp_String :: bytes
  rsp_parsed :: bool

record 'w resty_client =
  resty_Get :: "string \<Rightarrow> ('w, resty_response result) state"
  resty_Post :: "string \<Rightarrow> bytes \<Rightarrow> ('w, resty_response result) state"

text \<open>What a guarded call returns (an \<open>interface{}\<close>): a string or one of the two result pointers.\<close>

datatype vendor_body = BString string | BVersion VersionResponse | BPredict clients_PredictResponse

record 'w breaker =
  cb_Execute :: "('w, vendor_body result) state \<Rightarrow> ('w, vendor_body result) state"

record 'w telemetry =
  vendorRequestsTotal_Inc :: "'w proc"
  vendorErrorsTotal_Inc :: "'w proc"
  span_Start :: "string \<Rightarrow> 'w proc"
  span_RecordError :: "go_error \<Rightarrow> 'w proc"
  span_SetStatus :: "string \<Rightarrow> 'w proc"
  span_SetAttributes :: "string \<Rightarrow> nat \<Rightarrow> 'w proc"
  span_End :: "'w proc"

record 'w ThirdPartyClient =
  tp_client :: "'w resty_client"
  tp_cb :: "'w breaker"

subsection \<open>NewThirdPartyClient\<close>

record resty_settings =
  rs_BaseURL :: string
  rs_AuthToken :: string
  rs_Timeout :: duration
  rs_RetryCount :: nat
  rs_RetryWaitTime :: duration
  rs_RetryMaxWaitTime :: duration
  rs_RetryCondition :: "nat \<Rightarrow> bool"

abbreviation millisecond :: int where
  "millisecond \<equiv> 1000000"

definition resty_settings_for :: "string \<Rightarrow> string \<Rightarrow> resty_settings" where
  "resty_settings_for baseURL token = \<lparr>
     rs_BaseURL = baseURL, rs_AuthToken = token, rs_Timeout = 3 * second, rs_RetryCount = 3,
     rs_RetryWaitTime = 50 * millisecond, rs_RetryMaxWaitTime = 2 * second,
     rs_RetryCondition = (\<lambda>status. 500 \<le> status)\<rparr>"

text \<open>\<open>OnStateChange\<close> receives the breaker's name and the texts of the two states.\<close>

record 'w breaker_settings =
  st_Name :: string
  st_MaxRequests :: "32 word"
  st_Interval :: duration
  st_Timeout :: duration
  st_ReadyToTrip :: "32 word \<Rightarrow> bool"   \<comment> \<open>a predicate on \<open>counts.ConsecutiveFailures\<close>\<close>
  st_OnStateChange :: "string \<Rightarrow> string \<Rightarrow> string \<Rightarrow> 'w proc"

definition third_party_breaker :: "'w env \<Rightarrow> 'w breaker_settings" where
  "third_party_breaker env = \<lparr>
     st_Name = ''third-party-api'', st_MaxRequests = 1, st_Interval = 10 * second, st_Timeout = 5 * second,
     st_ReadyToTrip = (\<lambda>failures. 5 < failures),
     st_OnStateChange = (\<lambda>name from to. zerolog env ''info''
       [(''circuit_breaker'', name), (''from'', from), (''to'', to)] ''circuit breaker state changed'')\<rparr>"

definition NewThirdPartyClient ::
  "'w env \<Rightarrow> (resty_settings \<Rightarrow> 'w resty_client) \<Rightarrow> ('w breaker_settings \<Rightarrow> 'w breaker) \<Rightarrow> string \<Rightarrow> string \<Rightarrow>
   'w ThirdPartyClient" where
  "NewThirdPartyClient env resty_New NewCircuitBreaker baseURL token = \<lparr>
     tp_client = resty_New (resty_settings_for baseURL token),
     tp_cb = NewCircuitBreaker (third_party_breaker env)\<rparr>"

subsection \<open>Calls\<close>

definition vendor_status_error :: go_error where
  "vendor_status_error = ErrorString ''vendor API returned non-200 status''"

definition type_assertion_panic :: go_error where
  "type_assertion_panic = ErrorString ''interface conversion: unexpected dynamic type''"

text \<open>The error branches of all three calls: count, record, report.\<close>

definition vendor_error :: "'w telemetry \<Rightarrow> go_error \<Rightarrow> ('w, 'a result) state" where
  "vendor_error m err = do {
     vendorErrorsTotal_Inc m;
     span_RecordError m err;
     span_SetStatus m (Error err);
     go_return (Inl err)
   }"

text \<open>\<open>SetResult\<close>: the decoded body, or the zero value when resty does not decode it.\<close>

definition resty_result :: "(json \<Rightarrow> 'a result) \<Rightarrow> 'a \<Rightarrow> resty_response \<Rightarrow> 'a result" where
  "resty_result dec zero resp =
     (if rsp_parsed resp then bindR (Unmarshal (rsp_String resp)) dec else Inr zero)"

definition Client_Ping :: "'w telemetry \<Rightarrow> 'w ThirdPartyClient \<Rightarrow> ('w, string result) state" where
  "Client_Ping m c = do {
     span_Start m ''ThirdPartyClient.Ping'';
     body \<leftarrow> cb_Execute (tp_cb c) (do {
       vendorRequestsTotal_Inc m;
       res \<leftarrow> resty_Get (tp_client c) ''/readyz'';
       case res of
         Inl err \<Rightarrow> vendor_error m err
       | Inr resp \<Rightarrow>
           if rsp_StatusCode resp \<noteq> 200 then vendor_error m vendor_status_error
           else do {
             span_SetAttributes m ''http.status_code'' (rsp_StatusCode resp);
             go_return (Inr (BString (rsp_String resp)))
           }
     });
     span_End m;
     go_return (case body of Inl err \<Rightarrow> Inl err | Inr (BString s) \<Rightarrow> Inr s | Inr _ \<Rightarrow> Inl type_assertion_panic)
   }"

definition Client_Version :: "'w telemetry \<Rightarrow> 'w ThirdPartyClient \<Rightarrow> ('w, VersionResponse result) state" where
  "Client_Version m c = do {
     span_Start m ''ThirdPartyClient.Version'';
     body \<leftarrow> cb_Execute (tp_cb c) (do {
       vendorRequestsTotal_Inc m;
       res \<leftarrow> resty_Get (tp_client c) ''/v1/version'';
       case res of
         Inl err \<Rightarrow> vendor_error m err
       | Inr resp \<Rightarrow>
           (case resty_result dec_VersionResponse zero_VersionResponse resp of
              Inl err \<Rightarrow> vendor_error m err
            | Inr result \<Rightarrow>
                if rsp_StatusCode resp \<noteq> 200 then vendor_error m vendor_status_error
                else do {
                  span_SetAttributes m ''http.status_code'' (rsp_StatusCode resp);
                  go_return (Inr (BVersion result))
                })
     });
     span_End m;
     go_return (case body of Inl err \<Rightarrow> Inl err | Inr (BVersion v) \<Rightarrow> Inr v | Inr _ \<Rightarrow> Inl type_assertion_panic)
   }"

text \<open>The request body; \<open>None\<close> when a feature cannot be marshalled.\<close>

definition predict_body :: "clients_PredictRequest \<Rightarrow> bytes option" where
  "predict_body req =
     map_option (\<lambda>f. json_print (JObj [(''model'', JStr (cq_Model req)), (''features'', f)]))
       (any_json (AMap (cq_Features req)))"

definition json_unsupported_value :: go_error where
  "json_unsupported_value = ErrorString ''json: unsupported value''"

definition Client_Predict ::
  "'w telemetry \<Rightarrow> 'w ThirdPartyClient \<Rightarrow> clients_PredictRequest \<Rightarrow> ('w, clients_PredictResponse result) state" where
  "Client_Predict m c req = do {
     span_Start m ''ThirdPartyClient.Predict'';
     body \<leftarrow> cb_Execute (tp_cb c) (do {
       vendorRequestsTotal_Inc m;
       res \<leftarrow> (case predict_body req of
           None \<Rightarrow> go_return (Inl json_unsupported_value)
         | Some bs \<Rightarrow> resty_Post (tp_client c) ''/v1/predict'' bs);
       case res of
         Inl err \<Rightarrow> vendor_error m err
       | Inr resp \<Rightarrow>
           (case resty_result dec_PredictResponse zero_PredictResponse resp of
              Inl err \<Rightarrow> vendor_error m err
            | Inr result \<Rightarrow>
                if rsp_StatusCode resp \<noteq> 200 then vendor_error m vendor_status_error
                else do {
                  span_SetAttributes m ''http.status_code'' (rsp_StatusCode resp);
                  go_return (Inr (BPredict result))
                })
     });
     span_End m;
     go_return (case body of Inl err \<Rightarrow> Inl err | Inr (BPredict r) \<Rightarrow> Inr r | Inr _ \<Rightarrow> Inl type_assertion_panic)
   }"

section \<open>Counting requests and errors\<close>

text \<open>The three effects of a call through the breaker on the two counters.\<close>

definition vendor_outcome :: "('w \<Rightarrow> nat) \<Rightarrow> ('w \<Rightarrow> nat) \<Rightarrow> 'w \<Rightarrow> 'a result \<Rightarrow> 'w \<Rightarrow> bool" where
  "vendor_outcome reqs errs w res w' \<longleftrightarrow>
     (case res of
        Inl e \<Rightarrow> (reqs w' = reqs w \<and> errs w' = errs w) \<or> (reqs w' = reqs w + 1 \<and> errs w' = errs w + 1)
      | Inr x \<Rightarrow> reqs w' = reqs w + 1 \<and> errs w' = errs w)"

locale vendor_metrics =
  fixes m :: "'w telemetry"
    and c :: "'w ThirdPartyClient"
    and reqs :: "'w \<Rightarrow> nat"
    and errs :: "'w \<Rightarrow> nat"
  assumes req_inc: "runs_to (vendorRequestsTotal_Inc m) w u w' \<Longrightarrow> reqs w' = reqs w + 1 \<and> errs w' = errs w"
    and err_inc: "runs_to (vendorErrorsTotal_Inc m) w u w' \<Longrightarrow> reqs w' = reqs w \<and> errs w' = errs w + 1"
    and span_start: "runs_to (span_Start m n) w u w' \<Longrightarrow> reqs w' = reqs w \<and> errs w' = errs w"
    and span_record: "runs_to (span_RecordError m e) w u w' \<Longrightarrow> reqs w' = reqs w \<and> errs w' = errs w"
    and span_status: "runs_to (span_SetStatus m n) w u w' \<Longrightarrow> reqs w' = reqs w \<and> errs w' = errs w"
    and span_attr: "runs_to (span_SetAttributes m n v) w u w' \<Longrightarrow> reqs w' = reqs w \<and> errs w' = errs w"
    and span_end: "runs_to (span_End m) w u w' \<Longrightarrow> reqs w' = reqs w \<and> errs w' = errs w"
    and get_frame: "runs_to (resty_Get (tp_client c) p) w rg w' \<Longrightarrow> reqs w' = reqs w \<and> errs w' = errs w"
    and post_frame: "runs_to (resty_Post (tp_client c) p bs) w rg w' \<Longrightarrow> reqs w' = reqs w \<and> errs w' = errs w"
    and execute: "runs_to (cb_Execute (tp_cb c) b) w r w' \<Longrightarrow>
        (\<exists>w1 w2. reqs w1 = reqs w \<and> errs w1 = errs w \<and> runs_to b w1 r w2 \<and> reqs w' = reqs w2 \<and> errs w' = errs w2)
        \<or> ((\<exists>e. r = Inl e) \<and> reqs w' = reqs w \<and> errs w' = errs w)"
begin

lemma vendor_error_spec:
  "runs_to (vendor_error m e) w r w' \<Longrightarrow> r = Inl e \<and> reqs w' = reqs w \<and> errs w' = errs w + 1"
  by (auto simp: vendor_error_def runs_to_bind dest!: err_inc span_record span_status)

text \<open>What the guarded part of each call does to the counters.\<close>

definition counted_call :: "('w, 'a result) state \<Rightarrow> bool" where
  "counted_call b \<longleftrightarrow> (\<forall>w r w'. runs_to b w r w' \<longrightarrow>
     reqs w' = reqs w + 1 \<and> errs w' = errs w + (case r of Inl e \<Rightarrow> 1 | Inr x \<Rightarrow> 0))"

lemma counted_ping:
  "counted_call (do {
       vendorRequestsTotal_Inc m;
       res \<leftarrow> resty_Get (tp_client c) p;
       case res of
         Inl err \<Rightarrow> vendor_error m err
       | Inr resp \<Rightarrow>
           if rsp_StatusCode resp \<noteq> 200 then vendor_error m vendor_status_error
           else do {
             span_SetAttributes m ''http.status_code'' (rsp_StatusCode resp);
             go_return (Inr (f resp))
           }
     })"
  by (auto simp: counted_call_def go_run dest!: req_inc get_frame vendor_error_spec span_attr)

lemma counted_decoded:
  assumes "\<And>w r w'. runs_to call w r w' \<Longrightarrow> reqs w' = reqs w \<and> errs w' = errs w"
  shows "counted_call (do {
       vendorRequestsTotal_Inc m;
       res \<leftarrow> call;
       case res of
         Inl err \<Rightarrow> vendor_error m err
       | Inr resp \<Rightarrow>
           (case resty_result dec zero resp of
              Inl err \<Rightarrow> vendor_error m err
            | Inr result \<Rightarrow>
                if rsp_StatusCode resp \<noteq> 200 then vendor_error m vendor_status_error
                else do {
                  span_SetAttributes m ''http.status_code'' (rsp_StatusCode resp);
                  go_return (Inr (f result))
                })
     })"
  by (auto simp: counted_call_def go_run dest!: req_inc assms vendor_error_spec span_attr)

lemma guarded_outcome:
  assumes run: "runs_to (do { span_Start m n; body \<leftarrow> cb_Execute (tp_cb c) b; span_End m; go_return (g body) }) w res w'"
    and b: "counted_call b"
    and g: "\<And>e. g (Inl e) = Inl e" "\<And>x w1 w2. runs_to b w1 (Inr x) w2 \<Longrightarrow> \<exists>y. g (Inr x) = Inr y"
  shows "vendor_outcome reqs errs w res w'"
proof -
  from run obtain w1 body w2 where
    s: "runs_to (span_Start m n) w () w1" and x: "runs_to (cb_Execute (tp_cb c) b) w1 body w2" and
    e: "runs_to (span_End m) w2 () w'" and res: "res = g body"
    by (auto simp: runs_to_bind)
  note frame = span_start [OF s] span_end [OF e]
  from execute [OF x] show ?thesis
  proof
    assume "\<exists>v1 v2. reqs v1 = reqs w1 \<and> errs v1 = errs w1 \<and> runs_to b v1 body v2 \<and> reqs w2 = reqs v2 \<and> errs w2 = errs v2"
    then obtain v1 v2 where v: "reqs v1 = reqs w1" "errs v1 = errs w1" "runs_to b v1 body v2" "reqs w2 = reqs v2" "errs w2 = errs v2"
      by blast
    with b have "reqs v2 = reqs v1 + 1 \<and> errs v2 = errs v1 + (case body of Inl e \<Rightarrow> 1 | Inr x \<Rightarrow> 0)"
      by (simp add: counted_call_def)
    with v frame res g show ?thesis by (cases body) (fastforce simp: vendor_outcome_def)+
  next
    assume "(\<exists>e. body = Inl e) \<and> reqs w2 = reqs w1 \<and> errs w2 = errs w1"
    with frame res g show ?thesis by (auto simp: vendor_outcome_def)
  qed
qed

lemma Client_Ping_outcome: "runs_to (Client_Ping m c) w res w' \<Longrightarrow> vendor_outcome reqs errs w res w'"
  unfolding Client_Ping_def
  by (erule guarded_outcome [OF _ counted_ping])
    (auto simp: go_run vendor_error_def split: vendor_body.splits)

lemma Client_Version_outcome: "runs_to (Client_Version m c) w res w' \<Longrightarrow> vendor_outcome reqs errs w res w'"
  unfolding Client_Version_def
  by (erule guarded_outcome [OF _ counted_decoded [OF get_frame]])
    (auto simp: go_run vendor_error_def split: vendor_body.splits)

lemma Client_Predict_outcome: "runs_to (Client_Predict m c req) w res w' \<Longrightarrow> vendor_outcome reqs errs w res w'"
  unfolding Client_Predict_def
  by (erule guarded_outcome [OF _ counted_decoded])
    (auto simp: go_run vendor_error_def split: vendor_body.splits option.splits dest: post_frame)

end

end
