(* ===== verification/World.thy ===== *)
theory World
  imports Repo Client
begin

text \<open>
  A reference environment: PostgreSQL as the schema of \<open>migrations/\<close> makes it behave on the
  eleven statements of \<open>internal/db\<close> (keys, uniqueness, foreign keys, NOT NULL, JSONB, case-insensitive
  e-mail), Redis with expiring keys, a vendor with scripted answers behind a circuit breaker, a clock, a
  random source and a log. Both servers can be told to
  fail at chosen calls, and time can pass between calls. It is not part of the service: it shows that
  the contracts the repository proofs rely on can be met, and gives the witnesses something to run on.
\<close>

section \<open>State\<close>

record world =
  w_users :: "User list"
  w_keys :: "ApiKey list"
  w_logs :: "InferenceLog list"
  w_next_user :: int
  w_next_key :: int
  w_next_log :: int
  w_redis :: keyspace
  w_clock :: time
  w_delays :: "nat list"
  w_pg_faults :: "string option list"
  w_redis_faults :: "string option list"
  w_random :: "bytes list"
  w_log :: "string list"
  w_vendor_requests :: nat
  w_vendor_errors :: nat
  w_vendor_failures :: nat
  w_vendor_answers :: "resty_response result list"
  w_vendor_sent :: "(string \<times> bytes) list"

definition world0 :: world where
  "world0 = \<lparr>w_users = [], w_keys = [], w_logs = [], w_next_user = 1, w_next_key = 1, w_next_log = 1,
     w_redis = Map.empty, w_clock = 0, w_delays = [], w_pg_faults = [], w_redis_faults = [],
     w_random = [], w_log = [],
     w_vendor_requests = 0, w_vendor_errors = 0, w_vendor_failures = 0, w_vendor_answers = [], w_vendor_sent = []\<rparr>"

text \<open>One registered user.\<close>

definition user1 :: User where
  "user1 = \<lparr>u_ID = 1, u_Email = ''ada@example.com'', u_PasswordHash = ''x'', u_Plan = ''free'',
     u_CreatedAt = 0, u_UpdatedAt = 0, u_Name = ''Ada''\<rparr>"

definition world1 :: world where
  "world1 = world0\<lparr>w_users := [user1], w_next_user := 2\<rparr>"

definition w_live :: "world \<Rightarrow> keyspace" where
  "w_live w = advance (w_clock w) (w_redis w)"

text \<open>Every external call first lets the next delay pass.\<close>

definition tick :: "world \<Rightarrow> world" where
  "tick w = (case w_delays w of [] \<Rightarrow> w | d # ds \<Rightarrow> w\<lparr>w_delays := ds, w_clock := w_clock w + int d\<rparr>)"

section \<open>PostgreSQL\<close>

definition pg_unique :: "string \<Rightarrow> go_error" where
  "pg_unique c = PgError UniqueViolation (''ERROR: duplicate key value violates unique constraint '' @ c @ '' (SQLSTATE 23505)'')"

definition pg_foreign :: go_error where
  "pg_foreign = PgError ''23503'' ''ERROR: insert or update violates foreign key constraint (SQLSTATE 23503)''"

definition pg_not_null :: go_error where
  "pg_not_null = PgError ''23502'' ''ERROR: null value violates not-null constraint (SQLSTATE 23502)''"

definition pg_invalid_json :: go_error where
  "pg_invalid_json = PgError ''22P02'' ''ERROR: invalid input syntax for type json (SQLSTATE 22P02)''"

definition pg_sequence :: go_error where
  "pg_sequence = PgError ''2200H'' ''ERROR: nextval: reached maximum value of sequence (SQLSTATE 2200H)''"

definition pg_bad_statement :: go_error where
  "pg_bad_statement = PgError ''42601'' ''ERROR: syntax error (SQLSTATE 42601)''"

definition insert_key :: "int \<Rightarrow> bytes \<Rightarrow> string option \<Rightarrow> int \<Rightarrow> world \<Rightarrow> sqlval list result \<times> world" where
  "insert_key u h l rpm w =
     (let i = w_next_key w; w1 = w\<lparr>w_next_key := i + 1\<rparr>;
          k = \<lparr>k_ID = word_of_int i, k_UserID = word_of_int u, k_KeyHash = h, k_Label = l, k_Active = True,
               k_RateRpm = word_of_int rpm, k_LastUsedAt = None, k_CreatedAt = w_clock w\<rparr>
      in if \<not> (0 < i \<and> i < 2 ^ 63) then (Inl pg_sequence, w)
         else if k_ID k \<in> k_ID ` set (w_keys w) then (Inl (pg_unique ''api_keys_pkey''), w1)
         else if l \<noteq> None \<and> (\<exists>k'\<in>set (w_keys w). k_UserID k' = k_UserID k \<and> k_Label k' = l)
           then (Inl (pg_unique ''api_keys_user_id_label_key''), w1)
         else if k_UserID k \<notin> u_ID ` set (w_users w) then (Inl pg_foreign, w1)
         else (Inr [VInt (sint (k_ID k)), VInt (sint (k_UserID k)), nullable VText l, VBool True,
                    VInt (sint (k_RateRpm k)), VTime (k_CreatedAt k)],
               w1\<lparr>w_keys := w_keys w @ [k]\<rparr>))"

definition citext_eq :: "string \<Rightarrow> string \<Rightarrow> bool" where
  "citext_eq a b \<longleftrightarrow> strings_ToLower a = strings_ToLower b"

definition user_columns :: "User \<Rightarrow> sqlval list" where
  "user_columns u = [VInt (sint (u_ID u)), VText (u_Name u), VText (u_Email u), VText (u_Plan u),
     VTime (u_CreatedAt u), VTime (u_UpdatedAt u)]"

definition insert_user :: "string \<Rightarrow> string \<Rightarrow> string \<Rightarrow> string \<Rightarrow> world \<Rightarrow> sqlval list result \<times> world" where
  "insert_user n e h p w =
     (let i = w_next_user w; w1 = w\<lparr>w_next_user := i + 1\<rparr>;
          u = \<lparr>u_ID = word_of_int i, u_Email = e, u_PasswordHash = h, u_Plan = p, u_CreatedAt = w_clock w,
               u_UpdatedAt = w_clock w, u_Name = n\<rparr>
      in if \<not> (0 < i \<and> i < 2 ^ 63) then (Inl pg_sequence, w)
         else if u_ID u \<in> u_ID ` set (w_users w) then (Inl (pg_unique ''users_pkey''), w1)
         else if \<exists>u'\<in>set (w_users w). citext_eq (u_Email u') e then (Inl (pg_unique ''users_email_key''), w1)
         else (Inr (user_columns u), w1\<lparr>w_users := w_users w @ [u]\<rparr>))"

definition first_row :: "('a \<Rightarrow> sqlval list) \<Rightarrow> 'a option \<Rightarrow> sqlval list result" where
  "first_row f x = (case x of None \<Rightarrow> Inl ErrNoRows | Some a \<Rightarrow> Inr (f a))"

definition query_row :: "string \<Rightarrow> sqlval list \<Rightarrow> world \<Rightarrow> sqlval list result \<times> world" where
  "query_row sql args w =
     (if sql = createAPIKey then
        (case args of [VInt u, VBytes h, l, VInt rpm] \<Rightarrow>
            (case scan_NullString l of Inl e \<Rightarrow> (Inl e, w) | Inr l' \<Rightarrow> insert_key u h l' rpm w)
          | _ \<Rightarrow> (Inl pg_bad_statement, w))
      else if sql = getAPIKeyByHash then
        (case args of [VBytes h] \<Rightarrow>
            (first_row (\<lambda>k. [VInt (sint (k_ID k)), VInt (sint (k_UserID k)), VBytes (k_KeyHash k),
                             VBool (k_Active k), VInt (sint (k_RateRpm k))])
               (find (\<lambda>k. k_KeyHash k = h) (w_keys w)), w)
          | _ \<Rightarrow> (Inl pg_bad_statement, w))
      else if sql = createUser then
        (case args of [VText n, VText e, VText h, VText p] \<Rightarrow> insert_user n e h p w
          | _ \<Rightarrow> (Inl pg_bad_statement, w))
      else if sql = getUserByEmail then
        (case args of [VText e] \<Rightarrow> (first_row user_columns (find (\<lambda>u. citext_eq (u_Email u) e) (w_users w)), w)
          | _ \<Rightarrow> (Inl pg_bad_statement, w))
      else if sql = getUserByEmailForLogin then
        (case args of [VText e] \<Rightarrow>
            (first_row (\<lambda>u. [VInt (sint (u_ID u)), VText (u_Name u), VText (u_Email u), VText (u_PasswordHash u),
                             VText (u_Plan u), VTime (u_CreatedAt u), VTime (u_UpdatedAt u)])
               (find (\<lambda>u. citext_eq (u_Email u) e) (w_users w)), w)
          | _ \<Rightarrow> (Inl pg_bad_statement, w))
      else if sql = getUserByID then
        (case args of [VInt i] \<Rightarrow> (first_row user_columns (find (\<lambda>u. sint (u_ID u) = i) (w_users w)), w)
          | _ \<Rightarrow> (Inl pg_bad_statement, w))
      else (Inl pg_bad_statement, w))"

definition query_rows :: "string \<Rightarrow> sqlval list \<Rightarrow> world \<Rightarrow> rows result" where
  "query_rows sql args w =
     (let answer = (\<lambda>d. Inr \<lparr>rows_data = d, rows_close = None, rows_err = None\<rparr>) in
      if sql = listAPIKeysByUser then
        (case args of [VInt u] \<Rightarrow>
            answer (map (\<lambda>k. [VInt (sint (k_ID k)), nullable VText (k_Label k), VBytes (k_KeyHash k),
                              VBool (k_Active k), VInt (sint (k_RateRpm k)), nullable VTime (k_LastUsedAt k),
                              VTime (k_CreatedAt k)])
                     (filter (\<lambda>k. sint (k_UserID k) = u \<and> k_Active k) (w_keys w)))
          | _ \<Rightarrow> Inl pg_bad_statement)
      else if sql = listUsersPaged then
        (case args of [VInt i, VInt n] \<Rightarrow>
            answer (map (\<lambda>u. [VInt (sint (u_ID u)), VText (u_Email u), VText (u_Plan u), VTime (u_CreatedAt u)])
                     (take (nat n) (sort_key (\<lambda>u. sint (u_ID u)) (filter (\<lambda>u. i < sint (u_ID u)) (w_users w)))))
          | _ \<Rightarrow> Inl pg_bad_statement)
      else Inl pg_bad_statement)"

definition invalid_json :: "bytes option \<Rightarrow> bool" where
  "invalid_json x = (case x of None \<Rightarrow> False | Some p \<Rightarrow> json_parse p = None)"

definition insert_log ::
  "int \<Rightarrow> int64 option \<Rightarrow> bytes option \<Rightarrow> bytes option \<Rightarrow> string option \<Rightarrow> time \<Rightarrow> time \<Rightarrow> world \<Rightarrow> unit result \<times> world" where
  "insert_log u kid req resp err t1 t2 w =
     (let i = w_next_log w; w1 = w\<lparr>w_next_log := i + 1\<rparr>;
          l = \<lparr>l_ID = word_of_int i, l_UserID = word_of_int u, l_ApiKeyID = kid, l_RequestPayload = req,
               l_ResponsePayload = resp, l_Error = err, l_RequestTime = t1, l_ResponseTime = t2,
               l_CreatedAt = w_clock w\<rparr>
      in if \<not> (0 < i \<and> i < 2 ^ 63) then (Inl pg_sequence, w)
         else if invalid_json req \<or> invalid_json resp
           then (Inl pg_invalid_json, w)
         else if req = None then (Inl pg_not_null, w1)
         else if l_UserID l \<notin> u_ID ` set (w_users w) then (Inl pg_foreign, w1)
         else if kid \<noteq> None \<and> the kid \<notin> k_ID ` set (w_keys w) then (Inl pg_foreign, w1)
         else (Inr (), w1\<lparr>w_logs := w_logs w @ [l]\<rparr>))"

definition scan_NullInt64 :: "sqlval \<Rightarrow> int64 option result" where
  "scan_NullInt64 v = (case v of VNull \<Rightarrow> Inr None | _ \<Rightarrow> map_sum id Some (scan_int64 v))"

definition scan_NullJson :: "sqlval \<Rightarrow> bytes option result" where
  "scan_NullJson v = (case v of VNull \<Rightarrow> Inr None | VJson b \<Rightarrow> Inr (Some b) | _ \<Rightarrow> Inl scan_error)"

text \<open>
  Deleting a key removes the row and sets \<open>inference_logs.api_key_id\<close> of its log entries to NULL
  (migration 0005).
\<close>

definition exec :: "string \<Rightarrow> sqlval list \<Rightarrow> world \<Rightarrow> unit result \<times> world" where
  "exec sql args w =
     (if sql = deleteAPIKey then
        (case args of [VInt u, VInt i] \<Rightarrow>
            (let gone = (\<lambda>k. sint (k_UserID k) = u \<and> sint (k_ID k) = i);
                 ids = k_ID ` set (filter gone (w_keys w))
             in (Inr (), w\<lparr>w_keys := filter (\<lambda>k. \<not> gone k) (w_keys w),
                           w_logs := map (\<lambda>l. if l_ApiKeyID l \<in> Some ` ids then l\<lparr>l_ApiKeyID := None\<rparr> else l)
                                      (w_logs w)\<rparr>))
          | _ \<Rightarrow> (Inl pg_bad_statement, w))
      else if sql = updateAPIKeyLastUsed then
        (case args of [VInt i] \<Rightarrow>
            (Inr (), w\<lparr>w_keys := map (\<lambda>k. if sint (k_ID k) = i then k\<lparr>k_LastUsedAt := Some (w_clock w)\<rparr> else k)
                                  (w_keys w)\<rparr>)
          | _ \<Rightarrow> (Inl pg_bad_statement, w))
      else if sql = createInferenceLog then
        (case args of [VInt u, kid, req, resp, err, VTime t1, VTime t2] \<Rightarrow>
            (case (scan_NullInt64 kid, scan_NullJson req, scan_NullJson resp, scan_NullString err) of
               (Inr kid', Inr req', Inr resp', Inr err') \<Rightarrow> insert_log u kid' req' resp' err' t1 t2 w
             | _ \<Rightarrow> (Inl pg_bad_statement, w))
          | _ \<Rightarrow> (Inl pg_bad_statement, w))
      else (Inl pg_bad_statement, w))"

text \<open>A statement either fails as scheduled, without effect, or is executed.\<close>

definition pg_call :: "(world \<Rightarrow> 'a result \<times> world) \<Rightarrow> (world, 'a result) state" where
  "pg_call f = State (\<lambda>w.
     let w1 = tick w in
     case w_pg_faults w1 of
       [] \<Rightarrow> f w1
     | fault # fs \<Rightarrow>
         let w2 = w1\<lparr>w_pg_faults := fs\<rparr> in
         (case fault of None \<Rightarrow> f w2 | Some msg \<Rightarrow> (Inl (ErrorString msg), w2)))"

definition ref_DBTX :: "world DBTX" where
  "ref_DBTX = \<lparr>
     ExecContext = (\<lambda>sql args. pg_call (exec sql args)),
     QueryContext = (\<lambda>sql args. pg_call (\<lambda>w. (query_rows sql args w, w))),
     QueryRowContext = (\<lambda>sql args. pg_call (query_row sql args))\<rparr>"

section \<open>Redis\<close>

definition redis_call :: "bool \<Rightarrow> (world \<Rightarrow> 'a result \<times> world) \<Rightarrow> (world, 'a result) state" where
  "redis_call faulty f = State (\<lambda>w.
     let w1 = tick w in
     case w_redis_faults w1 of
       [] \<Rightarrow> f w1
     | fault # fs \<Rightarrow>
         if \<not> faulty then f w1 else
         let w2 = w1\<lparr>w_redis_faults := fs\<rparr> in
         (case fault of None \<Rightarrow> f w2 | Some msg \<Rightarrow> (Inl (ErrorString msg), w2)))"

definition do_get :: "string \<Rightarrow> world \<Rightarrow> string result \<times> world" where
  "do_get k w = (case w_live w k of Some (v, d) \<Rightarrow> (Inr v, w) | None \<Rightarrow> (Inl RedisNil, w))"

definition do_set :: "string \<Rightarrow> string \<Rightarrow> duration \<Rightarrow> world \<Rightarrow> unit result \<times> world" where
  "do_set k v ttl w =
     (Inr (), w\<lparr>w_redis := (w_live w)(k \<mapsto> (v, if ttl = 0 then None else Some (w_clock w + ttl)))\<rparr>)"

definition do_del :: "string \<Rightarrow> world \<Rightarrow> unit result \<times> world" where
  "do_del k w = (Inr (), w\<lparr>w_redis := (w_live w)(k := None)\<rparr>)"

definition do_ttl :: "string \<Rightarrow> world \<Rightarrow> duration result \<times> world" where
  "do_ttl k w =
     (Inr (case w_live w k of None \<Rightarrow> -2 | Some (v, None) \<Rightarrow> -1
           | Some (v, Some d) \<Rightarrow> (d - w_clock w + second div 2) div second * second), w)"

definition do_incr :: "string \<Rightarrow> world \<Rightarrow> int result \<times> world" where
  "do_incr k w =
     (case w_live w k of
        None \<Rightarrow> (Inr 1, w\<lparr>w_redis := (w_live w)(k \<mapsto> (fmt_int 1, None))\<rparr>)
      | Some (v, d) \<Rightarrow> (case ParseInt v of
            None \<Rightarrow> (Inl (ErrorString ''ERR value is not an integer or out of range''), w)
          | Some n \<Rightarrow> if sint n = 2 ^ 63 - 1
                      then (Inl (ErrorString ''ERR increment or decrement would overflow''), w)
                      else (Inr (sint n + 1), w\<lparr>w_redis := (w_live w)(k \<mapsto> (fmt_int (sint n + 1), d))\<rparr>)))"

definition do_expire :: "string \<Rightarrow> int \<Rightarrow> world \<Rightarrow> unit result \<times> world" where
  "do_expire k s w =
     (case w_live w k of
        None \<Rightarrow> (Inr (), w)
      | Some (v, d) \<Rightarrow> if s \<le> 0 then (Inr (), w\<lparr>w_redis := (w_live w)(k := None)\<rparr>)
                       else (Inr (), w\<lparr>w_redis := (w_live w)(k \<mapsto> (v, Some (w_clock w + s * second)))\<rparr>))"

definition run_script :: "bool \<Rightarrow> (world, int result) state \<Rightarrow> (world, int result) state" where
  "run_script faulty m = redis_call faulty (run_state m)"

definition ref_redis :: "bool \<Rightarrow> world redis_client" where
  "ref_redis faulty = \<lparr>
     redis_Get = (\<lambda>k. redis_call faulty (do_get k)),
     redis_Set = (\<lambda>k v ttl. redis_call faulty (do_set k v ttl)),
     redis_Del = (\<lambda>k. redis_call faulty (do_del k)),
     redis_TTL = (\<lambda>k. redis_call faulty (do_ttl k)),
     redis_Ping = redis_call faulty (\<lambda>w. (Inr (), w)),
     redis_Run = run_script faulty,
     call_INCR = (\<lambda>k. State (do_incr k)),
     call_EXPIRE = (\<lambda>k s. State (do_expire k s))\<rparr>"

section \<open>Clock, log, randomness\<close>

definition ref_env :: "world env" where
  "ref_env = \<lparr>
     time_Now = State (\<lambda>w. (w_clock w, w)),
     log_Printf = (\<lambda>s. State (\<lambda>w. ((), w\<lparr>w_log := w_log w @ [s]\<rparr>))),
     rand_Read = (\<lambda>n. State (\<lambda>w. case w_random w of
         [] \<Rightarrow> (Inl (ErrorString ''no entropy''), w)
       | bs # rest \<Rightarrow> (Inr (take n (bs @ replicate n (CHR 0x00))), w\<lparr>w_random := rest\<rparr>))),
     uuid_New = State (\<lambda>w. (''00000000-0000-4000-8000-000000000000'', w)),
     zerolog = (\<lambda>lvl fields msg. State (\<lambda>w. ((), w\<lparr>w_log := w_log w @ [lvl @ '' '' @ msg]\<rparr>)))\<rparr>"

section \<open>The vendor\<close>

definition vendor_answer :: "string \<Rightarrow> bytes \<Rightarrow> (world, resty_response result) state" where
  "vendor_answer path sent = State (\<lambda>w.
     let w1 = w\<lparr>w_vendor_sent := w_vendor_sent w @ [(path, sent)]\<rparr>
     in case w_vendor_answers w1 of
          [] \<Rightarrow> (Inl (ErrorString ''dial tcp: connection refused''), w1)
        | a # rest \<Rightarrow> (a, w1\<lparr>w_vendor_answers := rest\<rparr>))"

text \<open>
  A breaker that opens as \<open>ReadyToTrip\<close> says and stays open (it reports no state changes).
\<close>

definition ref_breaker :: "world breaker_settings \<Rightarrow> world breaker" where
  "ref_breaker st = \<lparr>cb_Execute = (\<lambda>b. State (\<lambda>w.
     if st_ReadyToTrip st (of_nat (w_vendor_failures w)) then (Inl (ErrorString ''circuit breaker is open''), w)
     else case run_state b w of (r, w') \<Rightarrow>
       (r, w'\<lparr>w_vendor_failures := (case r of Inl e \<Rightarrow> w_vendor_failures w' + 1 | Inr x \<Rightarrow> 0)\<rparr>)))\<rparr>"

definition ref_resty :: "resty_settings \<Rightarrow> world resty_client" where
  "ref_resty st = \<lparr>resty_Get = (\<lambda>path. vendor_answer path []), resty_Post = vendor_answer\<rparr>"

definition ref_telemetry :: "world telemetry" where
  "ref_telemetry = \<lparr>
     vendorRequestsTotal_Inc = State (\<lambda>w. ((), w\<lparr>w_vendor_requests := w_vendor_requests w + 1\<rparr>)),
     vendorErrorsTotal_Inc = State (\<lambda>w. ((), w\<lparr>w_vendor_errors := w_vendor_errors w + 1\<rparr>)),
     span_Start = (\<lambda>n. go_return ()), span_RecordError = (\<lambda>e. go_return ()), span_SetStatus = (\<lambda>s. go_return ()),
     span_SetAttributes = (\<lambda>k v. go_return ()), span_End = go_return ()\<rparr>"

definition ref_client :: "world ThirdPartyClient" where
  "ref_client = NewThirdPartyClient ref_env ref_resty ref_breaker ''http://vendor'' ''token''"

section \<open>The contracts hold\<close>

lemma tick_simps [simp]:
  "w_keys (tick w) = w_keys w" "w_users (tick w) = w_users w" "w_logs (tick w) = w_logs w"
  "w_redis (tick w) = w_redis w" "w_clock w \<le> w_clock (tick w)"
  "w_next_key (tick w) = w_next_key w"
  by (simp_all add: tick_def split: list.splits)

lemma live_after: 
  assumes "w_clock w \<le> w_clock w'" "w_redis w' = w_redis w"
  shows "w_live w' = advance (w_clock w') (w_live w)"
  using assms by (simp add: w_live_def advance_advance)

lemma w_live_raw: "w_clock w' = w_clock w \<Longrightarrow> w_redis w' = w_redis w \<Longrightarrow> w_live w' = w_live w"
  by (simp add: w_live_def)

lemma sql_texts_distinct:
  "distinct [createAPIKey, deleteAPIKey, getAPIKeyByHash, listAPIKeysByUser, updateAPIKeyLastUsed,
     createInferenceLog, createUser, getUserByEmail, getUserByEmailForLogin, getUserByID, listUsersPaged]"
  by (simp add: createAPIKey_def deleteAPIKey_def getAPIKeyByHash_def listAPIKeysByUser_def
      updateAPIKeyLastUsed_def createInferenceLog_def createUser_def getUserByEmail_def
      getUserByEmailForLogin_def getUserByID_def listUsersPaged_def)

lemma sql_texts_distinct_rev:
  "distinct [listUsersPaged, getUserByID, getUserByEmailForLogin, getUserByEmail, createUser, createInferenceLog,
     updateAPIKeyLastUsed, listAPIKeysByUser, getAPIKeyByHash, deleteAPIKey, createAPIKey]"
  using sql_texts_distinct by simp (metis)

lemmas sql_texts [simp] =
  sql_texts_distinct [simplified] sql_texts_distinct_rev [simplified]

lemma w_live_advance: "advance (w_clock w) (w_live w) = w_live w"
  by (simp add: w_live_def advance_advance)

text \<open>
  A call to either server, inverted: it took effect on the world one tick later, or it failed as
  scheduled and left everything but the clock and the schedule alone.
\<close>

lemma pg_call_runs:
  assumes "runs_to (pg_call f) w r w'"
  obtains (fault) msg where "r = Inl (ErrorString msg)" "w_keys w' = w_keys w" "w_users w' = w_users w"
      "w_logs w' = w_logs w" "w_redis w' = w_redis w" "w_clock w \<le> w_clock w'"
  | (answer) w1 where "f w1 = (r, w')" "w_keys w1 = w_keys w" "w_users w1 = w_users w"
      "w_logs w1 = w_logs w" "w_redis w1 = w_redis w" "w_clock w \<le> w_clock w1"
proof (cases "w_pg_faults (tick w)")
  case Nil
  with assms show ?thesis by (intro answer [of "tick w"]) (simp_all add: pg_call_def runs_to_def)
next
  case (Cons fault fs)
  show ?thesis
  proof (cases fault)
    case None
    with Cons assms show ?thesis
      by (intro answer [of "(tick w)\<lparr>w_pg_faults := fs\<rparr>"]) (simp_all add: pg_call_def runs_to_def)
  next
    case (Some msg)
    with Cons assms have "r = Inl (ErrorString msg)" "w' = (tick w)\<lparr>w_pg_faults := fs\<rparr>"
      by (simp_all add: pg_call_def runs_to_def)
    then show ?thesis by (intro fault [of msg]) simp_all
  qed
qed

lemma redis_call_runs:
  assumes "runs_to (redis_call faulty f) w r w'"
  obtains (fault) msg where "faulty" "r = Inl (ErrorString msg)" "w_keys w' = w_keys w" "w_users w' = w_users w"
      "w_logs w' = w_logs w" "w_redis w' = w_redis w" "w_clock w \<le> w_clock w'"
  | (answer) w1 where "f w1 = (r, w')" "w_keys w1 = w_keys w" "w_users w1 = w_users w"
      "w_logs w1 = w_logs w" "w_redis w1 = w_redis w" "w_clock w \<le> w_clock w1"
proof (cases "w_redis_faults (tick w)")
  case Nil
  with assms show ?thesis by (intro answer [of "tick w"]) (simp_all add: redis_call_def runs_to_def)
next
  case (Cons fault fs)
  show ?thesis
  proof (cases "faulty \<and> fault \<noteq> None")
    case False
    let ?w = "if faulty then (tick w)\<lparr>w_redis_faults := fs\<rparr> else tick w"
    from False Cons assms have "f ?w = (r, w')"
      by (auto simp: redis_call_def runs_to_def split: if_splits)
    then show ?thesis by (rule answer) auto
  next
    case True
    with Cons assms obtain msg where "r = Inl (ErrorString msg)" "w' = (tick w)\<lparr>w_redis_faults := fs\<rparr>"
      by (auto simp: redis_call_def runs_to_def)
    with True show ?thesis by (intro fault [of msg]) simp_all
  qed
qed

lemma ref_redis_sel [simp]:
  "redis_Get (ref_redis b) = (\<lambda>k. redis_call b (do_get k))"
  "redis_Set (ref_redis b) = (\<lambda>k v ttl. redis_call b (do_set k v ttl))"
  "redis_Del (ref_redis b) = (\<lambda>k. redis_call b (do_del k))"
  by (simp_all add: ref_redis_def)

lemma w_live_upd: "w_live (w\<lparr>w_redis := (w_live w)(k := x)\<rparr>) k' =
    (if k' = k then advance (w_clock w) (\<lambda>_. x) k' else w_live w k')"
  by (auto simp: w_live_def advance_def split: option.splits)

lemma w_live_not_expired: "w_live w k = Some (v, Some d) \<Longrightarrow> w_clock w \<le> d"
  by (simp add: w_live_def advance_Some)

lemma w_live_put:
  "w_live (w\<lparr>w_redis := (w_live w)(k \<mapsto> (v, None))\<rparr>) = (w_live w)(k \<mapsto> (v, None))"
  "w_clock w \<le> d \<Longrightarrow> w_live (w\<lparr>w_redis := (w_live w)(k \<mapsto> (v, Some d))\<rparr>) = (w_live w)(k \<mapsto> (v, Some d))"
  "w_live (w\<lparr>w_redis := (w_live w)(k := None)\<rparr>) = (w_live w)(k := None)"
  by (auto simp: fun_eq_iff w_live_upd advance_def)

text \<open>A healthy server executes every command; without delays no time passes.\<close>

lemma redis_call_healthy: "run_state (redis_call False f) w = f (tick w)"
  by (simp add: redis_call_def Let_def split: list.splits)

lemma tick_calm: "w_delays w = [] \<Longrightarrow> tick w = w"
  by (simp add: tick_def)

lemma do_get_cases:
  assumes "do_get k w = (r, w')"
  shows "w' = w" "r = Inr v \<Longrightarrow> \<exists>d. w_live w' k = Some (v, d)" "r = Inl e \<Longrightarrow> e = RedisNil \<and> w_live w' k = None"
  using assms by (auto simp: do_get_def split: option.splits)

lemma do_set_cases:
  assumes "do_set k v ttl w = (r, w')" "0 < ttl"
  shows "r = Inr ()" "w_live w' = (w_live w)(k \<mapsto> (v, Some (w_clock w + ttl)))"
  using assms by (auto simp: do_set_def w_live_upd advance_def fun_eq_iff)

lemma do_del_cases:
  assumes "do_del k w = (r, w')"
  shows "r = Inr ()" "w_live w' = (w_live w)(k := None)"
  using assms by (auto simp: do_del_def w_live_upd advance_def fun_eq_iff)

lemma do_frame:
  "do_set k v ttl w = (r, w') \<Longrightarrow> w_clock w' = w_clock w \<and> w_keys w' = w_keys w"
  "do_del k w = (r2, w') \<Longrightarrow> w_clock w' = w_clock w \<and> w_keys w' = w_keys w"
  by (auto simp: do_set_def do_del_def)

lemma ref_redis_server: "redis_server (ref_redis b) w_live w_clock w_keys"
proof
  fix k v :: string and ttl :: duration and w w' :: world and r :: "string result" and rs rd :: "unit result"
    and u :: unit and e :: go_error
  show "w_clock w \<le> w_clock w' \<and> w_live w' = advance (w_clock w') (w_live w) \<and> w_keys w' = w_keys w"
    if "runs_to (redis_Get (ref_redis b) k) w r w'"
    using that[simplified]
    by (cases rule: redis_call_runs) (auto dest!: do_get_cases(1) intro!: live_after)
  show "\<exists>d. w_live w' k = Some (v, d)" if "runs_to (redis_Get (ref_redis b) k) w (Inr v) w'"
    using that[simplified] by (cases rule: redis_call_runs) (auto dest!: do_get_cases(2))
  show "w_live w' k = None" if "runs_to (redis_Get (ref_redis b) k) w (Inl RedisNil) w'"
    using that[simplified] by (cases rule: redis_call_runs) (auto dest!: do_get_cases(3))
  show "w_clock w \<le> w_clock w' \<and> w_keys w' = w_keys w"
    if "runs_to (redis_Set (ref_redis b) k v ttl) w rs w'"
    using that[simplified] by (cases rule: redis_call_runs) (auto dest!: do_frame)
  show "w_live w' = (advance (w_clock w') (w_live w))(k \<mapsto> (v, Some (w_clock w' + ttl)))"
    if "runs_to (redis_Set (ref_redis b) k v ttl) w (Inr u) w'" "0 < ttl"
    using that(1)[simplified]
  proof (cases rule: redis_call_runs)
    case (answer w1)
    with do_set_cases(2) [OF answer(1) that(2)] do_frame(1) [OF answer(1)] show ?thesis
      by (simp add: live_after)
  qed simp
  show "w_live w' \<in> {advance (w_clock w') (w_live w),
      (advance (w_clock w') (w_live w))(k \<mapsto> (v, Some (w_clock w' + ttl)))}"
    if "runs_to (redis_Set (ref_redis b) k v ttl) w (Inl e) w'" "0 < ttl"
    using that(1)[simplified]
    by (cases rule: redis_call_runs) (auto dest!: do_set_cases(1) [OF _ that(2)] simp: live_after)
  show "w_clock w \<le> w_clock w' \<and> w_keys w' = w_keys w"
    if "runs_to (redis_Del (ref_redis b) k) w rd w'"
    using that[simplified] by (cases rule: redis_call_runs) (auto dest!: do_frame)
  show "w_live w' = (advance (w_clock w') (w_live w))(k := None)"
    if "runs_to (redis_Del (ref_redis b) k) w (Inr u) w'"
    using that[simplified]
  proof (cases rule: redis_call_runs)
    case (answer w1)
    with do_del_cases(2) [OF answer(1)] do_frame(2) [OF answer(1)] show ?thesis
      by (simp add: live_after)
  qed simp
  show "w_live w' \<in> {advance (w_clock w') (w_live w), (advance (w_clock w') (w_live w))(k := None)}"
    if "runs_to (redis_Del (ref_redis b) k) w (Inl e) w'"
    using that[simplified]
    by (cases rule: redis_call_runs) (auto dest!: do_del_cases(1) simp: live_after)
qed


interpretation faulty_redis: redis_server "ref_redis True" w_live w_clock w_keys
  by (rule ref_redis_server)

interpretation healthy_redis: redis_reliable "ref_redis False" w_live w_clock w_keys
proof (intro redis_reliable.intro ref_redis_server, unfold_locales)
  fix k v :: string and ttl :: duration and w w' :: world and e :: go_error
  show "e = RedisNil" if "runs_to (redis_Get (ref_redis False) k) w (Inl e) w'"
    using that[simplified] by (cases rule: redis_call_runs) (auto dest!: do_get_cases(3))
  show "\<not> runs_to (redis_Set (ref_redis False) k v ttl) w (Inl e) w'"
    by (auto simp: do_set_def elim!: redis_call_runs)
  show "\<not> runs_to (redis_Del (ref_redis False) k) w (Inl e) w'"
    by (auto simp: do_del_def elim!: redis_call_runs)
qed

lemma insert_key_cases:
  assumes "insert_key u h l rpm w = (r, w')"
  shows "w_redis w' = w_redis w" "w_clock w' = w_clock w" "r = Inl e \<Longrightarrow> w_keys w' = w_keys w"
    "r = Inr cols \<Longrightarrow> \<exists>k. w_keys w' = w_keys w @ [k] \<and> k_ID k \<notin> k_ID ` set (w_keys w) \<and> k_UserID k = word_of_int u
       \<and> k_KeyHash k = h \<and> k_Label k = l \<and> k_Active k \<and> k_RateRpm k = word_of_int rpm
       \<and> scan_CreateAPIKeyRow cols = Inr (create_row k)"
  using assms
  by (auto simp: insert_key_def Let_def scan_CreateAPIKeyRow_def create_row_def split: if_splits)

lemma ref_DBTX_sel [simp]:
  "ExecContext ref_DBTX = (\<lambda>sql args. pg_call (exec sql args))"
  "QueryContext ref_DBTX = (\<lambda>sql args. pg_call (\<lambda>w. (query_rows sql args w, w)))"
  "QueryRowContext ref_DBTX = (\<lambda>sql args. pg_call (query_row sql args))"
  by (simp_all add: ref_DBTX_def)

lemma sint_eq_iff: "sint (i :: int64) = sint j \<longleftrightarrow> i = j"
  by (auto dest: signed_word_eqI)

lemma q_find_runs:
  assumes "runs_to (q_GetAPIKeyByHash (New ref_DBTX) h) w r w'"
  obtains r0 where "runs_to (pg_call (query_row getAPIKeyByHash [VBytes h])) w r0 w'" "r = bindR r0 scan_GetAPIKeyByHashRow"
  using assms by (auto simp: queries_defs runs_to_bind)

lemma q_create_runs:
  assumes "runs_to (q_CreateAPIKey (New ref_DBTX) arg) w r w'"
  obtains r0 where "runs_to (pg_call (insert_key (sint (cp_UserID arg)) (cp_KeyHash arg) (cp_Label arg) (sint (cp_RateRpm arg)))) w r0 w'"
    "r = bindR r0 scan_CreateAPIKeyRow"
proof -
  have "query_row createAPIKey [VInt (sint (cp_UserID arg)), VBytes (cp_KeyHash arg), nullable VText (cp_Label arg),
          VInt (sint (cp_RateRpm arg))] =
        insert_key (sint (cp_UserID arg)) (cp_KeyHash arg) (cp_Label arg) (sint (cp_RateRpm arg))"
    by (simp add: query_row_def fun_eq_iff)
  with assms that show thesis by (auto simp: queries_defs runs_to_bind)
qed

lemma query_row_find:
  assumes "query_row getAPIKeyByHash [VBytes h] w = (r0, w')"
  shows "w' = w" "r0 = Inl e \<Longrightarrow> e = ErrNoRows \<and> h \<notin> k_KeyHash ` set (w_keys w)"
    "r0 = Inr cols \<Longrightarrow> \<exists>k\<in>set (w_keys w). k_KeyHash k = h \<and> scan_GetAPIKeyByHashRow cols = Inr (hash_row k)"
  using assms
  by (auto simp: query_row_def first_row_def find_eq_None_iff scan_GetAPIKeyByHashRow_def hash_row_def
      split: option.splits dest!: find_SomeD)

lemma exec_delete:
  assumes "exec deleteAPIKey [VInt (sint (u :: int64)), VInt (sint (i :: int64))] w = (r, w')"
  shows "r = Inr ()" "w_redis w' = w_redis w" "w_clock w' = w_clock w" "w_keys w' = remove_key u i (w_keys w)"
  using assms by (auto simp: exec_def Let_def sint_eq_iff)

lemma exec_touch:
  assumes "exec updateAPIKeyLastUsed [VInt (sint (i :: int64))] w = (r, w')"
  shows "w_redis w' = w_redis w" "w_clock w' = w_clock w"
    "w_keys w' = map (\<lambda>k. if k_ID k = i then k\<lparr>k_LastUsedAt := Some (w_clock w)\<rparr> else k) (w_keys w)"
  using assms by (auto simp: exec_def sint_eq_iff)

lemma find_laws:
  assumes "runs_to (q_GetAPIKeyByHash (New ref_DBTX) h) w r w'"
  shows "w_live w' = advance (w_clock w') (w_live w) \<and> w_clock w \<le> w_clock w' \<and> w_keys w' = w_keys w"
    "r = Inr row \<Longrightarrow> \<exists>k\<in>set (w_keys w). k_KeyHash k = h \<and> row = hash_row k"
    "r = Inl e \<Longrightarrow> errors_Is e ErrNoRows \<Longrightarrow> h \<notin> k_KeyHash ` set (w_keys w)"
proof -
  from assms obtain r0 where call: "runs_to (pg_call (query_row getAPIKeyByHash [VBytes h])) w r0 w'"
    and r: "r = bindR r0 scan_GetAPIKeyByHashRow" by (rule q_find_runs)
  from call have "(w_live w' = advance (w_clock w') (w_live w) \<and> w_clock w \<le> w_clock w' \<and> w_keys w' = w_keys w)
     \<and> (\<forall>cols. r0 = Inr cols \<longrightarrow> (\<exists>k\<in>set (w_keys w). k_KeyHash k = h \<and> scan_GetAPIKeyByHashRow cols = Inr (hash_row k)))
     \<and> (\<forall>e. r0 = Inl e \<longrightarrow> errors_Is e ErrNoRows \<longrightarrow> h \<notin> k_KeyHash ` set (w_keys w))"
  proof (cases rule: pg_call_runs)
    case (answer w1)
    with query_row_find [OF answer(1)] show ?thesis by (auto simp: live_after)
  qed (auto simp: live_after)
  with r show "w_live w' = advance (w_clock w') (w_live w) \<and> w_clock w \<le> w_clock w' \<and> w_keys w' = w_keys w"
    "r = Inr row \<Longrightarrow> \<exists>k\<in>set (w_keys w). k_KeyHash k = h \<and> row = hash_row k"
    "r = Inl e \<Longrightarrow> errors_Is e ErrNoRows \<Longrightarrow> h \<notin> k_KeyHash ` set (w_keys w)"
    by (cases r0; fastforce)+
qed

lemma insert_laws:
  assumes "runs_to (q_CreateAPIKey (New ref_DBTX) arg) w r w'"
  shows "w_live w' = advance (w_clock w') (w_live w) \<and> w_clock w \<le> w_clock w'"
    "r = Inr row \<Longrightarrow> \<exists>k. w_keys w' = w_keys w @ [k] \<and> k_ID k \<notin> k_ID ` set (w_keys w) \<and> k_UserID k = cp_UserID arg
          \<and> k_KeyHash k = cp_KeyHash arg \<and> k_Label k = cp_Label arg \<and> k_Active k
          \<and> k_RateRpm k = cp_RateRpm arg \<and> row = create_row k"
    "r = Inl e \<Longrightarrow> w_keys w' = w_keys w"
proof -
  from assms obtain r0 where call: "runs_to (pg_call (insert_key (sint (cp_UserID arg)) (cp_KeyHash arg)
      (cp_Label arg) (sint (cp_RateRpm arg)))) w r0 w'"
    and r: "r = bindR r0 scan_CreateAPIKeyRow" by (rule q_create_runs)
  from call have "(w_live w' = advance (w_clock w') (w_live w) \<and> w_clock w \<le> w_clock w')
     \<and> (\<forall>cols. r0 = Inr cols \<longrightarrow> (\<exists>k. w_keys w' = w_keys w @ [k] \<and> k_ID k \<notin> k_ID ` set (w_keys w)
          \<and> k_UserID k = cp_UserID arg \<and> k_KeyHash k = cp_KeyHash arg \<and> k_Label k = cp_Label arg \<and> k_Active k
          \<and> k_RateRpm k = cp_RateRpm arg \<and> scan_CreateAPIKeyRow cols = Inr (create_row k)))
     \<and> (\<forall>e. r0 = Inl e \<longrightarrow> w_keys w' = w_keys w)"
  proof (cases rule: pg_call_runs)
    case (answer w1)
    with insert_key_cases [OF answer(1)] show ?thesis by (auto simp: live_after)
  qed (auto simp: live_after)
  with r show "w_live w' = advance (w_clock w') (w_live w) \<and> w_clock w \<le> w_clock w'"
    "r = Inr row \<Longrightarrow> \<exists>k. w_keys w' = w_keys w @ [k] \<and> k_ID k \<notin> k_ID ` set (w_keys w) \<and> k_UserID k = cp_UserID arg
          \<and> k_KeyHash k = cp_KeyHash arg \<and> k_Label k = cp_Label arg \<and> k_Active k
          \<and> k_RateRpm k = cp_RateRpm arg \<and> row = create_row k"
    "r = Inl e \<Longrightarrow> w_keys w' = w_keys w"
    by (cases r0; fastforce)+
qed

lemma remove_laws:
  assumes "runs_to (q_DeleteAPIKey (New ref_DBTX) dp) w r w'"
  shows "w_live w' = advance (w_clock w') (w_live w) \<and> w_clock w \<le> w_clock w'"
    "r = Inr u \<Longrightarrow> w_keys w' = remove_key (dp_UserID dp) (dp_ID dp) (w_keys w)"
    "r = Inl e \<Longrightarrow> w_keys w' = w_keys w"
proof -
  from assms have "runs_to (pg_call (exec deleteAPIKey [VInt (sint (dp_UserID dp)), VInt (sint (dp_ID dp))])) w r w'"
    by (simp add: queries_defs)
  then have "(w_live w' = advance (w_clock w') (w_live w) \<and> w_clock w \<le> w_clock w')
     \<and> (\<forall>u. r = Inr u \<longrightarrow> w_keys w' = remove_key (dp_UserID dp) (dp_ID dp) (w_keys w))
     \<and> (\<forall>e. r = Inl e \<longrightarrow> w_keys w' = w_keys w)"
  proof (cases rule: pg_call_runs)
    case (answer w1)
    with exec_delete [OF answer(1)] show ?thesis by (auto simp: live_after)
  qed (auto simp: live_after)
  then show "w_live w' = advance (w_clock w') (w_live w) \<and> w_clock w \<le> w_clock w'"
    "r = Inr u \<Longrightarrow> w_keys w' = remove_key (dp_UserID dp) (dp_ID dp) (w_keys w)"
    "r = Inl e \<Longrightarrow> w_keys w' = w_keys w"
    by auto
qed

lemma touch_laws:
  assumes "runs_to (q_UpdateAPIKeyLastUsed (New ref_DBTX) i) w r w'"
  shows "w_live w' = advance (w_clock w') (w_live w) \<and> w_clock w \<le> w_clock w'"
    "w_keys w' = w_keys w \<or> (\<exists>t. w_keys w' = map (\<lambda>k. if k_ID k = i then k\<lparr>k_LastUsedAt := t\<rparr> else k) (w_keys w))"
proof -
  from assms have "runs_to (pg_call (exec updateAPIKeyLastUsed [VInt (sint i)])) w r w'"
    by (simp add: queries_defs)
  then have "(w_live w' = advance (w_clock w') (w_live w) \<and> w_clock w \<le> w_clock w')
     \<and> (w_keys w' = w_keys w \<or> (\<exists>t. w_keys w' = map (\<lambda>k. if k_ID k = i then k\<lparr>k_LastUsedAt := t\<rparr> else k) (w_keys w)))"
  proof (cases rule: pg_call_runs)
    case (answer w1)
    with exec_touch [OF answer(1)] show ?thesis by (auto simp: live_after)
  qed (auto simp: live_after)
  then show "w_live w' = advance (w_clock w') (w_live w) \<and> w_clock w \<le> w_clock w'"
    "w_keys w' = w_keys w \<or> (\<exists>t. w_keys w' = map (\<lambda>k. if k_ID k = i then k\<lparr>k_LastUsedAt := t\<rparr> else k) (w_keys w))"
    by auto
qed

lemma list_laws:
  assumes "runs_to (q_ListAPIKeysByUser (New ref_DBTX) uid) w r w'"
  shows "w_live w' = advance (w_clock w') (w_live w) \<and> w_clock w \<le> w_clock w' \<and> w_keys w' = w_keys w"
proof -
  from assms obtain r0 where "runs_to (pg_call (\<lambda>w. (query_rows listAPIKeysByUser [VInt (sint uid)] w, w))) w r0 w'"
    by (auto simp: queries_defs runs_to_bind)
  then show ?thesis by (cases rule: pg_call_runs) (auto simp: live_after)
qed

interpretation ref_queries: key_queries "New ref_DBTX" w_keys w_live w_clock
  by unfold_locales
    (blast intro: refl dest: find_laws(1) insert_laws(1) remove_laws(1) touch_laws(1) list_laws
       find_laws(2) [OF _ refl] find_laws(3) [OF _ refl] insert_laws(2) [OF _ refl] insert_laws(3) [OF _ refl]
       remove_laws(2) [OF _ refl] remove_laws(3) [OF _ refl] touch_laws(2))+

text \<open>Rules that run the repository on a concrete reference world.\<close>

lemmas ref_eval =
  world0_def world1_def user1_def ref_DBTX_def ref_redis_def queries_defs val_of_def end_of_def
  redis_call_def do_get_def do_set_def do_del_def pg_call_def tick_def query_row_def exec_def insert_key_def
  w_live_def advance_def second_def scan_CreateAPIKeyRow_def scan_GetAPIKeyByHashRow_def scan_int64_def
  scan_int32_def first_row_def State_Monad.bind_def State_Monad.return_def Let_def

lemmas repo_eval =
  CreateAPIKey_def GetAPIKeyByHash_def DeleteAPIKey_def cache_lookup_def store_in_cache_def
  drop_from_cache_def unmarshal_marshal_cachedAPIKey

text \<open>The API-key repository as \<open>main.go\<close> builds it, on the reference servers.\<close>

definition ref_repo :: "world postgresAPIKeyRepository" where
  "ref_repo = \<lparr>par_q = New ref_DBTX, par_redisClient = Some (ref_redis False), par_ttl = 3600 * second\<rparr>"

interpretation ref_cache: key_cache "ref_redis False" "New ref_DBTX" w_keys w_live w_clock ref_repo
  by unfold_locales (simp_all add: ref_repo_def second_def)

interpretation ref_metrics: vendor_metrics ref_telemetry ref_client w_vendor_requests w_vendor_errors
proof unfold_locales
  fix b :: "(world, vendor_body result) state" and w w' :: world and r :: "vendor_body result"
  assume "runs_to (cb_Execute (tp_cb ref_client) b) w r w'"
  then show "(\<exists>w1 w2. w_vendor_requests w1 = w_vendor_requests w \<and> w_vendor_errors w1 = w_vendor_errors w
      \<and> runs_to b w1 r w2 \<and> w_vendor_requests w' = w_vendor_requests w2 \<and> w_vendor_errors w' = w_vendor_errors w2)
    \<or> ((\<exists>e. r = Inl e) \<and> w_vendor_requests w' = w_vendor_requests w \<and> w_vendor_errors w' = w_vendor_errors w)"
    by (cases "run_state b w")
      (auto simp: ref_client_def NewThirdPartyClient_def ref_breaker_def runs_to_def split: if_splits)
qed (auto simp: ref_telemetry_def ref_client_def NewThirdPartyClient_def ref_resty_def vendor_answer_def runs_to_def
      Let_def split: list.splits)

end
