(* ===== verification/Rate_Limit.thy ===== *)
theory Rate_Limit
  imports Middleware World
begin

text \<open>
  Correctness of \<open>RateLimiter\<close> against the contract of Redis counters (locale
  \<open>redis_counter\<close>: the script runs atomically, \<open>INCR\<close> counts, \<open>EXPIRE\<close> sets the expiry,
  the process clock is the server's). Within one window a burst of requests is admitted exactly up to
  the limit; different identities, endpoints and windows never share a counter.
\<close>

section \<open>Definitions\<close>

text \<open>The handler of the repository's own test: it answers 200.\<close>

definition ok_handler :: "'w http_handler" where
  "ok_handler w r = go_return (WriteHeader 200 w)"

text \<open>\<open>n\<close> identical requests, one after the other; the statuses they get.\<close>

fun burst :: "'w http_handler \<Rightarrow> request \<Rightarrow> nat \<Rightarrow> ('w, nat list) state" where
  "burst h r 0 = go_return []"
| "burst h r (Suc n) = do { w \<leftarrow> h new_writer r; codes \<leftarrow> burst h r n; go_return (rw_status w # codes) }"

text \<open>After \<open>j\<close> requests of a window that ends at \<open>e\<close>: the key holds \<open>j\<close> and lives to the end.\<close>

definition counted :: "keyspace \<Rightarrow> string \<Rightarrow> time \<Rightarrow> nat \<Rightarrow> bool" where
  "counted m k e j \<longleftrightarrow>
     (if j = 0 then m k = None else (\<exists>d. m k = Some (fmt_int (int j), Some d) \<and> e \<le> d))"

text \<open>Whom a counter belongs to: the API key of the request, else its user.\<close>

definition principal :: "Identity \<Rightarrow> int64 + int64" where
  "principal i = (case id_APIKeyID i of None \<Rightarrow> Inl (id_UserID i) | Some k \<Rightarrow> Inr k)"

text \<open>A request of user 1, authenticated by JWT.\<close>

definition jwt_request :: request where
  "jwt_request = \<lparr>rq_method = ''POST'', rq_path = ''/v1/inference/predict'', rq_header = Map.empty,
     rq_body = Body [] None, rq_urlparam = (\<lambda>_. []),
     rq_ctx = \<lparr>ctxKeyIdentity = Some \<lparr>id_UserID = 1, id_Plan = ''free'', id_APIKeyID = None, id_RateRPM = None\<rparr>,
               requestIDKey = None\<rparr>\<rparr>"

definition predict_limiter :: "goint \<Rightarrow> duration \<Rightarrow> world http_handler" where
  "predict_limiter limit window =
     RateLimiter ref_env (ref_redis False) ''/v1/inference/predict'' limit window ok_handler"

section \<open>Key separation\<close>

lemma FormatInt_no_colon: "CHR '':'' \<notin> set (FormatInt i)"
  by (simp add: FormatInt_def fmt_int_no_colon)

lemma append_sep_inj:
  assumes "c \<notin> set s" "c \<notin> set t" "s @ c # u = t @ c # v"
  shows "s = t \<and> u = v"
  using assms
proof (induction s arbitrary: t)
  case Nil
  then show ?case by (cases t) auto
next
  case (Cons a s)
  then show ?case by (cases t) auto
qed

lemma append_sep_inj_rev:
  assumes "c \<notin> set u" "c \<notin> set v" "s @ c # u = t @ c # v"
  shows "s = t \<and> u = v"
proof -
  from assms(3) have "rev u @ c # rev s = rev v @ c # rev t"
    by (metis append.assoc append_Cons append_Nil rev.simps(2) rev_append)
  with append_sep_inj [of c "rev u" "rev v" "rev s" "rev t"] assms(1,2) show ?thesis by simp
qed

lemma rate_key_parts:
  assumes "rate_key i ep t = rate_key i' ep' t'"
  shows "identifier_for i = identifier_for i'" "ep = ep'" "t = t'"
proof -
  from assms have "(identifier_for i @ '':'' @ ep) @ CHR '':'' # fmt_int t = (identifier_for i' @ '':'' @ ep') @ CHR '':'' # fmt_int t'"
    by (simp add: rate_key_def)
  from append_sep_inj_rev [OF fmt_int_no_colon fmt_int_no_colon this]
  have a: "identifier_for i @ CHR '':'' # ep = identifier_for i' @ CHR '':'' # ep'" and t: "fmt_int t = fmt_int t'"
    by simp_all
  from t show "t = t'" by (rule fmt_int_inj)
  have "\<exists>p (x :: int64). identifier_for j = p @ CHR '':'' # FormatInt x \<and> (p = ''user'' \<or> p = ''apikey'')" for j
    by (rule exI [of _ "if id_APIKeyID j = None then ''user'' else ''apikey''"],
        rule exI [of _ "case id_APIKeyID j of None \<Rightarrow> id_UserID j | Some x \<Rightarrow> x"])
      (simp add: identifier_for_def split: option.splits)
  then obtain p p' and x x' :: int64 where p: "identifier_for i = p @ CHR '':'' # FormatInt x" "p = ''user'' \<or> p = ''apikey''"
    and p': "identifier_for i' = p' @ CHR '':'' # FormatInt x'" "p' = ''user'' \<or> p' = ''apikey''" by meson
  from p(2) p'(2) have np: "CHR '':'' \<notin> set p" "CHR '':'' \<notin> set p'" by auto
  from a p p' have "p @ CHR '':'' # (FormatInt x @ CHR '':'' # ep) = p' @ CHR '':'' # (FormatInt x' @ CHR '':'' # ep')"
    by simp
  from append_sep_inj [OF np this] have "p = p'" "FormatInt x @ CHR '':'' # ep = FormatInt x' @ CHR '':'' # ep'" by simp_all
  with append_sep_inj [OF FormatInt_no_colon FormatInt_no_colon this(2)]
  show "identifier_for i = identifier_for i'" "ep = ep'" using p(1) p'(1) by simp_all
qed

section \<open>The counter contract\<close>

lemma limit_script_runs:
  assumes "runs_to (limit_script rc k s) w (Inr n) w'"
  obtains w1 where "runs_to (call_INCR rc k) w (Inr n) w1"
    "n = 1 \<and> (\<exists>u. runs_to (call_EXPIRE rc k s) w1 (Inr u) w') \<or> n \<noteq> 1 \<and> w' = w1"
proof -
  from assms obtain res w1 where inc: "runs_to (call_INCR rc k) w res w1" and
    rest: "runs_to (case res of Inl e \<Rightarrow> go_return (Inl e)
       | Inr current \<Rightarrow> if current = 1
           then call_EXPIRE rc k s \<bind> (\<lambda>res2. go_return (case res2 of Inl e \<Rightarrow> Inl e | Inr _ \<Rightarrow> Inr current))
           else go_return (Inr current)) w1 (Inr n) w'"
    by (auto simp: limit_script_def runs_to_bind)
  from rest obtain c where res: "res = Inr c" by (cases res) auto
  show thesis
  proof (cases "c = 1")
    case True
    with rest res obtain res2 where "runs_to (call_EXPIRE rc k s) w1 res2 w'"
      "Inr n = (case res2 of Inl e \<Rightarrow> Inl e | Inr _ \<Rightarrow> Inr c)"
      by (auto simp: runs_to_bind)
    with True inc res show thesis by (cases res2) (auto intro: that)
  next
    case False
    with rest res inc show thesis by (auto intro: that)
  qed
qed

text \<open>A request that is not answered 500 went through all three calls.\<close>

lemma request_runs:
  assumes "runs_to (RateLimiter env rc ep jwtLimit win ok_handler new_writer r) s w s'"
    and "IdentityFrom (rq_ctx r) = Some i" "rw_status w \<noteq> 500"
  obtains t n d s1 s2 where "runs_to (time_Now env) s t s1"
    "runs_to (redis_Run rc (limit_script rc (rate_key i ep (time_Unix (time_Truncate t win))) (sint (int_Seconds win)))) s1 (Inr n) s2"
    "runs_to (redis_TTL rc (rate_key i ep (time_Unix (time_Truncate t win)))) s2 (Inr d) s'"
    "runs_to (limit_decision (limit_for jwtLimit i) (word_of_int n) d ok_handler new_writer r) s' w s'"
  using assms by (auto simp: RateLimiter_def go_run Let_def limit_decision_def ok_handler_def)

locale redis_counter =
  fixes rc :: "'w redis_client"
    and env :: "'w env"
    and live :: "'w \<Rightarrow> keyspace"
    and clk :: "'w \<Rightarrow> time"
  assumes now: "runs_to (time_Now env) w t w' \<Longrightarrow>
        t = clk w' \<and> clk w \<le> clk w' \<and> live w' = advance (clk w') (live w)"
    and run: "runs_to (redis_Run rc m) w (Inr n) w' \<Longrightarrow>
        \<exists>w1. clk w \<le> clk w1 \<and> live w1 = advance (clk w1) (live w) \<and> runs_to m w1 (Inr n) w'"
    and incr: "runs_to (call_INCR rc k) w (Inr n) w' \<Longrightarrow>
        clk w' = clk w \<and>
        (case live w k of
           None \<Rightarrow> n = 1 \<and> live w' = (live w)(k \<mapsto> (fmt_int 1, None))
         | Some (v, d) \<Rightarrow> (\<exists>i. ParseInt v = Some i \<and> n = sint i + 1 \<and> live w' = (live w)(k \<mapsto> (fmt_int n, d))))"
    and expire: "runs_to (call_EXPIRE rc k s) w (Inr u) w' \<Longrightarrow>
        clk w' = clk w \<and>
        live w' = (case live w k of None \<Rightarrow> live w
                   | Some (v, d) \<Rightarrow> if s \<le> 0 then (live w)(k := None)
                                    else (live w)(k \<mapsto> (v, Some (clk w + s * second))))"
    and ttl_frame: "runs_to (redis_TTL rc k) w rt w' \<Longrightarrow> clk w \<le> clk w' \<and> live w' = advance (clk w') (live w)"
begin

lemma script_clk: "runs_to (limit_script rc k s) w (Inr n) w' \<Longrightarrow> clk w' = clk w"
  by (elim limit_script_runs) (auto dest!: incr expire)

lemma script_spec:
  assumes run: "runs_to (limit_script rc k s) w (Inr n) w'" and s: "0 < s"
    and c: "counted (live w) k e j" and e: "e \<le> clk w + s * second" and j: "int j < 2 ^ 63 - 1"
  shows "n = int j + 1 \<and> clk w' = clk w \<and> counted (live w') k e (Suc j)"
proof -
  from run obtain w1 where inc: "runs_to (call_INCR rc k) w (Inr n) w1" and
    rest: "n = 1 \<and> (\<exists>u. runs_to (call_EXPIRE rc k s) w1 (Inr u) w') \<or> n \<noteq> 1 \<and> w' = w1"
    by (rule limit_script_runs)
  show ?thesis
  proof (cases "j = 0")
    case True
    with c incr [OF inc] have n: "n = 1" "clk w1 = clk w" "live w1 k = Some (fmt_int 1, None)"
      by (auto simp: counted_def)
    with rest obtain u where "runs_to (call_EXPIRE rc k s) w1 (Inr u) w'" by auto
    from expire [OF this] n s e True show ?thesis by (auto simp: counted_def)
  next
    case False
    with c obtain d where d: "live w k = Some (fmt_int (int j), Some d)" "e \<le> d" by (auto simp: counted_def)
    have "ParseInt (fmt_int (int j)) = Some (word_of_int (int j))" using j by (intro ParseInt_fmt_int) auto
    moreover have "sint (word_of_int (int j) :: int64) = int j"
      using j by (intro sint64_of_int) auto
    ultimately have n: "n = int j + 1" "clk w1 = clk w" "live w1 k = Some (fmt_int n, Some d)"
      using incr [OF inc] d by auto
    with rest False d show ?thesis by (auto simp: counted_def algebra_simps)
  qed
qed

lemma counted_advance:
  "counted m k e j \<Longrightarrow> t \<le> e \<Longrightarrow> counted (advance t m) k e j"
  by (auto simp: counted_def advance_def split: if_splits)

text \<open>One request of a window that ends at \<open>e\<close>, after \<open>j\<close> others.\<close>

lemma request_spec:
  assumes req: "runs_to (RateLimiter env rc ep jwtLimit win ok_handler new_writer r) s w s'"
    and i: "IdentityFrom (rq_ctx r) = Some i"
    and win: "win = k * second" "0 < k" "k \<le> 2 ^ 53"
    and e: "e = time_Truncate t0 win + win" "time_Truncate t0 win \<le> clk s" "clk s' < e"
    and c: "counted (live s) (rate_key i ep (time_Unix (time_Truncate t0 win))) e j" and j: "int j < 2 ^ 63 - 1"
    and ok: "rw_status w \<noteq> 500"
  shows "clk s \<le> clk s'
    \<and> counted (live s') (rate_key i ep (time_Unix (time_Truncate t0 win))) e (Suc j)
    \<and> rw_status w = (if int j + 1 \<le> sint (limit_for jwtLimit i) then 200 else 429)"
proof -
  let ?key = "rate_key i ep (time_Unix (time_Truncate t0 win))"
  from win have pos: "0 < win" by (simp add: second_def)
  from request_runs [OF req i ok] obtain t n d s1 s2 where
    t: "runs_to (time_Now env) s t s1" and
    n: "runs_to (redis_Run rc (limit_script rc (rate_key i ep (time_Unix (time_Truncate t win))) (sint (int_Seconds win)))) s1 (Inr n) s2"
    and d: "runs_to (redis_TTL rc (rate_key i ep (time_Unix (time_Truncate t win)))) s2 (Inr d) s'"
    and w: "runs_to (limit_decision (limit_for jwtLimit i) (word_of_int n) d ok_handler new_writer r) s' w s'" .
  note N = now [OF t] and D = ttl_frame [OF d]
  from run [OF n] obtain s1' where S: "clk s1 \<le> clk s1'" "live s1' = advance (clk s1') (live s1)"
    "runs_to (limit_script rc (rate_key i ep (time_Unix (time_Truncate t win))) (sint (int_Seconds win))) s1' (Inr n) s2"
    by blast
  have sec: "sint (int_Seconds win) = k"
    using win by (simp add: int_Seconds_whole) (intro sint64_of_int, auto)
  have clks: "clk s \<le> t" "t \<le> clk s1'" "clk s2 = clk s1'" "clk s2 \<le> clk s'" "clk s1 = t"
    using N S(1) script_clk [OF S(3)] D by auto
  have same: "time_Truncate t win = time_Truncate t0 win"
    using pos e clks by (intro truncate_same_window) auto
  have "counted (live s1) ?key e j"
    using N c clks e(3) by (auto intro: counted_advance)
  then have "counted (live s1') ?key e j"
    using S(2) clks e(3) by (auto intro: counted_advance)
  from script_spec [OF S(3) [unfolded same sec] win(2) this _ j]
  have n: "n = int j + 1" "counted (live s2) ?key e (Suc j)"
    using e clks win(1) by auto
  from n(2) have c': "counted (live s') ?key e (Suc j)"
    using D e(3) by (auto intro: counted_advance)
  have "sint (word_of_int n :: int64) = int j + 1"
    unfolding n(1) using j by (intro sint64_of_int) auto
  with w have "rw_status w = (if int j + 1 \<le> sint (limit_for jwtLimit i) then 200 else 429)"
    by (auto simp: limit_decision_def ok_handler_def Let_def)
  with c' clks show ?thesis by simp
qed

lemma request_clk:
  assumes "runs_to (RateLimiter env rc ep jwtLimit win ok_handler new_writer r) s w s'"
    and "IdentityFrom (rq_ctx r) = Some i" "rw_status w \<noteq> 500"
  shows "clk s \<le> clk s'"
proof -
  from request_runs [OF assms] obtain t n d s1 s2 where c: "runs_to (time_Now env) s t s1"
    "runs_to (redis_Run rc (limit_script rc (rate_key i ep (time_Unix (time_Truncate t win))) (sint (int_Seconds win)))) s1 (Inr n) s2"
    "runs_to (redis_TTL rc (rate_key i ep (time_Unix (time_Truncate t win)))) s2 (Inr d) s'" .
  from run [OF c(2)] obtain s1' where "clk s1 \<le> clk s1'" "clk s2 = clk s1'" by (auto dest: script_clk)
  with now [OF c(1)] ttl_frame [OF c(3)] show ?thesis by simp
qed

lemma burst_clk:
  "runs_to (burst (RateLimiter env rc ep jwtLimit win ok_handler) r n) s codes s' \<Longrightarrow>
   IdentityFrom (rq_ctx r) = Some i \<Longrightarrow> 500 \<notin> set codes \<Longrightarrow> clk s \<le> clk s'"
proof (induction n arbitrary: s codes)
  case (Suc n)
  then show ?case by (fastforce simp: runs_to_bind dest: request_clk)
qed simp

text \<open>A burst of \<open>n\<close> requests after \<open>j\<close> others, all inside one window.\<close>

lemma burst_spec:
  assumes "runs_to (burst (RateLimiter env rc ep jwtLimit win ok_handler) r n) s codes s'"
    and i: "IdentityFrom (rq_ctx r) = Some i"
    and win: "win = k * second" "0 < k" "k \<le> 2 ^ 53"
    and e: "e = time_Truncate t0 win + win" "time_Truncate t0 win \<le> clk s" "clk s' < e"
    and "counted (live s) (rate_key i ep (time_Unix (time_Truncate t0 win))) e j" "int (j + n) < 2 ^ 63 - 1"
    and "500 \<notin> set codes"
  shows "codes = map (\<lambda>m. if int m + 1 \<le> sint (limit_for jwtLimit i) then 200 else 429) [j..<j + n]"
  using assms(1,6-)
proof (induction n arbitrary: s j codes)
  case 0
  then show ?case by simp
next
  case (Suc n)
  then obtain w s1 cs where req: "runs_to (RateLimiter env rc ep jwtLimit win ok_handler new_writer r) s w s1"
    and rest: "runs_to (burst (RateLimiter env rc ep jwtLimit win ok_handler) r n) s1 cs s'"
    and codes: "codes = rw_status w # cs"
    by (auto simp: runs_to_bind)
  from codes Suc.prems have ok: "rw_status w \<noteq> 500" "500 \<notin> set cs" by auto
  have mid: "clk s \<le> clk s1" "clk s1 < e"
    using request_clk [OF req i ok(1)] burst_clk [OF rest i ok(2)] Suc.prems(4) by auto
  from request_spec [OF req i win Suc.prems(2,3) mid(2) Suc.prems(5) _ ok(1)] Suc.prems(6)
  have step: "counted (live s1) (rate_key i ep (time_Unix (time_Truncate t0 win))) e (Suc j)"
    "rw_status w = (if int j + 1 \<le> sint (limit_for jwtLimit i) then 200 else 429)" by auto
  have "codes = map (\<lambda>m. if int m + 1 \<le> sint (limit_for jwtLimit i) then 200 else 429) (j # [Suc j..<Suc j + n])"
    using Suc.IH [OF rest Suc.prems(2) _ Suc.prems(4) step(1) _ ok(2)] mid Suc.prems(3,6) codes step(2) by auto
  also have "j # [Suc j..<Suc j + n] = [j..<j + Suc n]" by (simp add: upt_conv_Cons del: upt_Suc)
  finally show ?case .
qed

text \<open>With a window of less than a second the script deletes the counter it has just made.\<close>

lemma script_subsecond:
  assumes "runs_to (limit_script rc k 0) w (Inr n) w'" "live w k = None"
  shows "n = 1 \<and> live w' = live w"
  using assms(1)
proof (cases rule: limit_script_runs)
  case (1 w1)
  from incr [OF 1(1)] assms(2) have i: "n = 1" "live w1 = (live w)(k \<mapsto> (fmt_int 1, None))" by auto
  with 1(2) obtain u where "runs_to (call_EXPIRE rc k 0) w1 (Inr u) w'" by auto
  from expire [OF this] i assms(2) show ?thesis by auto
qed

lemma request_subsecond:
  assumes req: "runs_to (RateLimiter env rc ep jwtLimit win ok_handler new_writer r) s w s'"
    and i: "IdentityFrom (rq_ctx r) = Some i" and ok: "rw_status w \<noteq> 500"
    and win: "0 \<le> win" "win < second" and L: "1 \<le> sint (limit_for jwtLimit i)"
    and none: "\<forall>t. live s (rate_key i ep t) = None"
  shows "rw_status w = 200 \<and> (\<forall>t. live s' (rate_key i ep t) = None)"
proof -
  from request_runs [OF req i ok] obtain t n d s1 s2 where
    t: "runs_to (time_Now env) s t s1" and
    n: "runs_to (redis_Run rc (limit_script rc (rate_key i ep (time_Unix (time_Truncate t win))) (sint (int_Seconds win)))) s1 (Inr n) s2"
    and d: "runs_to (redis_TTL rc (rate_key i ep (time_Unix (time_Truncate t win)))) s2 (Inr d) s'"
    and w: "runs_to (limit_decision (limit_for jwtLimit i) (word_of_int n) d ok_handler new_writer r) s' w s'" .
  have adv: "\<forall>t. advance x m (rate_key i ep t) = None" if "\<forall>t. m (rate_key i ep t) = None" for x m
    using that by (simp add: advance_def)
  from run [OF n] obtain s1' where S: "live s1' = advance (clk s1') (live s1)"
    "runs_to (limit_script rc (rate_key i ep (time_Unix (time_Truncate t win))) 0) s1' (Inr n) s2"
    using int_Seconds_subsecond [OF win] by auto
  have c: "\<forall>t. live s1' (rate_key i ep t) = None"
    using S(1) now [OF t] none by (simp add: adv)
  from script_subsecond [OF S(2)] c have n1: "n = 1" "live s2 = live s1'" by auto
  with ttl_frame [OF d] c have "\<forall>t. live s' (rate_key i ep t) = None" by (simp add: adv)
  moreover have "rw_status w = 200"
    using w n1(1) L by (auto simp: limit_decision_def ok_handler_def Let_def)
  ultimately show ?thesis by simp
qed

lemma burst_subsecond:
  assumes "runs_to (burst (RateLimiter env rc ep jwtLimit win ok_handler) r n) s codes s'"
    and i: "IdentityFrom (rq_ctx r) = Some i"
    and win: "0 \<le> win" "win < second" and L: "1 \<le> sint (limit_for jwtLimit i)"
    and "\<forall>t. live s (rate_key i ep t) = None" "500 \<notin> set codes"
  shows "codes = replicate n 200"
  using assms(1,6,7)
proof (induction n arbitrary: s codes)
  case (Suc n)
  then obtain w s1 cs where req: "runs_to (RateLimiter env rc ep jwtLimit win ok_handler new_writer r) s w s1"
    and rest: "runs_to (burst (RateLimiter env rc ep jwtLimit win ok_handler) r n) s1 cs s'"
    and codes: "codes = rw_status w # cs"
    by (auto simp: runs_to_bind)
  from request_subsecond [OF req i _ win L Suc.prems(2)] codes Suc.prems(3)
  have "rw_status w = 200" "\<forall>t. live s1 (rate_key i ep t) = None" by auto
  with Suc.IH [OF rest] codes Suc.prems(3) show ?case by auto
qed simp

end

section \<open>The reference server meets the contract\<close>

interpretation ref_counter: redis_counter "ref_redis b" ref_env w_live w_clock for b
proof
  fix k :: string and s n :: int and w w' :: world and m :: "(world, int result) state" and t :: time
    and u :: unit and rt :: "duration result"
  show "t = w_clock w' \<and> w_clock w \<le> w_clock w' \<and> w_live w' = advance (w_clock w') (w_live w)"
    if "runs_to (time_Now ref_env) w t w'"
    using that by (auto simp: ref_env_def runs_to_def w_live_advance)
  show "\<exists>w1. w_clock w \<le> w_clock w1 \<and> w_live w1 = advance (w_clock w1) (w_live w) \<and> runs_to m w1 (Inr n) w'"
    if "runs_to (redis_Run (ref_redis b) m) w (Inr n) w'"
  proof -
    from that have "runs_to (redis_call b (run_state m)) w (Inr n) w'" by (simp add: ref_redis_def run_script_def)
    then show ?thesis by (cases rule: redis_call_runs) (auto simp: runs_to_def intro!: live_after exI)
  qed
  show "w_clock w' = w_clock w \<and>
        (case w_live w k of
           None \<Rightarrow> n = 1 \<and> w_live w' = (w_live w)(k \<mapsto> (fmt_int 1, None))
         | Some (v, d) \<Rightarrow> (\<exists>i. ParseInt v = Some i \<and> n = sint i + 1 \<and> w_live w' = (w_live w)(k \<mapsto> (fmt_int n, d))))"
    if "runs_to (call_INCR (ref_redis b) k) w (Inr n) w'"
    using that
    by (auto simp: ref_redis_def runs_to_def do_incr_def w_live_upd advance_def fun_eq_iff
        split: option.splits if_splits dest!: w_live_not_expired)
  show "w_clock w' = w_clock w \<and>
        w_live w' = (case w_live w k of None \<Rightarrow> w_live w
                   | Some (v, d) \<Rightarrow> if s \<le> 0 then (w_live w)(k := None)
                                    else (w_live w)(k \<mapsto> (v, Some (w_clock w + s * second))))"
    if "runs_to (call_EXPIRE (ref_redis b) k s) w (Inr u) w'"
    using that
    by (auto simp: ref_redis_def runs_to_def do_expire_def w_live_upd advance_def fun_eq_iff second_def
        split: option.splits if_splits)
  show "w_clock w \<le> w_clock w' \<and> w_live w' = advance (w_clock w') (w_live w)"
    if "runs_to (redis_TTL (ref_redis b) k) w rt w'"
  proof -
    from that have "runs_to (redis_call b (do_ttl k)) w rt w'" by (simp add: ref_redis_def)
    then show ?thesis by (cases rule: redis_call_runs) (auto simp: do_ttl_def live_after)
  qed
qed

section \<open>Single requests on the reference server\<close>

lemma int_Seconds_minute: "int_Seconds 60000000000 = 60"
  using int_Seconds_whole [of 60] by (simp add: second_def)

definition minute_key :: "world \<Rightarrow> string" where
  "minute_key w = rate_key (the (IdentityFrom (rq_ctx jwt_request))) ''/v1/inference/predict''
     (time_Unix (time_Truncate (w_clock w) (60 * second)))"

lemmas limiter_eval =
  predict_limiter_def RateLimiter_def limit_script_def limit_decision_def ok_handler_def jwt_request_def
  IdentityFrom_def limit_for_def ref_env_def ref_redis_def run_script_def do_incr_def do_expire_def do_ttl_def
  redis_call_healthy tick_calm Let_def val_of_def end_of_def State_Monad.bind_def State_Monad.return_def

lemma limiter_first:
  assumes "w_delays w = []" "w_live w (minute_key w) = None"
  shows "end_of (predict_limiter L (60 * second) new_writer jwt_request) w =
      w\<lparr>w_redis := (w_live w)(minute_key w \<mapsto> (fmt_int 1, Some (w_clock w + 60 * second)))\<rparr>"
    "rw_status (val_of (predict_limiter L (60 * second) new_writer jwt_request) w) = (if 1 \<le> sint L then 200 else 429)"
proof -
  define k where "k = minute_key w"
  have k: "rate_key \<lparr>id_UserID = 1, id_Plan = ''free'', id_APIKeyID = None, id_RateRPM = None\<rparr> ''/v1/inference/predict''
     (time_Unix (time_Truncate (w_clock w) (60 * second))) = k"
    by (simp add: k_def minute_key_def jwt_request_def IdentityFrom_def)
  have s: "sint (int_Seconds (60 * second)) = 60"
    by (simp add: int_Seconds_minute second_def)
  show "end_of (predict_limiter L (60 * second) new_writer jwt_request) w =
      w\<lparr>w_redis := (w_live w)(minute_key w \<mapsto> (fmt_int 1, Some (w_clock w + 60 * second)))\<rparr>"
    "rw_status (val_of (predict_limiter L (60 * second) new_writer jwt_request) w) = (if 1 \<le> sint L then 200 else 429)"
    using assms unfolding k_def [symmetric]
    by (simp_all add: limiter_eval k s w_live_put)
qed

lemma limiter_again:
  assumes "w_delays w = []" "w_live w (minute_key w) = Some (fmt_int j, Some d)" "1 \<le> j" "j < 2 ^ 62"
  shows "end_of (predict_limiter L (60 * second) new_writer jwt_request) w =
      w\<lparr>w_redis := (w_live w)(minute_key w \<mapsto> (fmt_int (j + 1), Some d))\<rparr>"
    "rw_status (val_of (predict_limiter L (60 * second) new_writer jwt_request) w) = (if j + 1 \<le> sint L then 200 else 429)"
proof -
  define k where "k = minute_key w"
  have k: "rate_key \<lparr>id_UserID = 1, id_Plan = ''free'', id_APIKeyID = None, id_RateRPM = None\<rparr> ''/v1/inference/predict''
     (time_Unix (time_Truncate (w_clock w) (60 * second))) = k"
    by (simp add: k_def minute_key_def jwt_request_def IdentityFrom_def)
  have p: "ParseInt (fmt_int j) = Some (word_of_int j)" and sj: "sint (word_of_int j :: int64) = j"
    using assms(3,4) by (auto intro!: ParseInt_fmt_int sint64_of_int)
  have sj': "sint (word_of_int (j + 1) :: int64) = j + 1"
    by (rule sint64_of_int) (use assms(3,4) in auto)
  note live = w_live_put(2) [OF w_live_not_expired [OF assms(2)]]
  show "end_of (predict_limiter L (60 * second) new_writer jwt_request) w =
      w\<lparr>w_redis := (w_live w)(minute_key w \<mapsto> (fmt_int (j + 1), Some d))\<rparr>"
    "rw_status (val_of (predict_limiter L (60 * second) new_writer jwt_request) w) = (if j + 1 \<le> sint L then 200 else 429)"
    using assms sj sj' unfolding k_def [symmetric]
    by (simp_all add: limiter_eval k p live)
qed

lemma burst_Suc_eval:
  "val_of (burst h r (Suc n)) w = rw_status (val_of (h new_writer r) w) # val_of (burst h r n) (end_of (h new_writer r) w)"
  "end_of (burst h r (Suc n)) w = end_of (burst h r n) (end_of (h new_writer r) w)"
  by (simp_all add: val_of_def end_of_def State_Monad.bind_def State_Monad.return_def split: prod.splits)

lemma burst_0_eval: "val_of (burst h r 0) w = []" "end_of (burst h r 0) w = w"
  by (simp_all add: val_of_def end_of_def)

lemma minute_key_redis [simp]: "minute_key (w\<lparr>w_redis := m\<rparr>) = minute_key w"
  by (simp add: minute_key_def)

lemma world1_empty: "w_live world1 k = None" "w_delays world1 = []" "w_clock world1 = 0"
  by (simp_all add: world1_def world0_def w_live_def advance_def)

lemma world1_request:
  "rw_status (val_of (predict_limiter 1 (60 * second) new_writer jwt_request) world1) = 200"
  "end_of (predict_limiter 1 (60 * second) new_writer jwt_request) world1 =
     world1\<lparr>w_redis := (w_live world1)(minute_key world1 \<mapsto> (fmt_int 1, Some (60 * second)))\<rparr>"
  using limiter_first [of world1 1] by (simp_all add: world1_empty)

lemma two_requests:
  "val_of (burst (predict_limiter 1 (60 * second)) jwt_request 2) world1 = [200, 429]"
  "w_clock (end_of (burst (predict_limiter 1 (60 * second)) jwt_request 2) world1) = 0"
proof -
  define w where "w = world1\<lparr>w_redis := (w_live world1)(minute_key world1 \<mapsto> (fmt_int 1, Some (60 * second)))\<rparr>"
  have "w_clock world1 \<le> 60 * second" by (simp add: world1_empty second_def)
  from w_live_put(2) [OF this] have "w_live w (minute_key w) = Some (fmt_int 1, Some (60 * second))"
    by (simp add: w_def)
  moreover have "w_delays w = []" "w_clock w = 0" by (simp_all add: w_def world1_empty)
  ultimately show "val_of (burst (predict_limiter 1 (60 * second)) jwt_request 2) world1 = [200, 429]"
    "w_clock (end_of (burst (predict_limiter 1 (60 * second)) jwt_request 2) world1) = 0"
    using limiter_again [of w 1 "60 * second" 1]
    by (simp_all add: numeral_2_eq_2 burst_Suc_eval burst_0_eval world1_request w_def [symmetric] del: burst.simps)
qed

section \<open>Theorems\<close>

text \<open>
  C5. Exact admission: in a fresh window of a whole number of seconds, a burst of \<open>n\<close> requests of one
  identity that stays inside the window and meets no Redis failure is answered 200 for the first
  \<open>limit\<close> requests and 429 for all others, where the limit is the key's own rate for API-key requests
  and the configured one otherwise.
\<close>

theorem burst_admits_exactly_the_limit:
  assumes "redis_counter rc env live clk"
    and "runs_to (burst (RateLimiter env rc endpoint jwtLimit window ok_handler) r n) s codes s'"
    and "IdentityFrom (rq_ctx r) = Some i"
    and "window = k * second" "0 < k" "k \<le> 2 ^ 53"
    and "time_Truncate t0 window \<le> clk s" "clk s' < time_Truncate t0 window + window"
    and "live s (rate_key i endpoint (time_Unix (time_Truncate t0 window))) = None"
    and "int n < 2 ^ 63 - 1" "500 \<notin> set codes"
  shows "codes = replicate (min n (nat (sint (limit_for jwtLimit i)))) 200
               @ replicate (n - nat (sint (limit_for jwtLimit i))) 429"
proof -
  define L where "L = nat (sint (limit_for jwtLimit i))"
  have "codes = map (\<lambda>m. if int m + 1 \<le> sint (limit_for jwtLimit i) then 200 else 429) [0..<0 + n]"
    by (rule redis_counter.burst_spec [OF assms(1-6) refl assms(7,8) _ _ assms(11)])
      (use assms(9,10) in \<open>auto simp: counted_def\<close>)
  also have "\<dots> = map (\<lambda>m. if m < L then 200 else 429) [0..<n]"
    by (rule map_cong) (auto simp: L_def)
  also have "\<dots> = replicate (min n L) 200 @ replicate (n - L) 429"
    by (rule nth_equalityI) (auto simp: nth_append)
  finally show ?thesis by (simp add: L_def)
qed

theorem burst_admits_exactly_the_limit_witness:
  "val_of (burst (predict_limiter 1 (60 * second)) jwt_request 2) world1 = replicate 1 200 @ replicate 1 429"
proof -
  let ?i = "\<lparr>id_UserID = 1, id_Plan = ''free'', id_APIKeyID = None, id_RateRPM = None\<rparr>"
  have b: "runs_to (burst (RateLimiter ref_env (ref_redis False) ''/v1/inference/predict'' 1 (60 * second) ok_handler) jwt_request 2)
      world1 [200, 429] (end_of (burst (predict_limiter 1 (60 * second)) jwt_request 2) world1)"
    using two_requests(1) runs_to_val_of [of "burst (predict_limiter 1 (60 * second)) jwt_request 2" world1]
    by (simp add: predict_limiter_def)
  have i: "IdentityFrom (rq_ctx jwt_request) = Some ?i" by (simp add: jwt_request_def IdentityFrom_def)
  have t0: "time_Truncate 0 (60 * second) = 0" by (simp add: time_Truncate_def unixToInternal_def second_def)
  have t: "time_Truncate 0 (60 * second) \<le> w_clock world1"
      "w_clock (end_of (burst (predict_limiter 1 (60 * second)) jwt_request 2) world1) < time_Truncate 0 (60 * second) + 60 * second"
    unfolding t0 two_requests(2) by (simp_all add: world1_empty second_def)
  have "[200, 429] = replicate (min 2 (nat (sint (limit_for 1 ?i)))) 200 @ replicate (2 - nat (sint (limit_for 1 ?i))) (429::nat)"
    by (rule burst_admits_exactly_the_limit [OF ref_counter.redis_counter_axioms b i refl _ _ t])
      (simp_all add: world1_empty)
  then show ?thesis by (simp add: two_requests(1) limit_for_def)
qed

text \<open>
  C22. Counters are never shared: two requests count against the same Redis key exactly when they come
  from the same principal (API key, or user for JWT requests), for the same endpoint, in the same window.
\<close>

theorem rate_key_identifies:
  "rate_key i ep t = rate_key i' ep' t' \<longleftrightarrow> principal i = principal i' \<and> ep = ep' \<and> t = t'"
proof
  assume "rate_key i ep t = rate_key i' ep' t'"
  from rate_key_parts [OF this] show "principal i = principal i' \<and> ep = ep' \<and> t = t'"
    by (auto simp: principal_def identifier_for_def dest: FormatInt_inj split: option.splits)
next
  assume "principal i = principal i' \<and> ep = ep' \<and> t = t'"
  then show "rate_key i ep t = rate_key i' ep' t'"
    by (auto simp: principal_def identifier_for_def rate_key_def split: option.splits)
qed

text \<open>
  C32. The limiter counts in fixed windows, not in a sliding one: with a limit of one request per minute,
  two requests one second apart, on either side of a minute boundary, are both admitted.
\<close>

theorem window_boundary_admits_twice_the_limit:
  "let w0 = world1\<lparr>w_clock := 59 * second + second div 2\<rparr>;
       w1 = end_of (predict_limiter 1 (60 * second) new_writer jwt_request) w0;
       w2 = w1\<lparr>w_clock := w_clock w1 + second\<rparr>
   in w_clock w2 = w_clock w0 + second
      \<and> rw_status (val_of (predict_limiter 1 (60 * second) new_writer jwt_request) w0) = 200
      \<and> rw_status (val_of (predict_limiter 1 (60 * second) new_writer jwt_request) w2) = 200"
proof -
  define w0 where "w0 = world1\<lparr>w_clock := 59 * second + second div 2\<rparr>"
  define w1 where "w1 = end_of (predict_limiter 1 (60 * second) new_writer jwt_request) w0"
  define w2 where "w2 = w1\<lparr>w_clock := w_clock w1 + second\<rparr>"
  have w0: "w_delays w0 = []" "w_live w0 = Map.empty"
    by (auto simp: w0_def world1_def world0_def w_live_def advance_def)
  have first: "w1 = w0\<lparr>w_redis := (w_live w0)(minute_key w0 \<mapsto> (fmt_int 1, Some (w_clock w0 + 60 * second)))\<rparr>"
    "rw_status (val_of (predict_limiter 1 (60 * second) new_writer jwt_request) w0) = 200"
    using limiter_first [of w0 1] w0 by (simp_all add: w1_def)
  have "minute_key w2 \<noteq> minute_key w0"
  proof
    assume "minute_key w2 = minute_key w0"
    from rate_key_parts(3) [OF this [unfolded minute_key_def]] show False
      by (simp add: w2_def first(1)) (simp add: w0_def world1_def world0_def time_Truncate_def time_Unix_def
          unixToInternal_def second_def)
  qed
  moreover have "w_redis w2 = [minute_key w0 \<mapsto> (fmt_int 1, Some (w_clock w0 + 60 * second))]"
    by (simp add: w2_def first(1) w0(2))
  ultimately have "w_live w2 (minute_key w2) = None"
    by (simp add: w_live_def advance_def)
  moreover have "w_delays w2 = []" by (simp add: w2_def first(1) w0(1))
  ultimately have "rw_status (val_of (predict_limiter 1 (60 * second) new_writer jwt_request) w2) = 200"
    using limiter_first(2) [of w2 1] by simp
  moreover have "w_clock w2 = w_clock w0 + second" by (simp add: w2_def first(1))
  ultimately show ?thesis
    using first(2) unfolding Let_def w0_def [symmetric] w1_def [symmetric] w2_def [symmetric] by simp
qed

text \<open>
  C33. A window shorter than a second disables the limiter: \<open>int(window.Seconds())\<close> is 0, so the
  script's \<open>EXPIRE\<close> deletes the counter right after the \<open>INCR\<close>, and every request of every burst is
  admitted as long as the limit is at least one.
\<close>

theorem subsecond_window_never_limits:
  assumes "redis_counter rc env live clk"
    and "runs_to (burst (RateLimiter env rc endpoint jwtLimit window ok_handler) r n) s codes s'"
    and "IdentityFrom (rq_ctx r) = Some i"
    and "0 \<le> window" "window < second" "1 \<le> sint (limit_for jwtLimit i)"
    and "\<forall>t. live s (rate_key i endpoint t) = None" "500 \<notin> set codes"
  shows "codes = replicate n 200"
  using redis_counter.burst_subsecond [OF assms] .

lemma subsecond_step:
  assumes "w_delays w = []" "w_redis w = Map.empty"
  shows "end_of (predict_limiter 1 (second div 2) new_writer jwt_request) w = w"
    "rw_status (val_of (predict_limiter 1 (second div 2) new_writer jwt_request) w) = 200"
proof -
  have s: "sint (int_Seconds (second div 2)) = 0"
    using int_Seconds_subsecond [of "second div 2"] by (simp add: second_def)
  have l: "w_live w = Map.empty" using assms(2) by (auto simp: w_live_def advance_def)
  have e: "w_live (w\<lparr>w_redis := [k \<mapsto> (v, None)]\<rparr>) = [k \<mapsto> (v, None)]" for k v
    by (auto simp: w_live_def advance_def)
  have r: "w\<lparr>w_redis := Map.empty\<rparr> = w" using assms(2) by simp
  show "end_of (predict_limiter 1 (second div 2) new_writer jwt_request) w = w"
    "rw_status (val_of (predict_limiter 1 (second div 2) new_writer jwt_request) w) = 200"
    using assms(1) by (simp_all add: limiter_eval s l e r fun_upd_idem)
qed

theorem subsecond_window_never_limits_witness:
  "val_of (burst (predict_limiter 1 (second div 2)) jwt_request 5) world1 = replicate 5 200"
proof -
  let ?i = "\<lparr>id_UserID = 1, id_Plan = ''free'', id_APIKeyID = None, id_RateRPM = None\<rparr>"
  have step: "end_of (predict_limiter 1 (second div 2) new_writer jwt_request) world1 = world1"
    "rw_status (val_of (predict_limiter 1 (second div 2) new_writer jwt_request) world1) = 200"
    by (simp_all add: subsecond_step world1_def world0_def)
  have "500 \<notin> set (val_of (burst (predict_limiter 1 (second div 2)) jwt_request n) world1)" for n
    by (induction n) (simp_all add: burst_Suc_eval burst_0_eval step del: burst.simps)
  moreover have "IdentityFrom (rq_ctx jwt_request) = Some ?i" by (simp add: jwt_request_def IdentityFrom_def)
  ultimately show ?thesis
    using subsecond_window_never_limits [OF ref_counter.redis_counter_axioms [of False],
        of "''/v1/inference/predict''" 1 "second div 2" jwt_request 5 world1, OF _ _ _ _ _ _ _]
      runs_to_val_of [of "burst (predict_limiter 1 (second div 2)) jwt_request 5" world1]
    unfolding predict_limiter_def
    by (simp add: world1_empty limit_for_def second_def)
qed

lemma sint64_minus:
  assumes "0 \<le> sint (a :: int64)" "0 \<le> sint (b :: int64)"
  shows "sint (a - b) = sint a - sint b"
proof -
  have "sint (word_of_int (sint a - sint b) :: int64) = sint a - sint b"
    using assms sint64_range [of a] sint64_range [of b] by (intro sint64_of_int) auto
  then show ?thesis by (simp add: of_int_diff)
qed

lemma limit_header_keys:
  "CanonicalMIMEHeaderKey ''X-RateLimit-Limit'' = ''X-Ratelimit-Limit''"
  "CanonicalMIMEHeaderKey ''X-RateLimit-Remaining'' = ''X-Ratelimit-Remaining''"
  "CanonicalMIMEHeaderKey ''X-RateLimit-Reset'' = ''X-Ratelimit-Reset''"
  "CanonicalMIMEHeaderKey ''Retry-After'' = ''Retry-After''"
  "CanonicalMIMEHeaderKey ''Content-Type'' = ''Content-Type''"
  by code_simp+

text \<open>
  C28. What a limited client is told: for a non-negative limit and counter, the response headers carry
  the limit and the requests left (never negative), and exactly the requests beyond the limit get 429
  with \<open>Retry-After\<close>, while the others are passed on with the writer so prepared.
\<close>

theorem rate_limit_headers:
  assumes "0 \<le> sint limit" "0 \<le> sint current" "rw_sent w = None"
    and "runs_to (limit_decision limit current ttl ok_handler w r) s w' s'"
  shows "s' = s
    \<and> rw_status w' = (if sint current \<le> sint limit then 200 else 429)
    \<and> (\<exists>h. map_option snd (rw_sent w') = Some h
         \<and> Header_Get h ''X-RateLimit-Limit'' = fmt_int (sint limit)
         \<and> Header_Get h ''X-RateLimit-Remaining'' = fmt_int (max 0 (sint limit - sint current))
         \<and> Header_Get h ''X-RateLimit-Reset'' = FormatInt (int_Seconds ttl)
         \<and> (sint limit < sint current \<longrightarrow> Header_Get h ''Retry-After'' = FormatInt (int_Seconds ttl)))"
proof -
  define rem where "rem = (if sint (limit - current) < 0 then 0 else limit - current)"
  have rem: "FormatInt rem = fmt_int (max 0 (sint limit - sint current))"
    using sint64_minus [OF assms(1,2)] by (auto simp: rem_def FormatInt_def max_def)
  define h where "h = Header_Set (Header_Set (Header_Set (rw_header w) ''X-RateLimit-Limit'' (FormatInt limit))
     ''X-RateLimit-Remaining'' (FormatInt rem)) ''X-RateLimit-Reset'' (FormatInt (int_Seconds ttl))"
  define h' where "h' = Header_Set (Header_Set h ''Retry-After'' (FormatInt (int_Seconds ttl))) ''Content-Type'' ''application/json''"
  have "Header_Get x ''X-RateLimit-Limit'' = fmt_int (sint limit)
      \<and> Header_Get x ''X-RateLimit-Remaining'' = fmt_int (max 0 (sint limit - sint current))
      \<and> Header_Get x ''X-RateLimit-Reset'' = FormatInt (int_Seconds ttl)" if "x = h \<or> x = h'" for x
    using that by (auto simp: h_def h'_def Header_Get_def Header_Set_def limit_header_keys rem [unfolded FormatInt_def] FormatInt_def)
  moreover have "Header_Get h' ''Retry-After'' = FormatInt (int_Seconds ttl)"
    by (simp add: h'_def Header_Get_def Header_Set_def limit_header_keys)
  moreover have "s' = s \<and> (if sint current \<le> sint limit then rw_sent w' = Some (200, h) else rw_sent w' = Some (429, h'))"
    using assms(3,4)
    by (auto simp: limit_decision_def ok_handler_def Let_def rem_def [symmetric] RespondWithError_def RespondWithJSON_def
        rw_sent_Write rw_sent_WriteHeader h_def h'_def split: if_splits)
  ultimately show ?thesis
    by (auto simp: rw_status_def split: if_splits)
qed

theorem rate_limit_headers_witness:
  "\<exists>h. map_option snd (rw_sent (val_of (limit_decision 2 3 (30 * second) ok_handler new_writer jwt_request) world1)) = Some h
     \<and> Header_Get h ''X-RateLimit-Remaining'' = fmt_int 0 \<and> Header_Get h ''Retry-After'' = FormatInt (int_Seconds (30 * second))"
  using rate_limit_headers [of 2 3 new_writer "30 * second" jwt_request world1, OF _ _ _ runs_to_val_of] by auto

end
