(* ===== verification/Service.thy ===== *)
theory Service
  imports Middleware
begin

text \<open>
  Package \<open>internal/service\<close> without the vendor: API keys, accounts and profiles. Each service is a
  record of its interface methods and a constructor over the repositories, as in the code. The JWT
  library (\<open>jwt_lib\<close>) and bcrypt (\<open>bcrypt_lib\<close>) are arguments.
\<close>

section \<open>Definitions\<close>

subsection \<open>apikeys.go\<close>

record 'w APIKeyService =
  aks_CreateAPIKey :: "int64 \<Rightarrow> string \<Rightarrow> goint \<Rightarrow> ('w, (string \<times> CreateAPIKeyRow) result) state"
  aks_ListAPIKeys :: "int64 \<Rightarrow> ('w, ListAPIKeysByUserRow list result) state"
  aks_DeleteAPIKey :: "int64 \<Rightarrow> int64 \<Rightarrow> ('w, unit result) state"

definition generateRandomKey :: "'w env \<Rightarrow> nat \<Rightarrow> ('w, string result) state" where
  "generateRandomKey env n = do {
     res \<leftarrow> rand_Read env n;
     go_return (case res of Inl e \<Rightarrow> Inl e | Inr bs \<Rightarrow> Inr (EncodeToString bs))
   }"

text \<open>\<open>int32(rateRPM)\<close> keeps the low 32 bits.\<close>

definition Service_CreateAPIKey ::
  "'w env \<Rightarrow> 'w APIKeyRepository \<Rightarrow> int64 \<Rightarrow> string \<Rightarrow> goint \<Rightarrow> ('w, (string \<times> CreateAPIKeyRow) result) state" where
  "Service_CreateAPIKey env apiKeyRepo userID label rateRPM = do {
     res \<leftarrow> generateRandomKey env 32;
     case res of
       Inl err \<Rightarrow> go_return (Inl err)
     | Inr plaintextKey \<Rightarrow> do {
         let params = \<lparr>cp_UserID = userID, cp_KeyHash = HashAPIKey plaintextKey,
                       cp_Label = (if label \<noteq> [] then Some label else None), cp_RateRpm = ucast rateRPM\<rparr>;
         res2 \<leftarrow> akr_CreateAPIKey apiKeyRepo params;
         go_return (case res2 of
             Inl err \<Rightarrow> Inl (if errors_Is err RepoErrAPIKeyLabelExists then SvcErrAPIKeyLabelExists else err)
           | Inr createdKey \<Rightarrow> Inr (plaintextKey, createdKey))
       }
   }"

definition Service_ListAPIKeys ::
  "'w APIKeyRepository \<Rightarrow> int64 \<Rightarrow> ('w, ListAPIKeysByUserRow list result) state" where
  "Service_ListAPIKeys apiKeyRepo userID = akr_ListAPIKeysByUser apiKeyRepo userID"

definition Service_DeleteAPIKey :: "'w APIKeyRepository \<Rightarrow> int64 \<Rightarrow> int64 \<Rightarrow> ('w, unit result) state" where
  "Service_DeleteAPIKey apiKeyRepo userID keyID = akr_DeleteAPIKey apiKeyRepo userID keyID"

definition NewAPIKeyService :: "'w env \<Rightarrow> 'w APIKeyRepository \<Rightarrow> 'w APIKeyService" where
  "NewAPIKeyService env apiKeyRepo = \<lparr>
     aks_CreateAPIKey = Service_CreateAPIKey env apiKeyRepo,
     aks_ListAPIKeys = Service_ListAPIKeys apiKeyRepo,
     aks_DeleteAPIKey = Service_DeleteAPIKey apiKeyRepo\<rparr>"

subsection \<open>auth.go\<close>

record 'w bcrypt_lib =
  GenerateFromPassword :: "bytes \<Rightarrow> nat \<Rightarrow> ('w, bytes result) state"
  CompareHashAndPassword :: "bytes \<Rightarrow> bytes \<Rightarrow> unit result"

abbreviation bcrypt_DefaultCost :: nat where
  "bcrypt_DefaultCost \<equiv> 10"

record 'w AuthService =
  aus_SignUp :: "string \<Rightarrow> string \<Rightarrow> string \<Rightarrow> ('w, (CreateUserRow \<times> string) result) state"
  aus_SignIn :: "string \<Rightarrow> string \<Rightarrow> ('w, (GetUserByEmailForLoginRow \<times> string) result) state"

record 'w authService =
  as_userRepo :: "'w UserRepository"
  as_jwtSecret :: bytes
  as_jwtTimeout :: duration

definition token_claims :: "int64 \<Rightarrow> time \<Rightarrow> time \<Rightarrow> any gomap" where
  "token_claims userID expires issued =
     [(''sub'', AInt64 userID), (''exp'', AInt64 (word_of_int (time_Unix expires))),
      (''iat'', AInt64 (word_of_int (time_Unix issued))), (''user_id'', AInt64 userID)]"

definition generateToken :: "'w env \<Rightarrow> 'w jwt_lib \<Rightarrow> 'w authService \<Rightarrow> int64 \<Rightarrow> ('w, string result) state" where
  "generateToken env jwt s userID = do {
     t1 \<leftarrow> time_Now env;
     t2 \<leftarrow> time_Now env;
     go_return (jwt_Sign jwt (token_claims userID (t1 + as_jwtTimeout s) t2) (as_jwtSecret s))
   }"

definition SignUp ::
  "'w env \<Rightarrow> 'w jwt_lib \<Rightarrow> 'w bcrypt_lib \<Rightarrow> 'w authService \<Rightarrow> string \<Rightarrow> string \<Rightarrow> string \<Rightarrow>
   ('w, (CreateUserRow \<times> string) result) state" where
  "SignUp env jwt bc s name email password = do {
     res \<leftarrow> usr_GetUserByEmail (as_userRepo s) email;
     case res of
       Inr _ \<Rightarrow> go_return (Inl ErrEmailExists)
     | Inl err \<Rightarrow>
         if \<not> errors_Is err ErrNoRows then go_return (Inl err)
         else do {
           res1 \<leftarrow> GenerateFromPassword bc password bcrypt_DefaultCost;
           case res1 of
             Inl err \<Rightarrow> go_return (Inl err)
           | Inr hashedPassword \<Rightarrow> do {
               res2 \<leftarrow> usr_CreateUser (as_userRepo s)
                 \<lparr>up_Name = name, up_Email = email, up_PasswordHash = hashedPassword, up_Plan = ''free''\<rparr>;
               case res2 of
                 Inl err \<Rightarrow> go_return (Inl (if errors_As_PgError err = Some UniqueViolation then ErrEmailExists else err))
               | Inr user \<Rightarrow> do {
                   res3 \<leftarrow> generateToken env jwt s (ur_ID user);
                   go_return (case res3 of Inl err \<Rightarrow> Inl err | Inr token \<Rightarrow> Inr (user, token))
                 }
             }
         }
   }"

definition SignIn ::
  "'w env \<Rightarrow> 'w jwt_lib \<Rightarrow> 'w bcrypt_lib \<Rightarrow> 'w authService \<Rightarrow> string \<Rightarrow> string \<Rightarrow>
   ('w, (GetUserByEmailForLoginRow \<times> string) result) state" where
  "SignIn env jwt bc s email password = do {
     res \<leftarrow> usr_GetUserByEmailForLogin (as_userRepo s) email;
     case res of
       Inl err \<Rightarrow> go_return (Inl ErrInvalidCredentials)
     | Inr user \<Rightarrow>
         (case CompareHashAndPassword bc (ul_PasswordHash user) password of
            Inl err \<Rightarrow> go_return (Inl ErrInvalidCredentials)
          | Inr _ \<Rightarrow> do {
              res2 \<leftarrow> generateToken env jwt s (ul_ID user);
              go_return (case res2 of Inl err \<Rightarrow> Inl err | Inr token \<Rightarrow> Inr (user, token))
            })
   }"

definition NewAuthService ::
  "'w env \<Rightarrow> 'w jwt_lib \<Rightarrow> 'w bcrypt_lib \<Rightarrow> 'w UserRepository \<Rightarrow> bytes \<Rightarrow> duration \<Rightarrow> 'w AuthService" where
  "NewAuthService env jwt bc userRepo jwtSecret jwtTimeout =
     (let s = \<lparr>as_userRepo = userRepo, as_jwtSecret = jwtSecret, as_jwtTimeout = jwtTimeout\<rparr>
      in \<lparr>aus_SignUp = SignUp env jwt bc s, aus_SignIn = SignIn env jwt bc s\<rparr>)"

subsection \<open>profile.go\<close>

record 'w ProfileService =
  prs_GetUserProfile :: "int64 \<Rightarrow> ('w, GetUserByIDRow result) state"

definition GetUserProfile :: "'w UserRepository \<Rightarrow> int64 \<Rightarrow> ('w, GetUserByIDRow result) state" where
  "GetUserProfile userRepo userID = usr_GetUserByID userRepo userID"

definition NewProfileService :: "'w UserRepository \<Rightarrow> 'w ProfileService" where
  "NewProfileService userRepo = \<lparr>prs_GetUserProfile = GetUserProfile userRepo\<rparr>"

section \<open>Inversion: one case per path\<close>

lemma SignUp_runs:
  assumes "runs_to (SignUp env jwt bc s name email password) w res w'"
  obtains (taken) row where "runs_to (usr_GetUserByEmail (as_userRepo s) email) w (Inr row) w'" "res = Inl ErrEmailExists"
  | (lookup_fails) e where "runs_to (usr_GetUserByEmail (as_userRepo s) email) w (Inl e) w'" "\<not> errors_Is e ErrNoRows" "res = Inl e"
  | (hash_fails) e e' w1 where "runs_to (usr_GetUserByEmail (as_userRepo s) email) w (Inl e) w1" "errors_Is e ErrNoRows"
      "runs_to (GenerateFromPassword bc password bcrypt_DefaultCost) w1 (Inl e') w'" "res = Inl e'"
  | (insert_fails) e e' h w1 w2 where "runs_to (usr_GetUserByEmail (as_userRepo s) email) w (Inl e) w1" "errors_Is e ErrNoRows"
      "runs_to (GenerateFromPassword bc password bcrypt_DefaultCost) w1 (Inr h) w2"
      "runs_to (usr_CreateUser (as_userRepo s)
         \<lparr>up_Name = name, up_Email = email, up_PasswordHash = h, up_Plan = ''free''\<rparr>) w2 (Inl e') w'"
      "res = Inl (if errors_As_PgError e' = Some UniqueViolation then ErrEmailExists else e')"
  | (created) e h user rt w1 w2 w3 where "runs_to (usr_GetUserByEmail (as_userRepo s) email) w (Inl e) w1" "errors_Is e ErrNoRows"
      "runs_to (GenerateFromPassword bc password bcrypt_DefaultCost) w1 (Inr h) w2"
      "runs_to (usr_CreateUser (as_userRepo s)
         \<lparr>up_Name = name, up_Email = email, up_PasswordHash = h, up_Plan = ''free''\<rparr>) w2 (Inr user) w3"
      "runs_to (generateToken env jwt s (ur_ID user)) w3 rt w'"
      "res = (case rt of Inl e \<Rightarrow> Inl e | Inr token \<Rightarrow> Inr (user, token))"
  using assms by (auto simp: SignUp_def go_run intro: that)

lemma SignIn_runs:
  assumes "runs_to (SignIn env jwt bc s email password) w res w'"
  obtains (lookup_fails) e where "runs_to (usr_GetUserByEmailForLogin (as_userRepo s) email) w (Inl e) w'" "res = Inl ErrInvalidCredentials"
  | (mismatch) row e where "runs_to (usr_GetUserByEmailForLogin (as_userRepo s) email) w (Inr row) w'"
      "CompareHashAndPassword bc (ul_PasswordHash row) password = Inl e" "res = Inl ErrInvalidCredentials"
  | (matched) row rt w1 where "runs_to (usr_GetUserByEmailForLogin (as_userRepo s) email) w (Inr row) w1"
      "CompareHashAndPassword bc (ul_PasswordHash row) password = Inr ()"
      "runs_to (generateToken env jwt s (ul_ID row)) w1 rt w'"
      "res = (case rt of Inl e \<Rightarrow> Inl e | Inr token \<Rightarrow> Inr (row, token))"
  using assms by (auto simp: SignIn_def go_run intro: that)

lemma Service_CreateAPIKey_runs:
  assumes "runs_to (Service_CreateAPIKey env ar userID label rateRPM) w res w'"
  obtains (no_random) e where "runs_to (rand_Read env 32) w (Inl e) w'" "res = Inl e"
  | (called) bs w1 r2 where "runs_to (rand_Read env 32) w (Inr bs) w1"
      "runs_to (akr_CreateAPIKey ar \<lparr>cp_UserID = userID, cp_KeyHash = HashAPIKey (EncodeToString bs),
         cp_Label = (if label \<noteq> [] then Some label else None), cp_RateRpm = ucast rateRPM\<rparr>) w1 r2 w'"
      "res = (case r2 of Inl err \<Rightarrow> Inl (if errors_Is err RepoErrAPIKeyLabelExists then SvcErrAPIKeyLabelExists else err)
              | Inr row \<Rightarrow> Inr (EncodeToString bs, row))"
proof -
  from assms obtain rr w1 where rr: "runs_to (rand_Read env 32) w rr w1" and
    rest: "runs_to (case (case rr of Inl e \<Rightarrow> Inl e | Inr bs \<Rightarrow> Inr (EncodeToString bs)) of
       Inl err \<Rightarrow> go_return (Inl err)
     | Inr plaintextKey \<Rightarrow> do {
         let params = \<lparr>cp_UserID = userID, cp_KeyHash = HashAPIKey plaintextKey,
                       cp_Label = (if label \<noteq> [] then Some label else None), cp_RateRpm = ucast rateRPM\<rparr>;
         res2 \<leftarrow> akr_CreateAPIKey ar params;
         go_return (case res2 of
             Inl err \<Rightarrow> Inl (if errors_Is err RepoErrAPIKeyLabelExists then SvcErrAPIKeyLabelExists else err)
           | Inr createdKey \<Rightarrow> Inr (plaintextKey, createdKey))
       }) w1 res w'"
    by (auto simp: Service_CreateAPIKey_def generateRandomKey_def runs_to_bind)
  show thesis
  proof (cases rr)
    case (Inl e)
    with rr rest show thesis by (auto intro: no_random)
  next
    case (Inr bs)
    with rr rest show thesis by (auto simp: runs_to_bind intro: called)
  qed
qed

end
