(* ===== verification/Requests.thy ===== *)
theory Requests
  imports Service Client
begin

text \<open>
  Request bodies of the HTTP API: the structs with their JSON names and \<open>validate\<close> tags, decoding, and
  the translation of a validation error into a message (\<open>validationErrorMessage\<close>).

  The validator (go-playground/validator) is an argument: a function on the reflected struct, which
  carries the field names, tags and values. The locale \<open>validator\<close> states the documented meaning of
  the tags the service uses; \<open>violations\<close> is that documentation as a function. In the locale the
  outcome for each request type is computed: which requests are accepted, and which message a rejected
  one gets.
\<close>

section \<open>Definitions\<close>

subsection \<open>Reflection\<close>

text \<open>
  A struct value as \<open>reflect\<close> shows it: type name, and per field its name, \<open>json\<close> tag, \<open>validate\<close>
  tag and value.
\<close>

datatype reflect_value =
    RString string
  | RInt goint
  | RFloat64 float64
  | RStruct string "(string \<times> string \<times> string \<times> reflect_value) list"

subsection \<open>Request structs\<close>

record apiKeyRequest =
  aq_Label :: string
  aq_RateRPM :: goint

definition reflect_apiKeyRequest :: "apiKeyRequest \<Rightarrow> reflect_value" where
  "reflect_apiKeyRequest r = RStruct ''apiKeyRequest''
     [(''Label'', ''label'', ''required,min=3,max=50'', RString (aq_Label r)),
      (''RateRPM'', ''rate_rpm'', ''omitempty,min=1,max=10000'', RInt (aq_RateRPM r))]"

definition set_apiKeyRequest :: "string \<Rightarrow> json \<Rightarrow> apiKeyRequest \<Rightarrow> apiKeyRequest result" where
  "set_apiKeyRequest n v r =
     (if n = ''label'' then bindR (dec_string v (aq_Label r)) (\<lambda>x. Inr (r\<lparr>aq_Label := x\<rparr>))
      else bindR (dec_int64 v (aq_RateRPM r)) (\<lambda>x. Inr (r\<lparr>aq_RateRPM := x\<rparr>)))"

definition dec_apiKeyRequest :: "json \<Rightarrow> apiKeyRequest result" where
  "dec_apiKeyRequest j =
     decode_struct [''label'', ''rate_rpm''] set_apiKeyRequest j \<lparr>aq_Label = [], aq_RateRPM = 0\<rparr>"

record predictFeatures =
  pf_TransactionID :: int64
  pf_Amount :: float64
  pf_MerchantType :: string
  pf_DeviceType :: string

record predictRequest =
  pr_Model :: string
  pr_Features :: predictFeatures

definition zero_predictRequest :: predictRequest where
  "zero_predictRequest = \<lparr>pr_Model = [], pr_Features =
     \<lparr>pf_TransactionID = 0, pf_Amount = f64_zero, pf_MerchantType = [], pf_DeviceType = []\<rparr>\<rparr>"

definition reflect_predictRequest :: "predictRequest \<Rightarrow> reflect_value" where
  "reflect_predictRequest r = RStruct ''predictRequest''
     [(''Model'', ''model'', ''required,oneof=logreg lightgbm xgboost'', RString (pr_Model r)),
      (''Features'', ''features'', ''required'', RStruct ''predictFeatures''
        [(''TransactionID'', ''transaction_id'', ''required'', RInt (pf_TransactionID (pr_Features r))),
         (''Amount'', ''amount'', ''required'', RFloat64 (pf_Amount (pr_Features r))),
         (''MerchantType'', ''merchant_type'', ''required'', RString (pf_MerchantType (pr_Features r))),
         (''DeviceType'', ''device_type'', ''required'', RString (pf_DeviceType (pr_Features r)))])]"

definition set_predictFeatures :: "string \<Rightarrow> json \<Rightarrow> predictFeatures \<Rightarrow> predictFeatures result" where
  "set_predictFeatures n v f =
     (if n = ''transaction_id'' then bindR (dec_int64 v (pf_TransactionID f)) (\<lambda>x. Inr (f\<lparr>pf_TransactionID := x\<rparr>))
      else if n = ''amount'' then bindR (dec_float64 v (pf_Amount f)) (\<lambda>x. Inr (f\<lparr>pf_Amount := x\<rparr>))
      else if n = ''merchant_type'' then bindR (dec_string v (pf_MerchantType f)) (\<lambda>x. Inr (f\<lparr>pf_MerchantType := x\<rparr>))
      else bindR (dec_string v (pf_DeviceType f)) (\<lambda>x. Inr (f\<lparr>pf_DeviceType := x\<rparr>)))"

definition set_predictRequest :: "string \<Rightarrow> json \<Rightarrow> predictRequest \<Rightarrow> predictRequest result" where
  "set_predictRequest n v r =
     (if n = ''model'' then bindR (dec_string v (pr_Model r)) (\<lambda>x. Inr (r\<lparr>pr_Model := x\<rparr>))
      else bindR (decode_struct [''transaction_id'', ''amount'', ''merchant_type'', ''device_type''] set_predictFeatures v
                   (pr_Features r)) (\<lambda>x. Inr (r\<lparr>pr_Features := x\<rparr>)))"

definition dec_predictRequest :: "json \<Rightarrow> predictRequest result" where
  "dec_predictRequest j = decode_struct [''model'', ''features''] set_predictRequest j zero_predictRequest"

record signUpRequest =
  su_Name :: string
  su_Email :: string
  su_Password :: string

definition reflect_signUpRequest :: "signUpRequest \<Rightarrow> reflect_value" where
  "reflect_signUpRequest r = RStruct ''signUpRequest''
     [(''Name'', ''name'', ''required,min=3,max=50'', RString (su_Name r)),
      (''Email'', ''email'', ''required,email'', RString (su_Email r)),
      (''Password'', ''password'', ''required,min=8,max=72'', RString (su_Password r))]"

definition set_signUpRequest :: "string \<Rightarrow> json \<Rightarrow> signUpRequest \<Rightarrow> signUpRequest result" where
  "set_signUpRequest n v r =
     (if n = ''name'' then bindR (dec_string v (su_Name r)) (\<lambda>x. Inr (r\<lparr>su_Name := x\<rparr>))
      else if n = ''email'' then bindR (dec_string v (su_Email r)) (\<lambda>x. Inr (r\<lparr>su_Email := x\<rparr>))
      else bindR (dec_string v (su_Password r)) (\<lambda>x. Inr (r\<lparr>su_Password := x\<rparr>)))"

definition dec_signUpRequest :: "json \<Rightarrow> signUpRequest result" where
  "dec_signUpRequest j =
     decode_struct [''name'', ''email'', ''password''] set_signUpRequest j \<lparr>su_Name = [], su_Email = [], su_Password = []\<rparr>"

record signInRequest =
  si_Email :: string
  si_Password :: string

definition reflect_signInRequest :: "signInRequest \<Rightarrow> reflect_value" where
  "reflect_signInRequest r = RStruct ''signInRequest''
     [(''Email'', ''email'', ''required,email'', RString (si_Email r)),
      (''Password'', ''password'', ''required'', RString (si_Password r))]"

definition set_signInRequest :: "string \<Rightarrow> json \<Rightarrow> signInRequest \<Rightarrow> signInRequest result" where
  "set_signInRequest n v r =
     (if n = ''email'' then bindR (dec_string v (si_Email r)) (\<lambda>x. Inr (r\<lparr>si_Email := x\<rparr>))
      else bindR (dec_string v (si_Password r)) (\<lambda>x. Inr (r\<lparr>si_Password := x\<rparr>)))"

definition dec_signInRequest :: "json \<Rightarrow> signInRequest result" where
  "dec_signInRequest j = decode_struct [''email'', ''password''] set_signInRequest j \<lparr>si_Email = [], si_Password = []\<rparr>"

subsection \<open>Validation errors\<close>

record field_error =
  fe_StructNamespace :: string
  fe_Tag :: string
  fe_Param :: string

text \<open>\<open>validator.ValidationErrors\<close> with its rendered text, or any other error.\<close>

datatype validation_error = ValidationErrors "field_error list" string | OtherValidationError string

primrec validation_Error :: "validation_error \<Rightarrow> string" where
  "validation_Error (ValidationErrors es s) = s"
| "validation_Error (OtherValidationError s) = s"

text \<open>The loop of \<open>validationErrorMessage\<close>; \<open>None\<close> is the panic of \<open>FieldByName\<close> on a non-struct.\<close>

fun namespace_field :: "reflect_value \<Rightarrow> string list \<Rightarrow> string option" where
  "namespace_field t [] = Some []"
| "namespace_field t (name # ns) =
     (case t of
        RStruct _ fs \<Rightarrow>
          (case find (\<lambda>f. fst f = name) fs of
             None \<Rightarrow> Some (strings_ToLower name)
           | Some (_, tag, _, ty) \<Rightarrow>
               let tagName = strings_Split tag (CHR '','') ! 0 in
               if ns = [] then Some (if tagName \<noteq> [] then tagName else strings_ToLower name)
               else namespace_field ty ns)
      | _ \<Rightarrow> None)"

text \<open>\<open>None\<close> stands for a panic.\<close>

definition validationErrorMessage :: "validation_error \<Rightarrow> string option" where
  "validationErrorMessage err =
     (case err of
        ValidationErrors errs _ \<Rightarrow>
          (case errs of
             [] \<Rightarrow> None
           | e # _ \<Rightarrow>
               map_option (\<lambda>fieldName.
                   if fe_Tag e = ''required'' then fieldName @ '' is required''
                   else if fe_Tag e = ''oneof'' then fieldName @ '' must be one of ['' @ fe_Param e @ '']''
                   else ''invalid '' @ fieldName)
                 (namespace_field (reflect_predictRequest zero_predictRequest)
                    (tl (strings_Split (fe_StructNamespace e) (CHR ''.'')))))
      | OtherValidationError _ \<Rightarrow> Some ''invalid request'')"

section \<open>What the validator documents\<close>

text \<open>
  \<open>min\<close> and \<open>max\<close> count the runes of a string and compare an integer; \<open>required\<close> rejects the zero
  value and is not applied to a nested struct, which is validated field by field; \<open>omitempty\<close> accepts
  the zero value; the first failing tag of a field is reported, with the path of struct field names.
\<close>

lemma snd_if_pos: "0 < snd p \<Longrightarrow> 0 < snd q \<Longrightarrow> 0 < snd (if b then p else q :: nat \<times> nat)"
  by simp

lemma DecodeRune_pos: "0 < snd (DecodeRune s)"
  unfolding DecodeRune_def Let_def by (intro snd_if_pos) (simp_all only: snd_conv zero_less_numeral zero_less_one)

lemma DecodeRune_shorter: "length (drop (snd (DecodeRune (c # s))) (c # s)) < Suc (length s)"
  using DecodeRune_pos [of "c # s"] by simp

function rune_count :: "string \<Rightarrow> nat" where
  "rune_count [] = 0"
| "rune_count (c # s) = Suc (rune_count (drop (snd (DecodeRune (c # s))) (c # s)))"
  by pat_completeness auto
termination
  by (relation "measure length") (simp, simp only: in_measure list.size DecodeRune_shorter add_Suc_right add_0_right)

fun has_value :: "reflect_value \<Rightarrow> bool" where
  "has_value (RString s) = (s \<noteq> [])"
| "has_value (RInt i) = (i \<noteq> 0)"
| "has_value (RFloat64 x) = (\<not> f64_eq x f64_zero)"
| "has_value (RStruct t fs) = True"

fun measure_of :: "reflect_value \<Rightarrow> int" where
  "measure_of (RString s) = int (rune_count s)"
| "measure_of (RInt i) = sint i"
| "measure_of _ = 0"

definition tag_holds :: "(string \<Rightarrow> bool) \<Rightarrow> reflect_value \<Rightarrow> string \<Rightarrow> string \<Rightarrow> bool" where
  "tag_holds is_email v tag param =
     (if tag = ''required'' then has_value v
      else if tag = ''min'' then int (nat_of_digits param) \<le> measure_of v
      else if tag = ''max'' then measure_of v \<le> int (nat_of_digits param)
      else if tag = ''oneof'' then (\<exists>p\<in>set (strings_Split param (CHR '' '')). v = RString p)
      else if tag = ''email'' then (\<exists>s. v = RString s \<and> is_email s)
      else True)"

definition split_tag :: "string \<Rightarrow> string \<times> string" where
  "split_tag t = (case strings_Split t (CHR ''='') of [n, p] \<Rightarrow> (n, p) | _ \<Rightarrow> (t, []))"

fun first_violation :: "(string \<Rightarrow> bool) \<Rightarrow> reflect_value \<Rightarrow> string list \<Rightarrow> (string \<times> string) option" where
  "first_violation is_email v [] = None"
| "first_violation is_email v (t # ts) =
     (if t = ''omitempty'' then (if has_value v then first_violation is_email v ts else None)
      else case split_tag t of (n, p) \<Rightarrow>
        if tag_holds is_email v n p then first_violation is_email v ts else Some (n, p))"

definition check_tags :: "(string \<Rightarrow> bool) \<Rightarrow> reflect_value \<Rightarrow> string \<Rightarrow> (string \<times> string) option" where
  "check_tags is_email v tag = first_violation is_email v (strings_Split tag (CHR '',''))"

fun violations :: "(string \<Rightarrow> bool) \<Rightarrow> string \<Rightarrow> reflect_value \<Rightarrow> field_error list" where
  "violations is_email ns (RStruct t fs) =
     concat (map (\<lambda>(name, json_tag, tag, v).
       case v of
         RStruct _ _ \<Rightarrow> violations is_email (ns @ ''.'' @ name) v
       | _ \<Rightarrow> (case check_tags is_email v tag of
                None \<Rightarrow> []
              | Some (n, p) \<Rightarrow> [\<lparr>fe_StructNamespace = ns @ ''.'' @ name, fe_Tag = n, fe_Param = p\<rparr>])) fs)"
| "violations is_email ns v = []"

definition type_name :: "reflect_value \<Rightarrow> string" where
  "type_name v = (case v of RStruct t _ \<Rightarrow> t | _ \<Rightarrow> [])"

section \<open>Outcomes\<close>

text \<open>The message for a prediction request, by the first field that is wrong.\<close>

definition predict_violation :: "predictRequest \<Rightarrow> string option" where
  "predict_violation r =
     (if pr_Model r = [] then Some ''model is required''
      else if pr_Model r \<notin> {''logreg'', ''lightgbm'', ''xgboost''}
        then Some ''model must be one of [logreg lightgbm xgboost]''
      else if pf_TransactionID (pr_Features r) = 0 then Some ''transaction_id is required''
      else if f64_eq (pf_Amount (pr_Features r)) f64_zero then Some ''amount is required''
      else if pf_MerchantType (pr_Features r) = [] then Some ''merchant_type is required''
      else if pf_DeviceType (pr_Features r) = [] then Some ''device_type is required''
      else None)"

text \<open>Each combination of tags the service uses, evaluated.\<close>

lemma tag_outcomes:
  "check_tags is_email v ''required'' = (if has_value v then None else Some (''required'', []))"
  "check_tags is_email v ''required,min=3,max=50'' =
     (if \<not> has_value v then Some (''required'', []) else if measure_of v < 3 then Some (''min'', ''3'')
      else if 50 < measure_of v then Some (''max'', ''50'') else None)"
  "check_tags is_email v ''required,min=8,max=72'' =
     (if \<not> has_value v then Some (''required'', []) else if measure_of v < 8 then Some (''min'', ''8'')
      else if 72 < measure_of v then Some (''max'', ''72'') else None)"
  "check_tags is_email v ''omitempty,min=1,max=10000'' =
     (if \<not> has_value v then None else if measure_of v < 1 then Some (''min'', ''1'')
      else if 10000 < measure_of v then Some (''max'', ''10000'') else None)"
  "check_tags is_email v ''required,email'' =
     (if \<not> has_value v then Some (''required'', [])
      else if \<exists>s. v = RString s \<and> is_email s then None else Some (''email'', []))"
  "check_tags is_email v ''required,oneof=logreg lightgbm xgboost'' =
     (if \<not> has_value v then Some (''required'', [])
      else if v \<in> RString ` {''logreg'', ''lightgbm'', ''xgboost''} then None
      else Some (''oneof'', ''logreg lightgbm xgboost''))"
  by (simp_all add: check_tags_def split_tag_def tag_holds_def nat_of_digits_def digit_value_def) blast

text \<open>The message for the first violation of a prediction request.\<close>

lemma first_message:
  assumes "violations is_email ''predictRequest'' (reflect_predictRequest r) \<noteq> []"
  shows "validationErrorMessage (ValidationErrors (violations is_email ''predictRequest'' (reflect_predictRequest r)) s)
    = predict_violation r"
  using assms
  by (simp add: reflect_predictRequest_def tag_outcomes predict_violation_def validationErrorMessage_def
      zero_predictRequest_def split: if_splits)

lemma predict_violation_reject:
  "violations is_email ''predictRequest'' (reflect_predictRequest r) \<noteq> [] \<Longrightarrow> \<exists>m. predict_violation r = Some m"
  by (auto simp: reflect_predictRequest_def tag_outcomes predict_violation_def split: if_splits)

locale validator =
  fixes Struct :: "reflect_value \<Rightarrow> validation_error option"
    and is_email :: "string \<Rightarrow> bool"
  assumes accepts: "violations is_email (type_name v) v = [] \<Longrightarrow> Struct v = None"
    and rejects: "violations is_email (type_name v) v \<noteq> [] \<Longrightarrow>
          \<exists>s. Struct v = Some (ValidationErrors (violations is_email (type_name v) v) s)"
begin

lemma Struct_None_iff: "Struct v = None \<longleftrightarrow> violations is_email (type_name v) v = []"
  using accepts [of v] rejects [of v] by (cases "violations is_email (type_name v) v = []") auto

lemma apiKeyRequest_valid:
  "Struct (reflect_apiKeyRequest r) = None \<longleftrightarrow>
     aq_Label r \<noteq> [] \<and> 3 \<le> rune_count (aq_Label r) \<and> rune_count (aq_Label r) \<le> 50
     \<and> (aq_RateRPM r = 0 \<or> 1 \<le> sint (aq_RateRPM r) \<and> sint (aq_RateRPM r) \<le> 10000)"
  unfolding Struct_None_iff by (simp add: reflect_apiKeyRequest_def tag_outcomes)

lemma signUpRequest_valid:
  "Struct (reflect_signUpRequest r) = None \<longleftrightarrow>
     su_Name r \<noteq> [] \<and> 3 \<le> rune_count (su_Name r) \<and> rune_count (su_Name r) \<le> 50
     \<and> su_Email r \<noteq> [] \<and> is_email (su_Email r)
     \<and> su_Password r \<noteq> [] \<and> 8 \<le> rune_count (su_Password r) \<and> rune_count (su_Password r) \<le> 72"
  unfolding Struct_None_iff by (simp add: reflect_signUpRequest_def tag_outcomes)

lemma signInRequest_valid:
  "Struct (reflect_signInRequest r) = None \<longleftrightarrow>
     si_Email r \<noteq> [] \<and> is_email (si_Email r) \<and> si_Password r \<noteq> []"
  unfolding Struct_None_iff by (simp add: reflect_signInRequest_def tag_outcomes)

lemma predictRequest_message:
  "map_option validationErrorMessage (Struct (reflect_predictRequest r)) = map_option Some (predict_violation r)"
proof (cases "violations is_email ''predictRequest'' (reflect_predictRequest r) = []")
  case True
  then have "Struct (reflect_predictRequest r) = None"
    by (simp add: Struct_None_iff type_name_def reflect_predictRequest_def)
  moreover from True have "predict_violation r = None"
    by (simp add: reflect_predictRequest_def tag_outcomes predict_violation_def split: if_splits)
  ultimately show ?thesis by simp
next
  case False
  then obtain s where "Struct (reflect_predictRequest r) =
       Some (ValidationErrors (violations is_email ''predictRequest'' (reflect_predictRequest r)) s)"
    using rejects [of "reflect_predictRequest r"] by (auto simp: type_name_def reflect_predictRequest_def)
  with False show ?thesis
    using first_message [OF False, of s] predict_violation_reject [OF False] by auto
qed

end

text \<open>A validator that does what the documentation says; its e-mail test is an inner at-sign.\<close>

definition ref_email :: "string \<Rightarrow> bool" where
  "ref_email s \<longleftrightarrow> (case strings_Split s (CHR ''@'') of [a, b] \<Rightarrow> a \<noteq> [] \<and> b \<noteq> [] | _ \<Rightarrow> False)"

definition ref_validate :: "reflect_value \<Rightarrow> validation_error option" where
  "ref_validate v =
     (case violations ref_email (type_name v) v of
        [] \<Rightarrow> None
      | es \<Rightarrow> Some (ValidationErrors es (join (''; '') (map fe_StructNamespace es))))"

interpretation ref_validator: validator ref_validate ref_email
  by unfold_locales (auto simp: ref_validate_def split: list.splits)

end
