(* ===== verification/Vendor.thy ===== *)
theory Vendor
  imports World
begin

text \<open>
  \<open>internal/service/vendor.go\<close>: listing the vendor's models and asking for a prediction. A Go map is
  an association list whose order stands for the unspecified iteration order; \<open>ensureDecimal\<close>
  updates the caller's feature map in place, so \<open>Predict\<close> also returns the map it leaves behind.

  Facts: the model list is sorted and does not depend on the iteration order; \<open>ensureDecimal\<close> gives
  every amount below \<open>2 ^ 47\<close> a fractional part and touches nothing else, but leaves larger whole
  amounts as they are; every client call counts at most one request and at most one error.
\<close>

section \<open>Definitions\<close>

record Model =
  sm_ModelType :: string
  sm_Name :: string
  sm_Version :: string
  sm_Stage :: string
  sm_RunID :: string
  sm_SignatureInputs :: "string list option"

record PredictRequest =
  pq_Model :: string
  pq_Features :: "any gomap"

record PredictResponseMeta =
  rm_ModelName :: string
  rm_RunID :: string
  rm_RequestID :: string
  rm_Timestamp :: string
  rm_LatencyMs :: float64

record PredictResponse =
  rs_Meta :: PredictResponseMeta
  rs_Result :: PredictResult

record 'w VendorService =
  vns_Ping :: "('w, string result) state"
  vns_ListModels :: "('w, Model list result) state"
  vns_Predict :: "PredictRequest \<Rightarrow> ('w, PredictResponse result \<times> any gomap) state"

definition model_entry :: "string \<times> clients_Model \<Rightarrow> Model" where
  "model_entry e = (case e of (modelType, m) \<Rightarrow>
     \<lparr>sm_ModelType = modelType, sm_Name = cm_Name m, sm_Version = cm_Version m, sm_Stage = cm_Stage m,
      sm_RunID = cm_RunID m, sm_SignatureInputs = cm_SignatureInputs m\<rparr>)"

text \<open>The loop over \<open>LoadedModels\<close> and \<open>sort.Slice\<close> by model type.\<close>

definition sorted_models :: "clients_Model gomap \<Rightarrow> Model list" where
  "sorted_models loaded = sort_key sm_ModelType (map model_entry loaded)"

definition ListModels :: "'w telemetry \<Rightarrow> 'w ThirdPartyClient \<Rightarrow> ('w, Model list result) state" where
  "ListModels m client = do {
     res \<leftarrow> Client_Version m client;
     go_return (case res of Inl err \<Rightarrow> Inl err | Inr version \<Rightarrow> Inr (sorted_models (vr_LoadedModels version)))
   }"

text \<open>\<open>v == float64(int64(v))\<close>: the test for a float without a fractional part.\<close>

definition is_whole :: "(float64 \<Rightarrow> int64) \<Rightarrow> float64 \<Rightarrow> bool" where
  "is_whole ovf v = f64_eq v (f64_of_int (sint (f64_to_int64 ovf v)))"

definition ensureDecimal :: "(float64 \<Rightarrow> int64) \<Rightarrow> any gomap \<Rightarrow> any gomap" where
  "ensureDecimal ovf features =
     (case map_of features ''amount'' of
        Some (AFloat64 v) \<Rightarrow>
          if is_whole ovf v then AList.update ''amount'' (AFloat64 (f64_add v f64_0_01)) features else features
      | Some (AInt v) \<Rightarrow> AList.update ''amount'' (AFloat64 (f64_add (f64_of_int (sint v)) f64_0_01)) features
      | Some (AInt64 v) \<Rightarrow> AList.update ''amount'' (AFloat64 (f64_add (f64_of_int (sint v)) f64_0_01)) features
      | Some (AFloat32 v) \<Rightarrow>
          AList.update ''amount'' (AFloat64 (if is_whole ovf v then f64_add v f64_0_01 else v)) features
      | _ \<Rightarrow> features)"

definition map_response :: "clients_PredictResponse \<Rightarrow> PredictResponse" where
  "map_response v =
     \<lparr>rs_Meta = \<lparr>rm_ModelName = pm_ModelName (cs_Meta v), rm_RunID = pm_RunID (cs_Meta v),
                  rm_RequestID = pm_RequestID (cs_Meta v), rm_Timestamp = pm_Timestamp (cs_Meta v),
                  rm_LatencyMs = pm_LatencyMs (cs_Meta v)\<rparr>,
      rs_Result = \<lparr>pt_Prediction = pt_Prediction (cs_Result v), pt_Score = pt_Score (cs_Result v),
                    pt_Threshold = pt_Threshold (cs_Result v)\<rparr>\<rparr>"

text \<open>A float in a log line, as its JSON text.\<close>

definition f64_text :: "float64 \<Rightarrow> string" where
  "f64_text x = (case json_float x of Some (JNum s) \<Rightarrow> s | _ \<Rightarrow> ''NaN'')"

definition Predict ::
  "(float64 \<Rightarrow> int64) \<Rightarrow> 'w env \<Rightarrow> 'w telemetry \<Rightarrow> 'w ThirdPartyClient \<Rightarrow> PredictRequest \<Rightarrow>
   ('w, PredictResponse result \<times> any gomap) state" where
  "Predict ovf env m client req = do {
     zerolog env ''info'' [(''model'', pq_Model req)] ''predict request'';
     let features = ensureDecimal ovf (pq_Features req);
     res \<leftarrow> Client_Predict m client \<lparr>cq_Model = pq_Model req, cq_Features = features\<rparr>;
     case res of
       Inl err \<Rightarrow> do {
         zerolog env ''error'' [(''error'', Error err)] ''predict request failed'';
         go_return (Inl err, features)
       }
     | Inr vendorResp \<Rightarrow> do {
         let resp = map_response vendorResp;
         zerolog env ''info'' [(''model'', rm_ModelName (rs_Meta resp)),
           (''prediction'', FormatInt (pt_Prediction (rs_Result resp))), (''score'', f64_text (pt_Score (rs_Result resp)))]
           ''predict response'';
         go_return (Inr resp, features)
       }
   }"

definition NewVendorService ::
  "(float64 \<Rightarrow> int64) \<Rightarrow> 'w env \<Rightarrow> 'w telemetry \<Rightarrow> 'w ThirdPartyClient \<Rightarrow> 'w VendorService" where
  "NewVendorService ovf env m client = \<lparr>
     vns_Ping = Client_Ping m client,
     vns_ListModels = ListModels m client,
     vns_Predict = Predict ovf env m client\<rparr>"

section \<open>Facts\<close>

subsection \<open>Models\<close>

lemma model_entry_type [simp]: "sm_ModelType (model_entry e) = fst e"
  by (simp add: model_entry_def split: prod.splits)

lemma dec_model_members_distinct:
  "dec_model_members kvs m = Inr m' \<Longrightarrow> distinct (map fst m) \<Longrightarrow> distinct (map fst m')"
proof (induction kvs m rule: dec_model_members.induct)
  case (2 k v kvs m)
  then show ?case by (cases "dec_Model v") (auto simp: distinct_update)
qed simp

subsection \<open>Whole floats\<close>

lemma is_whole_int:
  assumes "\<bar>i\<bar> \<le> 2 ^ 53"
  shows "is_whole ovf (f64_of_int i)"
proof -
  have "sint (word_of_int i :: int64) = i"
    by (rule sint64_of_int) (use assms in auto)
  then show ?thesis
    unfolding is_whole_def int64_of_f64_of_int [OF assms]
    using f64_of_int_exact [OF assms] by (simp add: f64_eq_def)
qed

lemma update_amount:
  "map_of (AList.update ''amount'' v m) k = (if k = ''amount'' then Some v else map_of m k)"
  by (simp add: update_conv')

lemma ensureDecimal_other:
  "k \<noteq> ''amount'' \<Longrightarrow> map_of (ensureDecimal ovf m) k = map_of m k"
  by (auto simp: ensureDecimal_def update_amount split: option.splits any.splits)

section \<open>Theorems\<close>

text \<open>
  C24. \<open>ListModels\<close> is deterministic although it iterates over a Go map: two iteration orders of the
  same loaded models give the same list, which has one entry per model and is strictly increasing in
  the model type.
\<close>

theorem models_sorted_and_deterministic:
  assumes "distinct (map fst m)" "distinct (map fst m')" "set m = set m'"
  shows "sorted_models m = sorted_models m'
    \<and> sorted_wrt (<) (map sm_ModelType (sorted_models m))
    \<and> set (sorted_models m) = model_entry ` set m \<and> length (sorted_models m) = length m"
proof -
  have types: "map sm_ModelType (map model_entry x) = map fst x" for x :: "clients_Model gomap" by simp
  have "mset m = mset m'"
    using assms by (intro set_eq_iff_mset_eq_distinct [THEN iffD1]) (auto simp: distinct_map)
  then have "mset (map model_entry m) = mset (map model_entry m')" by simp
  moreover have inj: "inj_on sm_ModelType (set (map model_entry m))"
    using assms(1) by (simp add: distinct_map inj_on_def) (metis assms(1) eq_key_imp_eq_value prod.collapse)
  ultimately have "sorted_models m = sorted_models m'"
    unfolding sorted_models_def by (intro sort_key_inj_key_eq) auto
  moreover have "distinct (map sm_ModelType (sorted_models m))"
  proof -
    have "mset (map sm_ModelType (sorted_models m)) = mset (map fst m)"
      using types [of m] by (simp add: sorted_models_def multiset.map_comp o_def)
    with assms(1) show ?thesis by (metis mset_eq_imp_distinct_iff)
  qed
  then have "sorted_wrt (<) (map sm_ModelType (sorted_models m))"
    by (simp add: strict_sorted_iff sorted_models_def)
  moreover have "set (sorted_models m) = model_entry ` set m" "length (sorted_models m) = length m"
    by (simp_all add: sorted_models_def)
  ultimately show ?thesis by blast
qed

theorem models_sorted_and_deterministic_witness:
  "sorted_models [(''xgboost'', zero_Model), (''logreg'', zero_Model)] = sorted_models [(''logreg'', zero_Model), (''xgboost'', zero_Model)]"
  using models_sorted_and_deterministic
    [of "[(''xgboost'', zero_Model), (''logreg'', zero_Model)]" "[(''logreg'', zero_Model), (''xgboost'', zero_Model)]"]
  by auto

text \<open>
  C25. \<open>ensureDecimal\<close> does what it says for amounts below \<open>2 ^ 47\<close>: a whole amount gets a fractional
  part, and no other feature changes.
\<close>

theorem ensureDecimal_adds_fraction:
  assumes "map_of features ''amount'' = Some (AFloat64 (f64_of_int i))" "\<bar>i\<bar> < 2 ^ 47"
  shows "(\<exists>x. map_of (ensureDecimal ovf features) ''amount'' = Some (AFloat64 x) \<and> \<not> integral x)
    \<and> map_of (ensureDecimal ovf features) |` (- {''amount''}) = map_of features |` (- {''amount''})"
proof -
  have "is_whole ovf (f64_of_int i)" by (rule is_whole_int) (use assms(2) in auto)
  then have "map_of (ensureDecimal ovf features) ''amount'' = Some (AFloat64 (f64_add (f64_of_int i) f64_0_01))"
    using assms(1) by (simp add: ensureDecimal_def update_amount)
  with add_hundredth_small(1) [OF assms(2)] show ?thesis
    by (auto simp: restrict_map_def fun_eq_iff ensureDecimal_other)
qed

theorem ensureDecimal_adds_fraction_witness:
  "\<exists>x. map_of (ensureDecimal (\<lambda>_. 0) [(''amount'', AFloat64 (f64_of_int 200))]) ''amount'' = Some (AFloat64 x) \<and> \<not> integral x"
  using ensureDecimal_adds_fraction [of "[(''amount'', AFloat64 (f64_of_int 200))]" 200 "\<lambda>_. 0"] by simp

text \<open>
  C34. For a whole amount from \<open>2 ^ 47\<close> (about 1.4e14) up to \<open>2 ^ 53\<close>, the range in which every integer is
  a float64, the hundredth is lost in rounding: \<open>ensureDecimal\<close> leaves the amount unchanged and whole.
\<close>

theorem ensureDecimal_misses_large_amounts:
  assumes "map_of features ''amount'' = Some (AFloat64 (f64_of_int i))" "2 ^ 47 \<le> i" "i \<le> 2 ^ 53"
  shows "map_of (ensureDecimal ovf features) ''amount'' = Some (AFloat64 (f64_of_int i)) \<and> integral (f64_of_int i)"
proof -
  have i: "\<bar>i\<bar> \<le> 2 ^ 53" using assms(2,3) by auto
  have "integral (f64_of_int i)" using f64_of_int_exact [OF i] by (simp add: integral_def)
  with is_whole_int [OF i] add_hundredth_large [OF assms(2,3)] assms(1) show ?thesis
    by (simp add: ensureDecimal_def update_amount)
qed

theorem ensureDecimal_misses_large_amounts_witness:
  "map_of (ensureDecimal (\<lambda>_. 0) [(''amount'', AFloat64 (f64_of_int 200000000000000))]) ''amount''
     = Some (AFloat64 (f64_of_int 200000000000000))"
  using ensureDecimal_misses_large_amounts [of "[(''amount'', AFloat64 (f64_of_int 200000000000000))]" 200000000000000 "\<lambda>_. 0"]
  by simp

text \<open>
  C23. Every vendor call (\<open>Ping\<close>, \<open>Version\<close>, \<open>Predict\<close>) moves the Prometheus counters in one of
  three ways: a success counts one request and no error; a failed request counts one request and one
  error; a call the open breaker rejects counts nothing and returns an error.
\<close>

theorem vendor_calls_are_counted:
  assumes "vendor_metrics m c reqs errs"
    and "runs_to (Client_Ping m c) w0 r0 w0'" "runs_to (Client_Version m c) w1 r1 w1'" "runs_to (Client_Predict m c req) w2 r2 w2'"
  shows "vendor_outcome reqs errs w0 r0 w0' \<and> vendor_outcome reqs errs w1 r1 w1' \<and> vendor_outcome reqs errs w2 r2 w2'"
  using vendor_metrics.Client_Ping_outcome [OF assms(1,2)] vendor_metrics.Client_Version_outcome [OF assms(1,3)]
    vendor_metrics.Client_Predict_outcome [OF assms(1,4)] by blast

theorem vendor_calls_are_counted_witness:
  "vendor_outcome w_vendor_requests w_vendor_errors world1 (val_of (Client_Ping ref_telemetry ref_client) world1)
     (end_of (Client_Ping ref_telemetry ref_client) world1)"
  using vendor_calls_are_counted [OF ref_metrics.vendor_metrics_axioms runs_to_val_of runs_to_val_of runs_to_val_of] by blast

end
