(* ===== verification/Go_Time.thy ===== *)
theory Go_Time
  imports Go_Http
begin

text \<open>
  \<open>time.Time.MarshalJSON\<close>: RFC 3339 with nanoseconds, in UTC (the zone of the deployed container). The
  civil date is computed from the day number by the usual 400-year cycle. Years outside 0 to 9999
  are an error.
\<close>

section \<open>Definitions\<close>

definition civil_date :: "int \<Rightarrow> int \<times> int \<times> int" where
  "civil_date days =
     (let z = days + 719468;
          era = z div 146097;
          doe = z mod 146097;
          yoe = (doe - doe div 1460 + doe div 36524 - doe div 146096) div 365;
          doy = doe - (365 * yoe + yoe div 4 - yoe div 100);
          mp = (5 * doy + 2) div 153;
          d = doy - (153 * mp + 2) div 5 + 1;
          m = (if mp < 10 then mp + 3 else mp - 9)
      in (yoe + era * 400 + (if m \<le> 2 then 1 else 0), m, d))"

definition pad :: "nat \<Rightarrow> int \<Rightarrow> string" where
  "pad n i = (let s = fmt_int i in replicate (n - length s) (CHR ''0'') @ s)"

definition fraction_digits :: "int \<Rightarrow> string" where
  "fraction_digits ns =
     (if ns = 0 then [] else CHR ''.'' # rev (dropWhile (\<lambda>c. c = CHR ''0'') (rev (pad 9 ns))))"

definition format_time :: "time \<Rightarrow> string option" where
  "format_time t =
     (let s = t div second; days = s div 86400; r = s mod 86400
      in case civil_date days of (y, m, d) \<Rightarrow>
           if y < 0 \<or> 9999 < y then None
           else Some (pad 4 y @ ''-'' @ pad 2 m @ ''-'' @ pad 2 d @ ''T'' @ pad 2 (r div 3600) @ '':''
                  @ pad 2 (r div 60 mod 60) @ '':'' @ pad 2 (r mod 60) @ fraction_digits (t mod second) @ ''Z''))"

definition json_time :: "time \<Rightarrow> json option" where
  "json_time t = map_option JStr (format_time t)"

section \<open>Facts\<close>

lemma epoch: "format_time 0 = Some ''1970-01-01T00:00:00Z''"
  by code_simp

lemma leap_day: "civil_date 11016 = (2000, 2, 29)"
  by code_simp

end
