(* ===== verification/Connect.thy ===== *)
theory Connect
  imports Db Redis
begin

text \<open>
  \<open>internal/db/database.go\<close> and \<open>internal/db/redis.go\<close>: opening the connection pool and the Redis
  client. The driver (\<open>sql.Open\<close>) and go-redis (\<open>redis.NewClient\<close>) are arguments; a pool handle is a
  record of the operations the service calls on \<open>*sql.DB\<close>.
\<close>

record 'w sql_DB =
  sd_DBTX :: "'w DBTX"
  sd_PingContext :: "('w, unit result) state"
  sd_SetMaxOpenConns :: "goint \<Rightarrow> 'w proc"
  sd_SetMaxIdleConns :: "goint \<Rightarrow> 'w proc"
  sd_SetConnMaxLifetime :: "duration \<Rightarrow> 'w proc"
  sd_Close :: "'w proc"

text \<open>
  The context with the five-second deadline is the second argument of \<open>ping\<close>.
\<close>

definition NewDatabase ::
  "(string \<Rightarrow> string \<Rightarrow> ('w, 'w sql_DB result) state) \<Rightarrow> ('w sql_DB \<Rightarrow> duration \<Rightarrow> ('w, unit result) state) \<Rightarrow>
   string \<Rightarrow> goint \<Rightarrow> goint \<Rightarrow> duration \<Rightarrow> ('w, 'w sql_DB result) state" where
  "NewDatabase sql_Open ping_within dsn maxOpenConns maxIdleConns connMaxLifetime = do {
     res \<leftarrow> sql_Open ''pgx'' dsn;
     case res of
       Inl err \<Rightarrow> go_return (Inl err)
     | Inr db \<Rightarrow> do {
         sd_SetMaxOpenConns db maxOpenConns;
         sd_SetMaxIdleConns db maxIdleConns;
         sd_SetConnMaxLifetime db connMaxLifetime;
         res2 \<leftarrow> ping_within db (5 * second);
         go_return (case res2 of Inl err \<Rightarrow> Inl err | Inr _ \<Rightarrow> Inr db)
       }
   }"

record redis_Options =
  ro_Addr :: string
  ro_Password :: string
  ro_DB :: goint

definition NewRedisClient :: "(redis_Options \<Rightarrow> 'w redis_client) \<Rightarrow> string \<Rightarrow> string \<Rightarrow> goint \<Rightarrow> 'w redis_client" where
  "NewRedisClient redis_NewClient addr password db =
     redis_NewClient \<lparr>ro_Addr = addr, ro_Password = password, ro_DB = db\<rparr>"

end
