(* ===== verification/Handlers.thy ===== *)
theory Handlers
  imports Requests Vendor Go_Time Connect
begin

text \<open>
  \<open>internal/transport/http/handlers.go\<close> and \<open>auth_handlers.go\<close>: one definition per handler, over the
  services they are given. The validator is the argument \<open>validate\<close>. JSON objects built from a Go map
  have their members in increasing key order, those built from a struct in field order.
\<close>

section \<open>Helpers of handlers.go\<close>

definition maxBodyBytes :: nat where
  "maxBodyBytes = 2 ^ 20"

text \<open>What a panicking handler answers: \<open>middleware.Recoverer\<close> sends status 500 without a body.\<close>

definition recovered_panic :: "response_writer \<Rightarrow> response_writer" where
  "recovered_panic w = WriteHeader 500 w"

record apiKeyResponse =
  ak_ID :: int64
  ak_Label :: string
  ak_Key :: string
  ak_Active :: bool
  ak_RateRPM :: int32
  ak_LastUsedAt :: "time option"
  ak_CreatedAt :: time

text \<open>An optional member: a nil pointer is \<open>null\<close>, an unprintable value makes the whole fail.\<close>

definition json_ptr :: "('a \<Rightarrow> json option) \<Rightarrow> 'a option \<Rightarrow> json option" where
  "json_ptr f x = (case x of None \<Rightarrow> Some JNull | Some a \<Rightarrow> f a)"

definition json_apiKeyResponse :: "apiKeyResponse \<Rightarrow> json option" where
  "json_apiKeyResponse a =
     (case (json_ptr json_time (ak_LastUsedAt a), json_time (ak_CreatedAt a)) of
        (Some l, Some c) \<Rightarrow> Some (JObj [(''id'', JNum (FormatInt (ak_ID a))), (''label'', JStr (ak_Label a)),
          (''key'', JStr (ak_Key a)), (''active'', JBool (ak_Active a)), (''rate_rpm'', JNum (FormatInt (ak_RateRPM a))),
          (''last_used_at'', l), (''created_at'', c)])
      | _ \<Rightarrow> None)"

text \<open>\<open>sql.NullString\<close> has no JSON tags of its own: it is written with its two Go fields.\<close>

definition json_NullString :: "string option \<Rightarrow> json" where
  "json_NullString x = JObj [(''String'', JStr (case x of None \<Rightarrow> [] | Some s \<Rightarrow> s)), (''Valid'', JBool (x \<noteq> None))]"

definition json_CreateAPIKeyRow :: "CreateAPIKeyRow \<Rightarrow> json option" where
  "json_CreateAPIKeyRow c =
     map_option (\<lambda>t. JObj [(''id'', JNum (FormatInt (cr_ID c))), (''user_id'', JNum (FormatInt (cr_UserID c))),
         (''label'', json_NullString (cr_Label c)), (''active'', JBool (cr_Active c)),
         (''rate_rpm'', JNum (FormatInt (cr_RateRpm c))), (''created_at'', t)])
       (json_time (cr_CreatedAt c))"

definition json_UserRow :: "UserRow \<Rightarrow> json option" where
  "json_UserRow u =
     (case (json_time (ur_CreatedAt u), json_time (ur_UpdatedAt u)) of
        (Some c, Some t) \<Rightarrow> Some (JObj [(''id'', JNum (FormatInt (ur_ID u))), (''name'', JStr (ur_Name u)),
          (''email'', JStr (ur_Email u)), (''plan'', JStr (ur_Plan u)), (''created_at'', c), (''updated_at'', t)])
      | _ \<Rightarrow> None)"

definition json_Model :: "Model \<Rightarrow> json" where
  "json_Model m = JObj [(''model_type'', JStr (sm_ModelType m)), (''name'', JStr (sm_Name m)),
     (''version'', JStr (sm_Version m)), (''stage'', JStr (sm_Stage m)), (''run_id'', JStr (sm_RunID m)),
     (''signature_inputs'', case sm_SignatureInputs m of None \<Rightarrow> JNull | Some xs \<Rightarrow> JArr (map JStr xs))]"

definition json_PredictRequest :: "PredictRequest \<Rightarrow> json option" where
  "json_PredictRequest r =
     map_option (\<lambda>f. JObj [(''model'', JStr (pq_Model r)), (''features'', f)]) (any_json (AMap (pq_Features r)))"

definition json_PredictResponse :: "PredictResponse \<Rightarrow> json option" where
  "json_PredictResponse p =
     (case (json_float (rm_LatencyMs (rs_Meta p)), json_float (pt_Score (rs_Result p)), json_float (pt_Threshold (rs_Result p))) of
        (Some l, Some s, Some t) \<Rightarrow> Some (JObj
          [(''meta'', JObj [(''model_name'', JStr (rm_ModelName (rs_Meta p))), (''run_id'', JStr (rm_RunID (rs_Meta p))),
             (''request_id'', JStr (rm_RequestID (rs_Meta p))), (''timestamp'', JStr (rm_Timestamp (rs_Meta p))),
             (''latency_ms'', l)]),
           (''result'', JObj [(''prediction'', JNum (FormatInt (pt_Prediction (rs_Result p)))), (''score'', s),
             (''threshold'', t)])])
      | _ \<Rightarrow> None)"

definition maskAPIKey :: "string \<Rightarrow> string" where
  "maskAPIKey key =
     (let prefixLen = 10; suffixLen = 6
      in if length key \<le> prefixLen + suffixLen then key
         else let maskedLen = length key - prefixLen - suffixLen
              in take prefixLen key @ strings_Repeat ''*'' maskedLen @ drop (length key - suffixLen) key)"

definition sensitive_key :: "string \<Rightarrow> bool" where
  "sensitive_key k \<longleftrightarrow>
     (let lower = strings_ToLower k
      in strings_Contains lower ''name'' \<or> strings_Contains lower ''email''
         \<or> strings_Contains lower ''phone'' \<or> strings_Contains lower ''password'')"

definition maskSensitiveData :: "any gomap \<Rightarrow> any gomap" where
  "maskSensitiveData data = map (\<lambda>(k, v). (k, if sensitive_key k then AString ''[REDACTED]'' else v)) data"

section \<open>Health\<close>

definition HealthzHandler :: "'w http_handler" where
  "HealthzHandler w r = go_return (Write ''ok'' (WriteHeader 200 w))"

definition ReadinessHandler :: "'w sql_DB \<Rightarrow> 'w redis_client \<Rightarrow> 'w http_handler" where
  "ReadinessHandler db redisClient w r = do {
     res \<leftarrow> sd_PingContext db;
     case res of
       Inl err \<Rightarrow> go_return (RespondWithError w 503 ''database not ready'')
     | Inr _ \<Rightarrow> do {
         res2 \<leftarrow> redis_Ping redisClient;
         go_return (case res2 of
             Inl err \<Rightarrow> RespondWithError w 503 ''redis not ready''
           | Inr _ \<Rightarrow> Write ''ok'' (WriteHeader 200 w))
       }
   }"

section \<open>Profile and API keys\<close>

definition ProfileHandler :: "'w ProfileService \<Rightarrow> 'w http_handler" where
  "ProfileHandler profileSvc w r =
     (case IdentityFrom (rq_ctx r) of
        None \<Rightarrow> go_return (RespondWithError w 401 ''unauthorized'')
      | Some identity \<Rightarrow> do {
          res \<leftarrow> prs_GetUserProfile profileSvc (id_UserID identity);
          go_return (case res of
              Inl err \<Rightarrow> RespondWithError w 500 (Error err)
            | Inr user \<Rightarrow> RespondWithJSON w 200 (json_UserRow user))
        })"

definition APIKeyHandler :: "(reflect_value \<Rightarrow> validation_error option) \<Rightarrow> 'w APIKeyService \<Rightarrow> 'w http_handler" where
  "APIKeyHandler validate apiKeySvc w r =
     (case IdentityFrom (rq_ctx r) of
        None \<Rightarrow> go_return (RespondWithError w 401 ''unauthorized'')
      | Some identity \<Rightarrow>
          (case bindR (Decode (MaxBytesReader (rq_body r) maxBodyBytes)) dec_apiKeyRequest of
             Inl err \<Rightarrow>
               if errors_As_MaxBytes err then go_return (RespondWithError w 413 ''payload too large'')
               else go_return (RespondWithError w 400 ''invalid request body'')
           | Inr req \<Rightarrow>
               (case validate (reflect_apiKeyRequest req) of
                  Some err \<Rightarrow> go_return (RespondWithError w 400 (''validation failed: '' @ validation_Error err))
                | None \<Rightarrow> do {
                    let rateRPM = (if 0 < sint (aq_RateRPM req) then aq_RateRPM req else 100);
                    res \<leftarrow> aks_CreateAPIKey apiKeySvc (id_UserID identity) (aq_Label req) rateRPM;
                    go_return (case res of
                        Inl err \<Rightarrow>
                          if errors_Is err SvcErrAPIKeyLabelExists then RespondWithError w 409 ''label already exists''
                          else RespondWithError w 500 (Error err)
                      | Inr (plaintextKey, createdKey) \<Rightarrow>
                          RespondWithJSON w 201 (map_option (\<lambda>d. JObj [(''details'', d), (''key'', JStr plaintextKey)])
                            (json_CreateAPIKeyRow createdKey)))
                  })))"

definition api_key_entry :: "ListAPIKeysByUserRow \<Rightarrow> apiKeyResponse" where
  "api_key_entry k =
     \<lparr>ak_ID = lr_ID k, ak_Label = (case lr_Label k of None \<Rightarrow> [] | Some l \<Rightarrow> l),
      ak_Key = maskAPIKey (EncodeToString (lr_KeyHash k)), ak_Active = lr_Active k, ak_RateRPM = lr_RateRpm k,
      ak_LastUsedAt = lr_LastUsedAt k, ak_CreatedAt = lr_CreatedAt k\<rparr>"

definition ListAPIKeysHandler :: "'w APIKeyService \<Rightarrow> 'w http_handler" where
  "ListAPIKeysHandler apiKeySvc w r =
     (case IdentityFrom (rq_ctx r) of
        None \<Rightarrow> go_return (RespondWithError w 401 ''unauthorized'')
      | Some identity \<Rightarrow> do {
          res \<leftarrow> aks_ListAPIKeys apiKeySvc (id_UserID identity);
          go_return (case res of
              Inl err \<Rightarrow> RespondWithError w 500 (Error err)
            | Inr keys \<Rightarrow>
                RespondWithJSON w 200 (map_option JArr (those (map (json_apiKeyResponse \<circ> api_key_entry) keys))))
        })"

definition DeleteAPIKeyHandler :: "'w APIKeyService \<Rightarrow> 'w http_handler" where
  "DeleteAPIKeyHandler apiKeySvc w r =
     (case IdentityFrom (rq_ctx r) of
        None \<Rightarrow> go_return (RespondWithError w 401 ''unauthorized'')
      | Some identity \<Rightarrow>
          (case ParseInt (rq_urlparam r ''id'') of
             None \<Rightarrow> go_return (RespondWithError w 400 ''invalid key id'')
           | Some keyID \<Rightarrow> do {
               res \<leftarrow> aks_DeleteAPIKey apiKeySvc (id_UserID identity) keyID;
               go_return (case res of
                   Inl err \<Rightarrow> RespondWithError w 500 (Error err)
                 | Inr _ \<Rightarrow> WriteHeader 204 w)
             }))"

section \<open>Vendor\<close>

definition VendorPingHandler :: "'w VendorService \<Rightarrow> 'w http_handler" where
  "VendorPingHandler vendorSvc w r =
     (case IdentityFrom (rq_ctx r) of
        None \<Rightarrow> go_return (RespondWithError w 401 ''unauthorized'')
      | Some _ \<Rightarrow> do {
          res \<leftarrow> vns_Ping vendorSvc;
          go_return (case res of
              Inl err \<Rightarrow> RespondWithError w 500 (Error err)
            | Inr pong \<Rightarrow> RespondWithJSON w 200 (Some (JObj [(''message'', JStr pong)])))
        })"

definition ListModelsHandler :: "'w VendorService \<Rightarrow> 'w http_handler" where
  "ListModelsHandler vendorSvc w r =
     (case IdentityFrom (rq_ctx r) of
        None \<Rightarrow> go_return (RespondWithError w 401 ''unauthorized'')
      | Some _ \<Rightarrow> do {
          res \<leftarrow> vns_ListModels vendorSvc;
          go_return (case res of
              Inl err \<Rightarrow> RespondWithError w 500 (Error err)
            | Inr models \<Rightarrow> RespondWithJSON w 200 (Some (JObj [(''models'', JArr (map json_Model models))])))
        })"

text \<open>A nil payload is \<open>None\<close>.\<close>

definition saveInferenceLog ::
  "'w env \<Rightarrow> 'w InferenceLogRepository \<Rightarrow> Identity \<Rightarrow> bytes option \<Rightarrow> bytes option \<Rightarrow> string \<Rightarrow> time \<Rightarrow> time \<Rightarrow> 'w proc" where
  "saveInferenceLog env logRepo identity reqPayload respPayload errMsg reqTime respTime = do {
     res \<leftarrow> ilr_CreateInferenceLog logRepo
       \<lparr>lp_UserID = id_UserID identity, lp_ApiKeyID = id_APIKeyID identity, lp_RequestPayload = reqPayload,
        lp_ResponsePayload = respPayload, lp_Error = (if errMsg \<noteq> [] then Some errMsg else None),
        lp_RequestTime = reqTime, lp_ResponseTime = respTime\<rparr>;
     case res of
       Inl err \<Rightarrow> zerolog env ''error'' [(''error'', Error err)] ''failed to log inference''
     | Inr _ \<Rightarrow> go_return ()
   }"

definition features_map :: "predictFeatures \<Rightarrow> any gomap" where
  "features_map f =
     [(''transaction_id'', AInt64 (pf_TransactionID f)), (''amount'', AFloat64 (pf_Amount f)),
      (''merchant_type'', AString (pf_MerchantType f)), (''device_type'', AString (pf_DeviceType f))]"

definition sanitized_request :: "string \<Rightarrow> any gomap \<Rightarrow> bytes option" where
  "sanitized_request model features =
     map_option json_print (json_PredictRequest \<lparr>pq_Model = model, pq_Features = maskSensitiveData features\<rparr>)"

definition PredictHandler ::
  "'w env \<Rightarrow> (reflect_value \<Rightarrow> validation_error option) \<Rightarrow> 'w VendorService \<Rightarrow> 'w InferenceLogRepository \<Rightarrow> 'w http_handler" where
  "PredictHandler env validate vendorSvc logRepo w r =
     (case IdentityFrom (rq_ctx r) of
        None \<Rightarrow> go_return (RespondWithError w 401 ''unauthorized'')
      | Some identity \<Rightarrow> do {
          reqTime \<leftarrow> time_Now env;
          case ReadAll (MaxBytesReader (rq_body r) maxBodyBytes) of
            (bodyBytes, Some err) \<Rightarrow> do {
              respTime \<leftarrow> time_Now env;
              if errors_As_MaxBytes err then do {
                saveInferenceLog env logRepo identity None None ''payload too large'' reqTime respTime;
                go_return (RespondWithError w 413 ''payload too large'')
              }
              else do {
                saveInferenceLog env logRepo identity (Some bodyBytes) None ''invalid request body'' reqTime respTime;
                go_return (RespondWithError w 400 ''invalid request body'')
              }
            }
          | (bodyBytes, None) \<Rightarrow>
              (case bindR (Unmarshal bodyBytes) dec_predictRequest of
                 Inl err \<Rightarrow> do {
                   respTime \<leftarrow> time_Now env;
                   saveInferenceLog env logRepo identity (Some bodyBytes) None ''invalid request body'' reqTime respTime;
                   go_return (RespondWithError w 400 ''invalid request body'')
                 }
               | Inr req \<Rightarrow>
                   (case validate (reflect_predictRequest req) of
                      Some err \<Rightarrow> do {
                        respTime \<leftarrow> time_Now env;
                        let sanitizedReqBytes = sanitized_request (pr_Model req) (features_map (pr_Features req));
                        case validationErrorMessage err of
                          None \<Rightarrow> go_return (recovered_panic w)
                        | Some msg \<Rightarrow> do {
                            saveInferenceLog env logRepo identity sanitizedReqBytes None (''validation failed: '' @ msg)
                              reqTime respTime;
                            go_return (RespondWithError w 400 (''validation failed: '' @ msg))
                          }
                      }
                    | None \<Rightarrow> do {
                        (res, features) \<leftarrow> vns_Predict vendorSvc
                          \<lparr>pq_Model = pr_Model req, pq_Features = features_map (pr_Features req)\<rparr>;
                        respTime \<leftarrow> time_Now env;
                        let sanitizedReqBytes = sanitized_request (pr_Model req) features;
                        let respBytes = (case res of Inl _ \<Rightarrow> None | Inr resp \<Rightarrow> map_option json_print (json_PredictResponse resp));
                        let errMsg = (case res of Inl err \<Rightarrow> Error err | Inr _ \<Rightarrow> []);
                        saveInferenceLog env logRepo identity sanitizedReqBytes respBytes errMsg reqTime respTime;
                        go_return (case res of
                            Inl err \<Rightarrow> RespondWithError w 502 (Error err)
                          | Inr resp \<Rightarrow> RespondWithJSON w 200 (json_PredictResponse resp))
                      }))
        })"

section \<open>auth_handlers.go\<close>

text \<open>\<open>map[string]string{"code": ..., "message": ...}\<close>.\<close>

definition code_message :: "string \<Rightarrow> string \<Rightarrow> json option" where
  "code_message code msg = Some (JObj [(''code'', JStr code), (''message'', JStr msg)])"

definition account_json :: "string \<Rightarrow> int64 \<Rightarrow> string \<Rightarrow> string \<Rightarrow> json option" where
  "account_json token i name email =
     Some (JObj [(''token'', JStr token),
       (''user'', JObj [(''email'', JStr email), (''id'', JNum (FormatInt i)), (''name'', JStr name)])])"

definition SignUpHandler :: "(reflect_value \<Rightarrow> validation_error option) \<Rightarrow> 'w AuthService \<Rightarrow> 'w http_handler" where
  "SignUpHandler validate authSvc w r =
     (case bindR (Decode (rq_body r)) dec_signUpRequest of
        Inl err \<Rightarrow> go_return (RespondWithJSON w 400 (code_message ''bad_request'' ''invalid request body''))
      | Inr req \<Rightarrow>
          (case validate (reflect_signUpRequest req) of
             Some err \<Rightarrow> go_return (RespondWithJSON w 400
               (code_message ''validation_failed'' (''validation failed: '' @ validation_Error err)))
           | None \<Rightarrow> do {
               res \<leftarrow> aus_SignUp authSvc (su_Name req) (su_Email req) (su_Password req);
               go_return (case res of
                   Inl err \<Rightarrow>
                     if errors_Is err ErrEmailExists
                     then RespondWithJSON w 409 (code_message ''email_exists'' ''email already exists'')
                     else RespondWithJSON w 500 (code_message ''internal_error'' (Error err))
                 | Inr (user, token) \<Rightarrow> RespondWithJSON w 200 (account_json token (ur_ID user) (ur_Name user) (ur_Email user)))
             }))"

definition SignInHandler :: "(reflect_value \<Rightarrow> validation_error option) \<Rightarrow> 'w AuthService \<Rightarrow> 'w http_handler" where
  "SignInHandler validate authSvc w r =
     (case bindR (Decode (rq_body r)) dec_signInRequest of
        Inl err \<Rightarrow> go_return (RespondWithJSON w 400 (code_message ''bad_request'' ''invalid request body''))
      | Inr req \<Rightarrow>
          (case validate (reflect_signInRequest req) of
             Some err \<Rightarrow> go_return (RespondWithJSON w 400
               (code_message ''validation_failed'' (''validation failed: '' @ validation_Error err)))
           | None \<Rightarrow> do {
               res \<leftarrow> aus_SignIn authSvc (si_Email req) (si_Password req);
               go_return (case res of
                   Inl err \<Rightarrow>
                     if errors_Is err ErrInvalidCredentials
                     then RespondWithJSON w 401 (code_message ''invalid_credentials'' ''invalid credentials'')
                     else RespondWithJSON w 500 (code_message ''internal_error'' (Error err))
                 | Inr (user, token) \<Rightarrow> RespondWithJSON w 200 (account_json token (ul_ID user) (ul_Name user) (ul_Email user)))
             }))"

definition MeHandler :: "'w ProfileService \<Rightarrow> 'w http_handler" where
  "MeHandler profileSvc w r =
     (case IdentityFrom (rq_ctx r) of
        None \<Rightarrow> go_return (RespondWithJSON w 401 (code_message ''unauthorized'' ''unauthorized''))
      | Some identity \<Rightarrow> do {
          res \<leftarrow> prs_GetUserProfile profileSvc (id_UserID identity);
          go_return (case res of
              Inl err \<Rightarrow> RespondWithJSON w 500 (code_message ''internal_error'' (Error err))
            | Inr user \<Rightarrow> RespondWithJSON w 200 (Some (JObj [(''email'', JStr (ur_Email user)),
                (''id'', JNum (FormatInt (ur_ID user))), (''name'', JStr (ur_Name user)), (''plan'', JStr (ur_Plan user))])))
        })"

end
