(* ===== verification/Tokens.thy ===== *)
theory Tokens
  imports Service World
begin

text \<open>
  Access tokens: what \<open>generateToken\<close> puts into a token and what \<open>JWTAuth\<close> reads back. The locale
  \<open>jwt_contract\<close> states what the service relies on of the JWT library: signing integer claims works,
  parsing a signed token with its secret gives the claims back as JSON numbers until the expiry time,
  and fails afterwards; a token contains no space. The reference library signs by appending the secret.

  Facts: a token names its user for at least the configured lifetime less one second and is refused
  after it; since claims come back as \<open>float64\<close>, user ids beyond \<open>2 ^ 53\<close> can name another user.
\<close>

section \<open>Definitions\<close>

text \<open>Claims with distinct ASCII names and integer values, which is all the service signs.\<close>

definition int_claims :: "any gomap \<Rightarrow> bool" where
  "int_claims c \<longleftrightarrow> distinct (map fst c)
     \<and> (\<forall>(k, v)\<in>set c. ascii k \<and> (\<exists>i x. v = AInt64 i \<and> ParseFloat (FormatInt i) = Some x))"

definition expiry :: "any gomap \<Rightarrow> time \<Rightarrow> bool" where
  "expiry c t \<longleftrightarrow> (\<exists>e. map_of c ''exp'' = Some (AInt64 e) \<and> \<bar>sint e\<bar> \<le> 2 ^ 53 \<and> t = sint e * second)"

locale jwt_contract =
  fixes jwt :: "'w jwt_lib"
    and clk :: "'w \<Rightarrow> time"
  assumes sign_ok: "int_claims c \<Longrightarrow> \<exists>tok. jwt_Sign jwt c secret = Inr tok"
    and no_space: "int_claims c \<Longrightarrow> jwt_Sign jwt c secret = Inr tok \<Longrightarrow> CHR '' '' \<notin> set tok"
    and parse_signed: "int_claims c \<Longrightarrow> jwt_Sign jwt c secret = Inr tok \<Longrightarrow> kf SigningMethodHMAC = Inr secret \<Longrightarrow>
          expiry c t \<Longrightarrow> clk w < t \<Longrightarrow>
          \<exists>c'. runs_to (jwt_Parse jwt tok kf) w (Inr \<lparr>tk_claims = Some c', tk_valid = True\<rparr>) w
             \<and> (\<forall>k i x. map_of c k = Some (AInt64 i) \<longrightarrow> ParseFloat (FormatInt i) = Some x \<longrightarrow> map_of c' k = Some (AFloat64 x))"
    and parse_expired: "int_claims c \<Longrightarrow> jwt_Sign jwt c secret = Inr tok \<Longrightarrow> kf SigningMethodHMAC = Inr secret \<Longrightarrow>
          expiry c t \<Longrightarrow> t \<le> clk w \<Longrightarrow> \<exists>e. runs_to (jwt_Parse jwt tok kf) w (Inl e) w"

text \<open>A request that presents a token and is not identified yet.\<close>

definition bearer_request :: "request \<Rightarrow> string \<Rightarrow> bool" where
  "bearer_request r tok \<longleftrightarrow>
     IdentityFrom (rq_ctx r) = None \<and> Header_Get (rq_header r) ''Authorization'' = ''Bearer '' @ tok"

text \<open>What \<open>JWTAuth\<close> does once it knows the user id.\<close>

definition identify_user :: "'w UserRepository \<Rightarrow> int64 \<Rightarrow> 'w http_middleware" where
  "identify_user userRepo uid next w r = do {
     res \<leftarrow> usr_GetUserByID userRepo uid;
     case res of
       Inl err \<Rightarrow> go_return (RespondWithError w 500 ''could not retrieve user'')
     | Inr user \<Rightarrow> next w (with_identity r
         \<lparr>id_UserID = ur_ID user, id_Plan = ur_Plan user, id_APIKeyID = None, id_RateRPM = None\<rparr>)
   }"

section \<open>Facts\<close>

lemma lower_Bearer: "strings_ToLower ''Bearer'' = ''bearer''"
  by code_simp

lemma bearer_token_Bearer: "CHR '' '' \<notin> set tok \<Longrightarrow> bearer_token (''Bearer '' @ tok) = Some tok"
  using strings_Split_append [of "CHR '' ''" "''Bearer''" tok]
  by (simp add: bearer_token_def strings_Split_none lower_Bearer)

lemma generateToken_runs:
  assumes "runs_to (generateToken env jwt s uid) w0 res w1"
  obtains t1 t2 wm where "runs_to (time_Now env) w0 t1 wm" "runs_to (time_Now env) wm t2 w1"
    "res = jwt_Sign jwt (token_claims uid (t1 + as_jwtTimeout s) t2) (as_jwtSecret s)"
  using assms by (auto simp: generateToken_def runs_to_bind)

text \<open>Instants the service can put into a token: seconds within the exact range of \<open>float64\<close>.\<close>

abbreviation in_range :: "time \<Rightarrow> bool" where
  "in_range t \<equiv> 0 \<le> t \<and> t < 2 ^ 53 * second"

lemma time_Unix_range:
  assumes "in_range t"
  shows "0 \<le> time_Unix t" "time_Unix t < 2 ^ 53" "sint (word_of_int (time_Unix t) :: int64) = time_Unix t"
proof -
  show r: "0 \<le> time_Unix t" "time_Unix t < 2 ^ 53"
    using assms by (auto simp: time_Unix_def second_def)
  then show "sint (word_of_int (time_Unix t) :: int64) = time_Unix t"
    by (intro sint64_of_int) auto
qed

lemma int_claims_token:
  assumes "in_range t1" "in_range t2" "ParseFloat (FormatInt uid) = Some x"
  shows "int_claims (token_claims uid t1 t2)"
proof -
  have "\<exists>x. ParseFloat (FormatInt (word_of_int (time_Unix t) :: int64)) = Some x" if "in_range t" for t
    using ParseFloat_fmt_int [of "time_Unix t"] time_Unix_range [OF that] by (simp add: FormatInt_def)
  with assms show ?thesis by (auto simp: int_claims_def token_claims_def ascii_def)
qed

lemma expiry_token:
  assumes "in_range t1"
  shows "expiry (token_claims uid t1 t2) (time_Unix t1 * second)"
  using time_Unix_range [OF assms] by (simp add: expiry_def token_claims_def)

context jwt_contract
begin

text \<open>
  A token issued at \<open>t1\<close>, before its expiry: \<open>JWTAuth\<close> looks up the user whose id is the float closest
  to the signed id.
\<close>

lemma JWTAuth_signed:
  assumes sign: "jwt_Sign jwt (token_claims uid t1 t2) secret = Inr tok"
    and t: "in_range t1" "in_range t2" and x: "ParseFloat (FormatInt uid) = Some x"
    and now: "clk w < time_Unix t1 * second" and r: "bearer_request r tok"
  shows "runs_to (JWTAuth ovf jwt secret userRepo next wr r) w a w' \<longleftrightarrow>
         runs_to (identify_user userRepo (f64_to_int64 ovf x) next wr r) w a w'"
proof -
  note c = int_claims_token [OF t x]
  from parse_signed [OF c sign _ expiry_token [OF t(1)] now, of "jwt_keyfunc secret"] obtain c' where
    parse: "runs_to (jwt_Parse jwt tok (jwt_keyfunc secret)) w (Inr \<lparr>tk_claims = Some c', tk_valid = True\<rparr>) w"
    and c': "\<forall>k i x. map_of (token_claims uid t1 t2) k = Some (AInt64 i) \<longrightarrow> ParseFloat (FormatInt i) = Some x \<longrightarrow>
               map_of c' k = Some (AFloat64 x)"
    by (auto simp: jwt_keyfunc_def)
  have "map_of c' ''user_id'' = Some (AFloat64 x)"
    using c' x by (simp add: token_claims_def)
  then have uid: "claim_user_id c' = Some x" by (simp add: claim_user_id_def)
  have "bearer_token (Header_Get (rq_header r) ''Authorization'') = Some tok"
    using r bearer_token_Bearer [OF no_space [OF c sign]] by (simp add: bearer_request_def)
  with r uid show ?thesis
    by (simp add: JWTAuth_def bearer_request_def runs_to_bind_known [OF parse] identify_user_def)
qed

lemma JWTAuth_generated:
  assumes "\<And>v t v'. runs_to (time_Now env) v t v' \<Longrightarrow> t = clk v' \<and> clk v \<le> clk v'"
    and "runs_to (generateToken env jwt s uid) w0 (Inr tok) w1"
    and "\<bar>sint uid\<bar> \<le> 2 ^ 53" "0 \<le> clk w0" "0 \<le> as_jwtTimeout s" "clk w1 + as_jwtTimeout s < 2 ^ 53 * second"
    and "bearer_request r tok" "clk w + second \<le> clk w0 + as_jwtTimeout s"
  shows "runs_to (JWTAuth ovf jwt (as_jwtSecret s) userRepo nxt wr r) w a w' \<longleftrightarrow>
         runs_to (identify_user userRepo uid nxt wr r) w a w'"
proof -
  from assms(2) obtain t1 t2 wm where now: "runs_to (time_Now env) w0 t1 wm" "runs_to (time_Now env) wm t2 w1"
    and sign: "jwt_Sign jwt (token_claims uid (t1 + as_jwtTimeout s) t2) (as_jwtSecret s) = Inr tok"
    by (elim generateToken_runs) simp
  note t = assms(1) [OF now(1)] assms(1) [OF now(2)]
  have x: "ParseFloat (FormatInt uid) = Some (f64_of_int (sint uid))"
    using ParseFloat_fmt_int [OF assms(3)] by (simp add: FormatInt_def)
  have "t1 + as_jwtTimeout s - second < time_Unix (t1 + as_jwtTimeout s) * second"
    using pos_mod_bound [of second "t1 + as_jwtTimeout s"]
    by (simp add: time_Unix_def second_def minus_mod_eq_div_mult [symmetric])
  then have "clk w < time_Unix (t1 + as_jwtTimeout s) * second" using assms(8) t by linarith
  from JWTAuth_signed [OF sign _ _ x this assms(7)] assms(4-6) t
  show ?thesis by (simp add: int64_of_f64_of_int [OF assms(3)])
qed

lemma JWTAuth_expired:
  assumes sign: "jwt_Sign jwt (token_claims uid t1 t2) secret = Inr tok"
    and t: "in_range t1" "in_range t2" and x: "ParseFloat (FormatInt uid) = Some x"
    and now: "time_Unix t1 * second \<le> clk w" and r: "bearer_request r tok"
    and run: "runs_to (JWTAuth ovf jwt secret userRepo next wr r) w a w'"
  shows "a = RespondWithError wr 401 ''invalid token'' \<and> w' = w"
proof -
  note c = int_claims_token [OF t x]
  from parse_expired [OF c sign _ expiry_token [OF t(1)] now, of "jwt_keyfunc secret"] obtain e where
    parse: "runs_to (jwt_Parse jwt tok (jwt_keyfunc secret)) w (Inl e) w"
    by (auto simp: jwt_keyfunc_def)
  have "bearer_token (Header_Get (rq_header r) ''Authorization'') = Some tok"
    using r bearer_token_Bearer [OF no_space [OF c sign]] by (simp add: bearer_request_def)
  with r run show ?thesis
    by (simp add: JWTAuth_def bearer_request_def runs_to_bind_known [OF parse])
qed

end

section \<open>A reference library\<close>

fun hex_decode :: "string \<Rightarrow> bytes option" where
  "hex_decode [] = Some []"
| "hex_decode [a] = None"
| "hex_decode (a # b # s) = map_option (Cons (char_of (hex_value a * 16 + hex_value b))) (hex_decode s)"

definition token_expired :: "any gomap \<Rightarrow> time \<Rightarrow> bool" where
  "token_expired c now \<longleftrightarrow>
     (case map_of c ''exp'' of Some (AFloat64 e) \<Rightarrow> sint (f64_to_int64 (\<lambda>_. 0) e) * second \<le> now | _ \<Rightarrow> False)"

definition check_token :: "string \<Rightarrow> (signing_method \<Rightarrow> bytes result) \<Rightarrow> time \<Rightarrow> jwt_token result" where
  "check_token tok kf now =
     (case strings_Split tok (CHR ''.'') of
        [payload, sig] \<Rightarrow> bindR (kf SigningMethodHMAC) (\<lambda>secret.
          if sig \<noteq> EncodeToString secret then Inl ErrSignatureInvalid
          else (case Option.bind (Option.bind (hex_decode payload) json_parse) json_any of
              Some (AMap c) \<Rightarrow> if token_expired c now then Inl (ErrorString ''token is expired'')
                               else Inr \<lparr>tk_claims = Some c, tk_valid = True\<rparr>
            | _ \<Rightarrow> Inl (ErrorString ''token is malformed'')))
      | _ \<Rightarrow> Inl (ErrorString ''token is malformed''))"

definition ref_token :: "bytes \<Rightarrow> bytes \<Rightarrow> string" where
  "ref_token payload secret = EncodeToString payload @ ''.'' @ EncodeToString secret"

definition ref_jwt :: "world jwt_lib" where
  "ref_jwt = \<lparr>
     jwt_Parse = (\<lambda>tok kf. State (\<lambda>w. (check_token tok kf (w_clock w), w))),
     jwt_Sign = (\<lambda>c secret. case any_json (AMap c) of
         None \<Rightarrow> Inl json_unsupported_value
       | Some j \<Rightarrow> Inr (ref_token (json_print j) secret))\<rparr>"

lemma hex_decode_encode: "hex_decode (EncodeToString bs) = Some bs"
  by (induction bs) (simp_all add: hex_value_hex_digit)

lemma EncodeToString_hex: "c \<in> set (EncodeToString bs) \<Longrightarrow> is_hex c"
  by (auto simp: EncodeToString_def of_char_div16)

lemma not_hex: "\<not> is_hex (CHR ''.'')" "\<not> is_hex (CHR '' '')"
  by code_simp+

lemma EncodeToString_chars: "CHR ''.'' \<notin> set (EncodeToString bs)" "CHR '' '' \<notin> set (EncodeToString bs)"
  using EncodeToString_hex not_hex by blast+

lemma those_map_Some: "(\<And>x. x \<in> set xs \<Longrightarrow> f x = Some (g x)) \<Longrightarrow> those (map f xs) = Some (map g xs)"
  by (induction xs) auto

lemma map_of_fold_update:
  "distinct (map fst m) \<Longrightarrow>
   map_of (fold (\<lambda>(k, v). AList.update k v) m al) k = (case map_of m k of Some v \<Rightarrow> Some v | None \<Rightarrow> map_of al k)"
proof (induction m arbitrary: al)
  case (Cons kv m)
  obtain k' v' where kv: "kv = (k', v')" by (cases kv)
  show ?case
  proof (cases "k' = k")
    case True
    with Cons.prems kv have "map_of m k = None" by (simp add: map_of_eq_None_iff)
    with Cons kv True show ?thesis by (simp add: update_conv')
  next
    case False
    with Cons kv show ?thesis by (simp add: update_conv' split: option.split)
  qed
qed simp

lemma foldr_max_0: "(\<And>x. x \<in> set xs \<Longrightarrow> f x = 0) \<Longrightarrow> foldr max (map f xs) 0 = (0 :: nat)"
  by (induction xs) auto

definition claim_number :: "any \<Rightarrow> string" where
  "claim_number v = (case v of AInt64 i \<Rightarrow> FormatInt i | _ \<Rightarrow> ''0'')"

lemma int_claims_json:
  assumes "int_claims c"
  defines "kvs \<equiv> sorted_members (map (\<lambda>(k, v). (k, JNum (claim_number v))) c)"
  shows "any_json (AMap c) = Some (JObj kvs)" "json_parse (json_print (JObj kvs)) = Some (JObj kvs)"
    and "\<exists>m. json_any (JObj kvs) = Some (AMap m) \<and>
        (\<forall>k i x. map_of c k = Some (AInt64 i) \<longrightarrow> ParseFloat (FormatInt i) = Some x \<longrightarrow> map_of m k = Some (AFloat64 x))"
proof -
  have "those (map (\<lambda>(k, v). map_option (Pair k) (any_json v)) c) = Some (map (\<lambda>(k, v). (k, JNum (claim_number v))) c)"
    by (rule those_map_Some) (use assms in \<open>auto simp: int_claims_def claim_number_def\<close>)
  then show "any_json (AMap c) = Some (JObj kvs)" by (simp add: kvs_def)
  have set_kvs: "set kvs = (\<lambda>(k, v). (k, JNum (claim_number v))) ` set c"
    by (simp add: kvs_def sorted_members_def)
  have wf: "wf_json (JObj kvs)"
    using assms(1) by (auto simp: list_all_iff set_kvs int_claims_def claim_number_def)
  have "foldr max (map (\<lambda>(k, j). json_depth j) kvs) 0 = 0"
    by (rule foldr_max_0) (auto simp: set_kvs)
  with wf show "json_parse (json_print (JObj kvs)) = Some (JObj kvs)"
    by (intro json_parse_print) (simp_all add: maxNestingDepth_def)
  let ?f = "\<lambda>(k, j). (k, AFloat64 (case j of JNum s \<Rightarrow> the (ParseFloat s) | _ \<Rightarrow> f64_zero))"
  have keys: "distinct (map fst kvs)"
  proof -
    have "mset (map fst kvs) = mset (map fst c)"
      by (simp add: kvs_def sorted_members_def multiset.map_comp o_def case_prod_beta')
    with assms(1) show ?thesis by (metis int_claims_def mset_eq_imp_distinct_iff)
  qed
  have "those (map (\<lambda>(k, j). map_option (Pair k) (json_any j)) kvs) = Some (map ?f kvs)"
    by (rule those_map_Some) (use assms(1) in \<open>fastforce simp: set_kvs int_claims_def claim_number_def\<close>)
  then have "json_any (JObj kvs) = Some (AMap (fold (\<lambda>(k, v). AList.update k v) (map ?f kvs) []))" by simp
  moreover have "map_of (fold (\<lambda>(k, v). AList.update k v) (map ?f kvs) []) k = Some (AFloat64 x)"
    if "map_of c k = Some (AInt64 i)" "ParseFloat (FormatInt i) = Some x" for k i x
  proof -
    have d: "distinct (map fst (map ?f kvs))" using keys by (simp add: o_def case_prod_beta')
    have "(k, JNum (FormatInt i)) \<in> set kvs"
      using map_of_SomeD [OF that(1)] by (force simp: set_kvs claim_number_def)
    then have "(k, AFloat64 x) \<in> set (map ?f kvs)" using that(2) by force
    then have "map_of (map ?f kvs) k = Some (AFloat64 x)" by (simp only: map_of_eq_Some_iff [OF d])
    with map_of_fold_update [OF d] show ?thesis by simp
  qed
  ultimately show "\<exists>m. json_any (JObj kvs) = Some (AMap m) \<and>
        (\<forall>k i x. map_of c k = Some (AInt64 i) \<longrightarrow> ParseFloat (FormatInt i) = Some x \<longrightarrow> map_of m k = Some (AFloat64 x))"
    by blast
qed

lemma ref_token_split: "strings_Split (ref_token p secret) (CHR ''.'') = [EncodeToString p, EncodeToString secret]"
  using strings_Split_append [OF EncodeToString_chars(1)] strings_Split_none [OF EncodeToString_chars(1)]
  by (simp add: ref_token_def)

lemma ref_token_no_space: "CHR '' '' \<notin> set (ref_token p secret)"
  using EncodeToString_chars(2) by (auto simp: ref_token_def)

lemma sign_ref:
  assumes "int_claims c"
  obtains p m where "jwt_Sign ref_jwt c secret = Inr (ref_token p secret)"
    "\<And>kf now. kf SigningMethodHMAC = Inr secret \<Longrightarrow> check_token (ref_token p secret) kf now =
         (if token_expired m now then Inl (ErrorString ''token is expired'') else Inr \<lparr>tk_claims = Some m, tk_valid = True\<rparr>)"
    "\<And>k i x. map_of c k = Some (AInt64 i) \<Longrightarrow> ParseFloat (FormatInt i) = Some x \<Longrightarrow> map_of m k = Some (AFloat64 x)"
proof -
  let ?j = "JObj (sorted_members (map (\<lambda>(k, v). (k, JNum (claim_number v))) c))"
  define p where "p = json_print ?j"
  have p: "json_parse p = Some ?j" unfolding p_def by (rule int_claims_json(2) [OF assms])
  from int_claims_json(3) [OF assms] obtain m where m: "json_any ?j = Some (AMap m)"
    "\<forall>k i x. map_of c k = Some (AInt64 i) \<longrightarrow> ParseFloat (FormatInt i) = Some x \<longrightarrow> map_of m k = Some (AFloat64 x)"
    by blast
  have "check_token (ref_token p secret) kf now =
      (if token_expired m now then Inl (ErrorString ''token is expired'') else Inr \<lparr>tk_claims = Some m, tk_valid = True\<rparr>)"
    if "kf SigningMethodHMAC = Inr secret" for kf now
    using that m(1) p by (simp add: check_token_def ref_token_split hex_decode_encode del: json_any.simps)
  moreover have "jwt_Sign ref_jwt c secret = Inr (ref_token p secret)"
    by (simp add: ref_jwt_def int_claims_json(1) [OF assms] p_def del: any_json.simps json_print.simps)
  ultimately show thesis using m(2) that [of p m] by blast
qed

lemma token_expired_iff:
  assumes "map_of m ''exp'' = Some (AFloat64 (f64_of_int (sint (e :: int64))))" "\<bar>sint e\<bar> \<le> 2 ^ 53"
  shows "token_expired m now \<longleftrightarrow> sint e * second \<le> now"
  using assms int64_of_f64_of_int [OF assms(2)] by (simp add: token_expired_def)

interpretation ref_tokens: jwt_contract ref_jwt w_clock
proof
  fix c :: "any gomap" and secret :: bytes and tok :: string
  assume c: "int_claims c"
  obtain p m where sign: "jwt_Sign ref_jwt c secret = Inr (ref_token p secret)"
    and check: "\<And>kf now. kf SigningMethodHMAC = Inr secret \<Longrightarrow> check_token (ref_token p secret) kf now =
         (if token_expired m now then Inl (ErrorString ''token is expired'') else Inr \<lparr>tk_claims = Some m, tk_valid = True\<rparr>)"
    and m: "\<And>k i x. map_of c k = Some (AInt64 i) \<Longrightarrow> ParseFloat (FormatInt i) = Some x \<Longrightarrow> map_of m k = Some (AFloat64 x)"
    using sign_ref [OF c] by blast
  show "\<exists>tok. jwt_Sign ref_jwt c secret = Inr tok" using sign by blast
  assume tok: "jwt_Sign ref_jwt c secret = Inr tok"
  then show "CHR '' '' \<notin> set tok" using sign ref_token_no_space by auto
  fix kf :: "signing_method \<Rightarrow> bytes result" and t :: time and w :: world
  assume kf: "kf SigningMethodHMAC = Inr secret" and t: "expiry c t"
  then obtain e where e: "map_of c ''exp'' = Some (AInt64 e)" "\<bar>sint e\<bar> \<le> 2 ^ 53" "t = sint e * second"
    by (auto simp: expiry_def)
  with m ParseFloat_fmt_int [OF e(2)] have "map_of m ''exp'' = Some (AFloat64 (f64_of_int (sint e)))"
    by (simp add: FormatInt_def)
  note expired = token_expired_iff [OF this e(2)]
  have parse: "run_state (jwt_Parse ref_jwt t' kf) v = (check_token t' kf (w_clock v), v)" for t' v
    by (simp add: ref_jwt_def)
  show "\<exists>c'. runs_to (jwt_Parse ref_jwt tok kf) w (Inr \<lparr>tk_claims = Some c', tk_valid = True\<rparr>) w
      \<and> (\<forall>k i x. map_of c k = Some (AInt64 i) \<longrightarrow> ParseFloat (FormatInt i) = Some x \<longrightarrow> map_of c' k = Some (AFloat64 x))"
    if "w_clock w < t"
    using that sign tok check [of kf, OF kf] m expired e(3) by (intro exI [of _ m]) (simp add: runs_to_def parse)
  show "\<exists>e. runs_to (jwt_Parse ref_jwt tok kf) w (Inl e) w" if "t \<le> w_clock w"
    using that sign tok check [of kf, OF kf] expired e(3) by (simp add: runs_to_def parse)
qed

section \<open>Theorems\<close>

text \<open>
  C6. A token names its user: from the moment \<open>generateToken\<close> starts, for the configured lifetime less
  one second, a request that presents the token is processed by \<open>JWTAuth\<close> exactly as a lookup of the
  user it was issued for, for all user ids up to \<open>2 ^ 53\<close> in absolute value.
\<close>

theorem token_identifies_user:
  assumes "jwt_contract jwt clk"
    and "\<And>v t v'. runs_to (time_Now env) v t v' \<Longrightarrow> t = clk v' \<and> clk v \<le> clk v'"
    and "runs_to (generateToken env jwt s uid) w0 (Inr tok) w1"
    and "\<bar>sint uid\<bar> \<le> 2 ^ 53" "0 \<le> clk w0" "0 \<le> as_jwtTimeout s" "clk w1 + as_jwtTimeout s < 2 ^ 53 * second"
    and "bearer_request r tok" "clk w + second \<le> clk w0 + as_jwtTimeout s"
  shows "runs_to (JWTAuth ovf jwt (as_jwtSecret s) userRepo nxt wr r) w a w' \<longleftrightarrow>
         runs_to (identify_user userRepo uid nxt wr r) w a w'"
  using jwt_contract.JWTAuth_generated [OF assms] .

definition token_setup :: "world authService" where
  "token_setup = \<lparr>as_userRepo = NewUserRepository (New ref_DBTX), as_jwtSecret = ''k'', as_jwtTimeout = 24 * 3600 * second\<rparr>"

definition token_of :: "int64 \<Rightarrow> string" where
  "token_of uid = (case val_of (generateToken ref_env ref_jwt token_setup uid) world1 of Inr tok \<Rightarrow> tok | Inl e \<Rightarrow> [])"

definition request_with :: "string \<Rightarrow> string \<Rightarrow> request" where
  "request_with k v = \<lparr>rq_method = ''GET'', rq_path = ''/'', rq_header = Header_Set Map.empty k v, rq_body = Body [] None,
     rq_urlparam = (\<lambda>_. []), rq_ctx = \<lparr>ctxKeyIdentity = None, requestIDKey = None\<rparr>\<rparr>"

lemma bearer_request_with: "bearer_request (request_with ''Authorization'' (''Bearer '' @ tok)) tok"
  by (simp add: bearer_request_def request_with_def IdentityFrom_def Header_Get_Set)

lemma ref_clock: "runs_to (time_Now ref_env) v t v' \<Longrightarrow> t = w_clock v' \<and> w_clock v \<le> w_clock v'"
  by (auto simp: ref_env_def runs_to_def)

lemma generate_ref:
  assumes "ParseFloat (FormatInt uid) = Some x"
  shows "runs_to (generateToken ref_env ref_jwt token_setup uid) world1 (Inr (token_of uid)) world1"
proof -
  let ?c = "token_claims uid (24 * 3600 * second) 0"
  have "int_claims ?c" using assms by (intro int_claims_token) (simp_all add: second_def)
  then obtain tok where "jwt_Sign ref_jwt ?c ''k'' = Inr tok" using ref_tokens.sign_ok by blast
  then have "run_state (generateToken ref_env ref_jwt token_setup uid) world1 = (Inr tok, world1)"
    by (simp add: generateToken_def ref_env_def token_setup_def world1_def world0_def State_Monad.bind_def State_Monad.return_def)
  then show ?thesis by (simp add: runs_to_def token_of_def val_of_def)
qed

lemma generate_at:
  "run_state (generateToken ref_env ref_jwt token_setup uid) w =
     (jwt_Sign ref_jwt (token_claims uid (w_clock w + 24 * 3600 * second) (w_clock w)) ''k'', w)"
  by (simp add: generateToken_def ref_env_def token_setup_def State_Monad.bind_def State_Monad.return_def)

lemma generate_at_0:
  assumes "ParseFloat (FormatInt uid) = Some x" "w_clock w = 0"
  shows "runs_to (generateToken ref_env ref_jwt token_setup uid) w (Inr (token_of uid)) w"
  using generate_ref [OF assms(1)] assms(2) by (simp add: runs_to_def generate_at world1_def world0_def)

lemma identify_ref_user1:
  "run_state (identify_user (as_userRepo token_setup) 1 (\<lambda>w r. go_return (WriteHeader 200 w)) new_writer r) world1 =
     (WriteHeader 200 new_writer, world1)"
  by (simp add: identify_user_def token_setup_def NewUserRepository_def ref_eval user_columns_def scan_UserRow_def scan_text_def
      scan_time_def)

theorem token_identifies_user_witness:
  "run_state (JWTAuth (\<lambda>_. 0) ref_jwt ''k'' (as_userRepo token_setup) (\<lambda>w r. go_return (WriteHeader 200 w)) new_writer
     (request_with ''Authorization'' (''Bearer '' @ token_of 1))) world1 = (WriteHeader 200 new_writer, world1)"
proof -
  have "ParseFloat (FormatInt (1 :: int64)) = Some (f64_of_int 1)"
    using ParseFloat_fmt_int [of 1] by (simp add: FormatInt_def)
  from token_identifies_user [OF ref_tokens.jwt_contract_axioms ref_clock generate_ref [OF this] _ _ _ _ bearer_request_with,
      where w = world1 and ovf = "\<lambda>_. 0" and userRepo = "as_userRepo token_setup"
        and nxt = "\<lambda>w r. go_return (WriteHeader 200 w)" and wr = new_writer]
  show ?thesis
    using identify_ref_user1 by (simp add: token_setup_def world1_def world0_def second_def runs_to_def)
qed

text \<open>
  C35. The claims travel through JSON numbers, which \<open>JWTAuth\<close> reads as \<open>float64\<close>: the token of user
  \<open>2 ^ 53 + 1\<close> is processed exactly as a lookup of user \<open>2 ^ 53\<close>.
\<close>

theorem token_of_large_id_names_another_user:
  assumes "jwt_contract jwt clk"
    and "jwt_Sign jwt (token_claims (2 ^ 53 + 1) t1 t2) secret = Inr tok"
    and "0 \<le> t1" "t1 < 2 ^ 53 * second" "0 \<le> t2" "t2 < 2 ^ 53 * second"
    and "bearer_request r tok" "clk w < time_Unix t1 * second"
  shows "runs_to (JWTAuth ovf jwt secret userRepo nxt wr r) w a w' \<longleftrightarrow>
         runs_to (identify_user userRepo (2 ^ 53) nxt wr r) w a w'"
proof -
  have "ParseFloat (FormatInt (2 ^ 53 + 1 :: int64)) = Some (f64_of_int (2 ^ 53))"
    using ParseFloat_inexact by (simp add: FormatInt_def)
  from jwt_contract.JWTAuth_signed [OF assms(1,2) _ _ this assms(8,7)] assms(3-6)
  show ?thesis using int64_of_f64_of_int [of "2 ^ 53"] by simp
qed

theorem token_of_large_id_names_another_user_witness:
  "run_state (JWTAuth (\<lambda>_. 0) ref_jwt ''k'' (as_userRepo token_setup) (\<lambda>w r. go_return (WriteHeader 200 w)) new_writer
     (request_with ''Authorization'' (''Bearer '' @ token_of (2 ^ 53 + 1)))) world1 =
   run_state (identify_user (as_userRepo token_setup) (2 ^ 53) (\<lambda>w r. go_return (WriteHeader 200 w)) new_writer
     (request_with ''Authorization'' (''Bearer '' @ token_of (2 ^ 53 + 1)))) world1"
proof -
  have "ParseFloat (FormatInt (2 ^ 53 + 1 :: int64)) = Some (f64_of_int (2 ^ 53))"
    using ParseFloat_inexact by (simp add: FormatInt_def)
  from generate_ref [OF this] have sign:
    "jwt_Sign ref_jwt (token_claims (2 ^ 53 + 1) (24 * 3600 * second) 0) ''k'' = Inr (token_of (2 ^ 53 + 1))"
    by (simp add: generateToken_def ref_env_def token_setup_def world1_def world0_def runs_to_def
        State_Monad.bind_def State_Monad.return_def)
  have "w_clock world1 < time_Unix (24 * 3600 * second) * second"
    by (simp add: world1_def world0_def time_Unix_def second_def)
  note names_another = token_of_large_id_names_another_user
    [OF ref_tokens.jwt_contract_axioms sign _ _ _ _ bearer_request_with this]
  show ?thesis by (rule runs_to_eqI) (rule names_another; simp add: second_def)
qed

text \<open>
  C26. An expired token is refused: once the configured lifetime has passed since \<open>generateToken\<close> ended,
  \<open>JWTAuth\<close> answers 401 and neither looks up the user nor runs the handler behind it.
\<close>

theorem expired_token_refused:
  assumes "jwt_contract jwt clk"
    and "\<And>v t v'. runs_to (time_Now env) v t v' \<Longrightarrow> t = clk v' \<and> clk v \<le> clk v'"
    and "runs_to (generateToken env jwt s uid) w0 (Inr tok) w1"
    and "\<bar>sint uid\<bar> \<le> 2 ^ 53" "0 \<le> clk w0" "0 \<le> as_jwtTimeout s" "clk w1 + as_jwtTimeout s < 2 ^ 53 * second"
    and "bearer_request r tok" "clk w1 + as_jwtTimeout s \<le> clk w"
    and "runs_to (JWTAuth ovf jwt (as_jwtSecret s) userRepo nxt wr r) w a w'"
  shows "a = RespondWithError wr 401 ''invalid token'' \<and> w' = w"
proof -
  from assms(3) obtain t1 t2 wm where now: "runs_to (time_Now env) w0 t1 wm" "runs_to (time_Now env) wm t2 w1"
    and sign: "jwt_Sign jwt (token_claims uid (t1 + as_jwtTimeout s) t2) (as_jwtSecret s) = Inr tok"
    by (elim generateToken_runs) simp
  note t = assms(2) [OF now(1)] assms(2) [OF now(2)]
  have x: "ParseFloat (FormatInt uid) = Some (f64_of_int (sint uid))"
    using ParseFloat_fmt_int [OF assms(4)] by (simp add: FormatInt_def)
  have "time_Unix (t1 + as_jwtTimeout s) * second \<le> t1 + as_jwtTimeout s"
    using pos_mod_sign [of second "t1 + as_jwtTimeout s"]
    by (simp add: time_Unix_def second_def minus_mod_eq_div_mult [symmetric])
  then have "time_Unix (t1 + as_jwtTimeout s) * second \<le> clk w" using assms(9) t by linarith
  from jwt_contract.JWTAuth_expired [OF assms(1) sign _ _ x this assms(8,10)] assms(5-7) t
  show ?thesis by simp
qed

definition next_day :: world where
  "next_day = world1\<lparr>w_clock := 24 * 3600 * second\<rparr>"

theorem expired_token_refused_witness:
  "run_state (JWTAuth (\<lambda>_. 0) ref_jwt (as_jwtSecret token_setup) (as_userRepo token_setup)
       (\<lambda>w r. go_return (WriteHeader 200 w)) new_writer
     (request_with ''Authorization'' (''Bearer '' @ token_of 1))) next_day =
   (RespondWithError new_writer 401 ''invalid token'', next_day)"
proof -
  have "ParseFloat (FormatInt (1 :: int64)) = Some (f64_of_int 1)"
    using ParseFloat_fmt_int [of 1] by (simp add: FormatInt_def)
  from expired_token_refused [OF ref_tokens.jwt_contract_axioms ref_clock generate_ref [OF this] _ _ _ _ bearer_request_with,
      where w = next_day, OF _ _ _ _ _ _ runs_to_val_of]
  show ?thesis
    by (simp add: token_setup_def next_day_def world1_def world0_def second_def val_of_def end_of_def prod_eq_iff)
qed

end
