(* ===== verification/Repo_Runs.thy ===== *)
theory Repo_Runs
  imports World
begin

text \<open>
  Runs of the API-key repository: an \<open>inductive\<close> step relation whose steps are whole calls of the
  five operations, in any order and with any results. Cache coherence is an invariant of every run
  against a reliable Redis, so lookups answer like the table and a revoked key stays revoked. The two
  theorems at the end show the runs for which this fails, whatever the servers are: a lost cache
  write, and a deletion between the table read and the cache write of a concurrent lookup. Their
  witnesses run on the reference servers.
\<close>

section \<open>Definitions\<close>

text \<open>
  \<open>H\<close> is the set of hashes new keys may get: the hashes of freshly drawn random keys.
\<close>

inductive repo_step ::
  "'w postgresAPIKeyRepository \<Rightarrow> ('w \<Rightarrow> ApiKey list) \<Rightarrow> bytes set \<Rightarrow> 'w \<Rightarrow> 'w \<Rightarrow> bool"
  for r tbl H where
  lookup: "runs_to (GetAPIKeyByHash r h) w res w' \<Longrightarrow> repo_step r tbl H w w'"
| create: "cp_KeyHash arg \<in> H \<Longrightarrow> cp_KeyHash arg \<notin> k_KeyHash ` set (tbl w) \<Longrightarrow>
    runs_to (CreateAPIKey r arg) w res' w' \<Longrightarrow> repo_step r tbl H w w'"
| listing: "runs_to (ListAPIKeysByUser r uid) w resl w' \<Longrightarrow> repo_step r tbl H w w'"
| delete: "runs_to (DeleteAPIKey r uid i) w resu w' \<Longrightarrow> repo_step r tbl H w w'"
| touch: "runs_to (UpdateAPIKeyLastUsed r i) w resu w' \<Longrightarrow> repo_step r tbl H w w'"

text \<open>The repository on a Redis that may fail at chosen calls.\<close>

definition faulty_repo :: "world postgresAPIKeyRepository" where
  "faulty_repo = ref_repo\<lparr>par_redisClient := Some (ref_redis True)\<rparr>"

text \<open>Concrete runs: one key created, with and without a lost cache write.\<close>

definition arg1 :: CreateAPIKeyParams where
  "arg1 = \<lparr>cp_UserID = 1, cp_KeyHash = ''h'', cp_Label = Some ''ci'', cp_RateRpm = 60\<rparr>"

definition world2 :: world where
  "world2 = end_of (CreateAPIKey ref_repo arg1) world1"

definition lossy_world :: world where
  "lossy_world = world1\<lparr>w_redis_faults := [None, Some ''i/o timeout'']\<rparr>"

definition lossy_created :: world where
  "lossy_created = end_of (CreateAPIKey faulty_repo arg1) lossy_world"

definition row1 :: GetAPIKeyByHashRow where
  "row1 = \<lparr>gr_ID = 1, gr_UserID = 1, gr_KeyHash = ''h'', gr_Active = True, gr_RateRpm = 60\<rparr>"

definition key1 :: ApiKey where
  "key1 = \<lparr>k_ID = 1, k_UserID = 1, k_KeyHash = ''h'', k_Label = Some ''ci'', k_Active = True, k_RateRpm = 60,
     k_LastUsedAt = None, k_CreatedAt = 0\<rparr>"


section \<open>Invariants of runs\<close>

context key_cache
begin

lemma step_coherent:
  assumes "repo_step r tbl H w w'" "coherent (tbl w) (live w)"
  shows "coherent (tbl w') (live w')"
  using assms(1)
proof cases
  case (create arg res')
  with CreateAPIKey_spec [OF create(3) assms(2) create(2)] show ?thesis by simp
qed (use assms(2) GetAPIKeyByHash_spec ListAPIKeysByUser_spec DeleteAPIKey_spec UpdateAPIKeyLastUsed_spec in blast)+

lemma run_coherent:
  assumes "(repo_step r tbl H)\<^sup>*\<^sup>* w w'" "coherent (tbl w) (live w)"
  shows "coherent (tbl w') (live w')"
  using assms by induction (auto intro: step_coherent)

lemma touch_keeps_hashes:
  "map hash_row ks' = map hash_row ks \<Longrightarrow> k_KeyHash ` set ks' = k_KeyHash ` set ks"
proof -
  assume "map hash_row ks' = map hash_row ks"
  then have "map (gr_KeyHash \<circ> hash_row) ks' = map (gr_KeyHash \<circ> hash_row) ks"
    by (metis map_map)
  moreover have "gr_KeyHash \<circ> hash_row = k_KeyHash" by (auto simp: hash_row_def)
  ultimately have "map k_KeyHash ks' = map k_KeyHash ks" by simp
  then show ?thesis by (metis set_map)
qed

text \<open>No step but a creation makes a hash appear in the table.\<close>

lemma step_keeps_absent:
  assumes "repo_step r tbl H w w'" "coherent (tbl w) (live w)" "h \<notin> H" "h \<notin> k_KeyHash ` set (tbl w)"
  shows "h \<notin> k_KeyHash ` set (tbl w')"
  using assms(1)
proof cases
  case (lookup g res)
  with GetAPIKeyByHash_spec [OF lookup assms(2)] assms(4) show ?thesis by simp
next
  case (create arg res')
  with CreateAPIKey_spec [OF create(3) assms(2) create(2)] assms(3,4) show ?thesis
    by (cases res') (auto simp: image_iff)
next
  case (listing uid resl)
  with ListAPIKeysByUser_spec [OF listing assms(2)] assms(4) show ?thesis by simp
next
  case (delete uid i resu)
  with DeleteAPIKey_spec [OF delete assms(2)] assms(4) show ?thesis by (cases resu) auto
next
  case (touch i resu)
  with UpdateAPIKeyLastUsed_spec [OF touch assms(2)] touch_keeps_hashes assms(4) show ?thesis by blast
qed

lemma run_keeps_absent:
  assumes "(repo_step r tbl H)\<^sup>*\<^sup>* w w'" "coherent (tbl w) (live w)" "h \<notin> H" "h \<notin> k_KeyHash ` set (tbl w)"
  shows "h \<notin> k_KeyHash ` set (tbl w')"
  using assms(1)
proof induction
  case (step y z)
  with run_coherent [OF step(1) assms(2)] step_keeps_absent [OF step(2) _ assms(3)] show ?case by blast
qed (rule assms(4))

lemma lookup_in_run:
  assumes "(repo_step r tbl H)\<^sup>*\<^sup>* w0 w" "coherent (tbl w0) (live w0)" "runs_to (GetAPIKeyByHash r h) w res w'"
  shows "res = Inr row \<Longrightarrow> lookup_hash (tbl w) h = Some row"
    and "res = Inl ErrNoRows \<Longrightarrow> lookup_hash (tbl w) h = None"
  using GetAPIKeyByHash_spec [OF assms(3) run_coherent [OF assms(1,2)]] by auto

lemma revoked_in_run:
  assumes coh: "coherent (tbl w0) (live w0)" and k: "k \<in> set (tbl w0)" "k_KeyHash k \<notin> H"
    and del: "runs_to (DeleteAPIKey r (k_UserID k) (k_ID k)) w0 (Inr ()) w1"
    and run: "(repo_step r tbl H)\<^sup>*\<^sup>* w1 w2" and get: "runs_to (GetAPIKeyByHash r (k_KeyHash k)) w2 res w3"
  shows "\<exists>e. res = Inl e"
proof -
  from DeleteAPIKey_spec [OF del coh] have
    c1: "coherent (tbl w1) (live w1)" "tbl w1 = remove_key (k_UserID k) (k_ID k) (tbl w0)" by auto
  have "k' = k" if "k' \<in> set (tbl w0)" "k_KeyHash k' = k_KeyHash k" for k'
    using coh that k by (auto simp: coherent_def keys_wf_def dest: distinct_map_inj)
  with c1(2) have "k_KeyHash k \<notin> k_KeyHash ` set (tbl w1)" by auto
  with run_keeps_absent [OF run c1(1) k(2)] lookup_in_run(1) [OF run c1(1) get] show ?thesis
    by (cases res) (auto simp flip: lookup_hash_None)
qed

text \<open>A deletion, and any calls after it, between the table read and the cache write of a lookup.\<close>

lemma stale_write_outlives_row:
  assumes coh: "coherent (tbl w0) (live w0)" and miss: "runs_to (cache_lookup r h) w0 None w1"
    and read: "runs_to (q_GetAPIKeyByHash q h) w1 (Inr row) w2"
    and del: "runs_to (DeleteAPIKey r (gr_UserID row) (gr_ID row)) w2 (Inr ()) w3"
    and run: "(repo_step r tbl H)\<^sup>*\<^sup>* w3 w4" "h \<notin> H"
    and store: "runs_to (store_in_cache r h c) w4 u w5"
    and c: "c = \<lparr>ca_ID = gr_ID row, ca_UserID = gr_UserID row, ca_Active = gr_Active row, ca_RateRpm = gr_RateRpm row\<rparr>"
    and look: "runs_to (GetAPIKeyByHash r h) w5 res w6" "clk w6 \<le> clk w4 + par_ttl r"
  shows "res = Inr row \<and> h \<notin> k_KeyHash ` set (tbl w6)"
proof -
  have "coherent (tbl w1) (live w1)" by (rule cache_lookup_spec(2) [OF miss coh])
  then have c2: "coherent (tbl w2) (live w2)" and t2: "tbl w2 = tbl w1" using find_frame [OF read] by (simp_all add: coherent_advance)
  from find_row [OF read] t2 obtain k where k: "k \<in> set (tbl w2)" "k_KeyHash k = h" "row = hash_row k" by auto
  from DeleteAPIKey_spec [OF del c2] k have
    c3: "coherent (tbl w3) (live w3)" "tbl w3 = remove_key (k_UserID k) (k_ID k) (tbl w2)" by (auto simp: hash_row_def)
  have "k' = k" if "k' \<in> set (tbl w2)" "k_KeyHash k' = h" for k'
    using c2 that k by (auto simp: coherent_def keys_wf_def dest: distinct_map_inj)
  with c3(2) have "h \<notin> k_KeyHash ` set (tbl w3)" by auto
  from run_keeps_absent [OF run(1) c3(1) run(2) this] have gone: "h \<notin> k_KeyHash ` set (tbl w4)" .
  from store obtain r1 r2 w where
    s1: "runs_to (redis_Set rc (apiKeyCacheKey h) (marshal_cachedAPIKey c) (par_ttl r)) w4 r1 w" and
    s2: "runs_to (redis_Set rc (apiKeyIDCacheKey (ca_ID c)) (EncodeToString h) (par_ttl r)) w r2 w5"
    by (auto simp: store_in_cache_def r_redis runs_to_bind)
  note l1 = set_live [OF s1 r_ttl] and l2 = set_live [OF s2 r_ttl]
  have time: "clk w5 \<le> clk w6" using lookup_clock [OF look(1)] .
  have "live w5 (apiKeyCacheKey h) = Some (marshal_cachedAPIKey c, Some (clk w + par_ttl r))"
    using l1 l2 time look(2) by (simp add: advance_Some)
  from live_entry_is_served [OF this get_no_fault look(1)] gone l1 l2 look(2) show ?thesis
    by (simp add: c k(3) hash_row_def k(2))
qed

end

context fallible_cache
begin

text \<open>A creation of which only the second cache write failed, the deletion, and a later lookup.\<close>

lemma unlinked_entry_outlives_row:
  assumes "cp_KeyHash arg \<notin> k_KeyHash ` set (tbl w0)"
    and ins: "runs_to (q_CreateAPIKey q arg) w0 (Inr row) w1"
    and set1: "runs_to (redis_Set rc (apiKeyCacheKey (cp_KeyHash arg)) (marshal_cachedAPIKey c) (par_ttl r)) w1 (Inr ()) w2"
    and set2: "runs_to (redis_Set rc (apiKeyIDCacheKey (cr_ID row)) (EncodeToString (cp_KeyHash arg)) (par_ttl r)) w2 (Inl e) w3"
      "live w3 (apiKeyIDCacheKey (cr_ID row)) = None"
    and c: "c = \<lparr>ca_ID = cr_ID row, ca_UserID = cr_UserID row, ca_Active = cr_Active row, ca_RateRpm = cr_RateRpm row\<rparr>"
    and del: "runs_to (DeleteAPIKey r (cp_UserID arg) (cr_ID row)) w3 (Inr ()) w4"
    and get: "\<And>e v. runs_to (redis_Get rc (apiKeyCacheKey (cp_KeyHash arg))) w4 (Inl e) v \<Longrightarrow> e = RedisNil"
    and look: "runs_to (GetAPIKeyByHash r (cp_KeyHash arg)) w4 res w5" "clk w5 \<le> clk w2 + par_ttl r"
  shows "runs_to (CreateAPIKey r arg) w0 (Inr row) w3 \<and> cp_KeyHash arg \<notin> k_KeyHash ` set (tbl w5)
    \<and> res = Inr \<lparr>gr_ID = cr_ID row, gr_UserID = cr_UserID row, gr_KeyHash = cp_KeyHash arg, gr_Active = cr_Active row,
        gr_RateRpm = cr_RateRpm row\<rparr>"
proof -
  let ?k = "apiKeyCacheKey (cp_KeyHash arg)"
  have created: "runs_to (CreateAPIKey r arg) w0 (Inr row) w3"
    using ins set1 set2(1) by (simp add: CreateAPIKey_def store_in_cache_def r_q r_redis c runs_to_bind_known)
  from insert_row [OF ins] obtain k where k: "tbl w1 = tbl w0 @ [k]" "k_ID k \<notin> k_ID ` set (tbl w0)"
    "k_UserID k = cp_UserID arg" "row = create_row k" by auto
  note dele = DeleteAPIKey_unlinked [OF del set2(2)]
  have tables: "tbl w3 = tbl w1" "clk w2 \<le> clk w3" using set_frame [OF set1] set_frame [OF set2(1)] by simp_all
  have "tbl w4 = tbl w0"
    using dele tables k by (auto simp: create_row_def filter_id_conv) (metis image_eqI)
  moreover have "clk w4 \<le> clk w5" using lookup_clock [OF look(1)] .
  moreover have "live w2 ?k = Some (marshal_cachedAPIKey c, Some (clk w2 + par_ttl r))"
    using set_ok [OF set1 r_ttl] by simp
  ultimately have "live w4 ?k = Some (marshal_cachedAPIKey c, Some (clk w2 + par_ttl r))"
    using dele set_fail [OF set2(1) r_ttl] look(2) by (auto simp: advance_Some)
  from live_entry_is_served [OF this get look] created \<open>tbl w4 = tbl w0\<close> assms(1) show ?thesis by (simp add: c)
qed

end


section \<open>Theorems\<close>

text \<open>
  C1. A lookup through the Redis cache refines the table lookup: in every state a run of repository
  calls can reach from a coherent one, \<open>GetAPIKeyByHash\<close> returns a row only if it is the row the
  table holds for that hash, reports \<open>sql.ErrNoRows\<close> only if there is none, leaves the table alone
  and keeps the cache coherent.
\<close>

theorem cached_lookup_refines_table:
  assumes "key_cache rc q tbl live clk r"
    and "coherent (tbl w0) (live w0)"
    and "(repo_step r tbl H)\<^sup>*\<^sup>* w0 w"
    and "runs_to (GetAPIKeyByHash r h) w res w'"
  shows "(\<forall>row. res = Inr row \<longrightarrow> lookup_hash (tbl w) h = Some row)
    \<and> (res = Inl ErrNoRows \<longrightarrow> lookup_hash (tbl w) h = None)
    \<and> tbl w' = tbl w \<and> coherent (tbl w') (live w')"
  using key_cache.GetAPIKeyByHash_spec [OF assms(1,4) key_cache.run_coherent [OF assms(1,3,2)]] by auto

lemma coherent_world1: "coherent (w_keys world1) (w_live world1)"
  by (simp add: world1_def world0_def w_live_def advance_def coherent_def entry_ok_def keys_wf_def)

lemma created_step: "(repo_step ref_repo w_keys UNIV)\<^sup>*\<^sup>* world1 world2"
proof (rule r_into_rtranclp, rule repo_step.create [of arg1])
  show "cp_KeyHash arg1 \<notin> k_KeyHash ` set (w_keys world1)"
    by (simp add: world1_def world0_def)
  show "runs_to (CreateAPIKey ref_repo arg1) world1 (val_of (CreateAPIKey ref_repo arg1) world1) world2"
    by (simp add: runs_to_iff world2_def)
qed simp

lemma world2_lookup: "val_of (GetAPIKeyByHash ref_repo ''h'') world2 = Inr row1"
  by (simp add: ref_eval repo_eval ref_repo_def arg1_def world2_def row1_def)

lemma world2_keys: "w_keys world2 = [key1]"
  by (simp add: ref_eval repo_eval ref_repo_def arg1_def world2_def key1_def)

theorem cached_lookup_refines_table_witness:
  "lookup_hash (w_keys world2) ''h'' = Some row1"
  using cached_lookup_refines_table [OF ref_cache.key_cache_axioms coherent_world1 created_step
      runs_to_val_of [of "GetAPIKeyByHash ref_repo ''h''"]] world2_lookup by simp

text \<open>
  C2. Revocation: in a run that starts with a coherent cache, against a Redis whose commands do not fail,
  once a key's owner has deleted it with success, no later lookup of its hash returns a key, whatever
  repository calls happen in between (each call one step), as long as none of them creates a new key
  with the same hash. The theorems on lost cache writes and on concurrent deletions below show that the
  two conditions, no failing command and whole calls as steps, are needed.
\<close>

theorem revoked_key_stays_revoked:
  assumes "key_cache rc q tbl live clk r"
    and "coherent (tbl w0) (live w0)" "k \<in> set (tbl w0)" "k_KeyHash k \<notin> H"
    and "runs_to (DeleteAPIKey r (k_UserID k) (k_ID k)) w0 (Inr ()) w1"
    and "(repo_step r tbl H)\<^sup>*\<^sup>* w1 w2"
    and "runs_to (GetAPIKeyByHash r (k_KeyHash k)) w2 res w3"
  shows "\<exists>e. res = Inl e"
  using key_cache.revoked_in_run [OF assms] .

theorem revoked_key_stays_revoked_witness:
  "\<exists>e. val_of (GetAPIKeyByHash ref_repo ''h'') (end_of (DeleteAPIKey ref_repo 1 1) world2) = Inl e"
proof -
  have coh: "coherent (w_keys world2) (w_live world2)"
    by (rule ref_cache.run_coherent [OF created_step coherent_world1])
  have "val_of (DeleteAPIKey ref_repo 1 1) world2 = Inr ()"
    by (simp add: ref_eval repo_eval ref_repo_def arg1_def world2_def)
  then have "runs_to (DeleteAPIKey ref_repo (k_UserID key1) (k_ID key1)) world2 (Inr ()) (end_of (DeleteAPIKey ref_repo 1 1) world2)"
    by (simp add: runs_to_iff key1_def)
  from revoked_key_stays_revoked [OF ref_cache.key_cache_axioms coh _ _ this rtranclp.rtrancl_refl runs_to_val_of,
      of "{}"] show ?thesis by (simp add: world2_keys key1_def)
qed

text \<open>
  C21. Deletion is scoped to the owner: a delete call for a user who does not own the key leaves the
  table exactly as it was, and the key is still found afterwards.
\<close>

theorem delete_only_by_owner:
  assumes "key_cache rc q tbl live clk r" "coherent (tbl w) (live w)"
    and "k \<in> set (tbl w)" "k_UserID k \<noteq> uid"
    and "runs_to (DeleteAPIKey r uid (k_ID k)) w res w1"
    and "runs_to (GetAPIKeyByHash r (k_KeyHash k)) w1 res2 w2"
  shows "tbl w1 = tbl w \<and> (\<forall>row. res2 = Inr row \<longrightarrow> row = hash_row k) \<and> res2 \<noteq> Inl ErrNoRows"
proof -
  have coh: "coherent (tbl w1) (live w1)" and "tbl w1 = tbl w \<or> tbl w1 = remove_key uid (k_ID k) (tbl w)"
    using key_cache.DeleteAPIKey_spec [OF assms(1,5,2)] by (cases res; auto)+
  moreover have "remove_key uid (k_ID k) (tbl w) = tbl w"
    using assms(2-4) by (auto simp: filter_id_conv coherent_def keys_wf_def dest: distinct_map_inj)
  ultimately have "tbl w1 = tbl w" by auto
  then show ?thesis
    using key_cache.GetAPIKeyByHash_spec [OF assms(1,6) coh] assms(2,3) lookup_hash_Some [of "tbl w" k]
    by (auto simp: coherent_def)
qed

theorem delete_only_by_owner_witness:
  "w_keys (end_of (DeleteAPIKey ref_repo 2 1) world2) = [key1]"
proof -
  have coh: "coherent (w_keys world2) (w_live world2)"
    by (rule ref_cache.run_coherent [OF created_step coherent_world1])
  show ?thesis
    using delete_only_by_owner [OF ref_cache.key_cache_axioms coh, of key1 2, OF _ _ _ runs_to_val_of,
        of "val_of (DeleteAPIKey ref_repo 2 1) world2" "end_of (DeleteAPIKey ref_repo 2 1) world2"]
    by (simp add: world2_keys key1_def runs_to_iff)
qed

text \<open>
  C30. A lost cache write defeats revocation. \<open>CreateAPIKey\<close> ignores the error of its second \<open>SET\<close> (the
  reverse entry). Against any database and any Redis whose commands may fail: when a key is created and
  only that write fails without effect, the creation still reports success; the owner's deletion then
  reports success, the row is gone, and until the first entry expires a lookup whose \<open>GET\<close> does not fail
  still returns the deleted key.
\<close>

theorem lost_reverse_entry_keeps_revoked_key:
  assumes "fallible_cache rc q tbl live clk r" "cp_KeyHash arg \<notin> k_KeyHash ` set (tbl w0)"
    and "runs_to (q_CreateAPIKey q arg) w0 (Inr row) w1"
    and "runs_to (redis_Set rc (apiKeyCacheKey (cp_KeyHash arg)) (marshal_cachedAPIKey \<lparr>ca_ID = cr_ID row,
           ca_UserID = cr_UserID row, ca_Active = cr_Active row, ca_RateRpm = cr_RateRpm row\<rparr>) (par_ttl r)) w1 (Inr ()) w2"
    and "runs_to (redis_Set rc (apiKeyIDCacheKey (cr_ID row)) (EncodeToString (cp_KeyHash arg)) (par_ttl r)) w2 (Inl e) w3"
    and "live w3 (apiKeyIDCacheKey (cr_ID row)) = None"
    and "runs_to (DeleteAPIKey r (cp_UserID arg) (cr_ID row)) w3 (Inr ()) w4"
    and "\<And>e v. runs_to (redis_Get rc (apiKeyCacheKey (cp_KeyHash arg))) w4 (Inl e) v \<Longrightarrow> e = RedisNil"
    and "runs_to (GetAPIKeyByHash r (cp_KeyHash arg)) w4 res w5" "clk w5 \<le> clk w2 + par_ttl r"
  shows "runs_to (CreateAPIKey r arg) w0 (Inr row) w3 \<and> cp_KeyHash arg \<notin> k_KeyHash ` set (tbl w5)
    \<and> res = Inr \<lparr>gr_ID = cr_ID row, gr_UserID = cr_UserID row, gr_KeyHash = cp_KeyHash arg, gr_Active = cr_Active row,
        gr_RateRpm = cr_RateRpm row\<rparr>"
  using fallible_cache.unlinked_entry_outlives_row [OF assms(1-6) refl assms(7-10)] .

definition lossy_set :: "string \<Rightarrow> string \<Rightarrow> (world, unit result) state" where
  "lossy_set k v = redis_Set (ref_redis True) k v (3600 * second)"

definition lossy_inserted :: world where
  "lossy_inserted = end_of (q_CreateAPIKey (New ref_DBTX) arg1) lossy_world"

definition lossy_half :: world where
  "lossy_half = end_of (lossy_set (apiKeyCacheKey ''h'') (marshal_cachedAPIKey (cached_of key1))) lossy_inserted"

lemmas lossy_eval =
  ref_eval repo_eval ref_repo_def faulty_repo_def arg1_def lossy_world_def lossy_inserted_def lossy_half_def lossy_created_def
  lossy_set_def key1_def create_row_def cached_of_def

lemma lossy_steps:
  "val_of (q_CreateAPIKey (New ref_DBTX) arg1) lossy_world = Inr (create_row key1)"
  "val_of (lossy_set (apiKeyCacheKey ''h'') (marshal_cachedAPIKey (cached_of key1))) lossy_inserted = Inr ()"
  "run_state (lossy_set (apiKeyIDCacheKey 1) (EncodeToString ''h'')) lossy_half = (Inl (ErrorString ''i/o timeout''), lossy_created)"
  "w_live lossy_created (apiKeyIDCacheKey 1) = None"
  "val_of (DeleteAPIKey faulty_repo 1 1) lossy_created = Inr ()"
  "w_redis_faults (end_of (DeleteAPIKey faulty_repo 1 1) lossy_created) = []"
  "w_clock (end_of (GetAPIKeyByHash faulty_repo ''h'') (end_of (DeleteAPIKey faulty_repo 1 1) lossy_created)) = 0"
  "w_clock lossy_half = 0"
  by (simp_all add: lossy_eval)

interpretation faulty_cache: fallible_cache "ref_redis True" "New ref_DBTX" w_keys w_live w_clock faulty_repo
  by unfold_locales (simp_all add: faulty_repo_def ref_repo_def second_def)

theorem lost_reverse_entry_keeps_revoked_key_witness:
  "val_of (GetAPIKeyByHash faulty_repo ''h'') (end_of (DeleteAPIKey faulty_repo 1 1) lossy_created) = Inr row1
   \<and> ''h'' \<notin> k_KeyHash ` set (w_keys (end_of (GetAPIKeyByHash faulty_repo ''h'') (end_of (DeleteAPIKey faulty_repo 1 1) lossy_created)))"
proof -
  have calm: "e = RedisNil" if "runs_to (redis_Get (ref_redis True) k) (end_of (DeleteAPIKey faulty_repo 1 1) lossy_created) (Inl e) v" for e k v
    using that lossy_steps(6) by (auto simp: redis_call_def do_get_def tick_def runs_to_def Let_def split: list.splits option.splits)
  have "cp_KeyHash arg1 = ''h''" "cp_UserID arg1 = 1" "cr_ID (create_row key1) = 1" "par_ttl faulty_repo = 3600 * second"
    by (simp_all add: arg1_def create_row_def key1_def faulty_repo_def ref_repo_def)
  note sel = this
  have c: "\<lparr>ca_ID = 1, ca_UserID = cr_UserID (create_row key1), ca_Active = cr_Active (create_row key1),
      ca_RateRpm = cr_RateRpm (create_row key1)\<rparr> = cached_of key1"
    by (simp add: create_row_def cached_of_def key1_def)
  have "''h'' \<notin> k_KeyHash ` set (w_keys lossy_world)" by (simp add: lossy_world_def world1_def world0_def)
  note steps = this runs_to_val_of lossy_steps(4)
  have "runs_to (q_CreateAPIKey (New ref_DBTX) arg1) lossy_world (Inr (create_row key1)) lossy_inserted"
    and "runs_to (lossy_set (apiKeyCacheKey ''h'') (marshal_cachedAPIKey (cached_of key1))) lossy_inserted (Inr ()) lossy_half"
    using lossy_steps(1,2) by (simp_all only: runs_to_iff lossy_inserted_def lossy_half_def simp_thms)
  note steps = steps this
  have "runs_to (lossy_set (apiKeyIDCacheKey 1) (EncodeToString ''h'')) lossy_half (Inl (ErrorString ''i/o timeout'')) lossy_created"
    using lossy_steps(3) by (simp only: runs_to_def)
  note steps = steps this
  have "runs_to (DeleteAPIKey faulty_repo 1 1) lossy_created (Inr ()) (end_of (DeleteAPIKey faulty_repo 1 1) lossy_created)"
    using lossy_steps(5) by (simp only: runs_to_iff simp_thms)
  note steps = steps this
  have "w_clock (end_of (GetAPIKeyByHash faulty_repo ''h'') (end_of (DeleteAPIKey faulty_repo 1 1) lossy_created))
      \<le> w_clock lossy_half + 3600 * second"
    using lossy_steps(7,8) by (simp add: second_def)
  note steps = steps this
  have "''h'' \<notin> k_KeyHash ` set (w_keys (end_of (GetAPIKeyByHash faulty_repo ''h'') (end_of (DeleteAPIKey faulty_repo 1 1) lossy_created)))
    \<and> val_of (GetAPIKeyByHash faulty_repo ''h'') (end_of (DeleteAPIKey faulty_repo 1 1) lossy_created) =
      Inr \<lparr>gr_ID = 1, gr_UserID = cr_UserID (create_row key1), gr_KeyHash = ''h'', gr_Active = cr_Active (create_row key1), gr_RateRpm = cr_RateRpm (create_row key1)\<rparr>"
    by (rule lost_reverse_entry_keeps_revoked_key [OF faulty_cache.fallible_cache_axioms, of arg1 lossy_world "create_row key1" lossy_inserted
        lossy_half "ErrorString ''i/o timeout''" lossy_created "end_of (DeleteAPIKey faulty_repo 1 1) lossy_created",
        unfolded sel c, folded lossy_set_def, THEN conjunct2]) (rule steps | erule calm)+
  then show ?thesis by (simp only: row1_def create_row_def key1_def ApiKey.simps CreateAPIKeyRow.simps simp_thms)
qed







end
