(* ===== verification/Accounts.thy ===== *)
theory Accounts
  imports Tokens Repo_Runs
begin

text \<open>
  Accounts and credentials. \<open>user_queries\<close> states what the user queries promise of the users table,
  \<open>accounts\<close> adds bcrypt, the JWT library and the clock. In these locales: signing up and signing in
  round-trips, a taken e-mail address is refused, and an API key authenticates only as the active row
  the table holds for it, never after its deletion. Both are interpreted on the reference database,
  whose e-mail column ignores case.
\<close>

section \<open>Definitions\<close>

definition user_row :: "User \<Rightarrow> UserRow" where
  "user_row u = \<lparr>ur_ID = u_ID u, ur_Name = u_Name u, ur_Email = u_Email u, ur_Plan = u_Plan u,
     ur_CreatedAt = u_CreatedAt u, ur_UpdatedAt = u_UpdatedAt u\<rparr>"

definition login_row :: "User \<Rightarrow> GetUserByEmailForLoginRow" where
  "login_row u = \<lparr>ul_ID = u_ID u, ul_Name = u_Name u, ul_Email = u_Email u, ul_PasswordHash = u_PasswordHash u,
     ul_Plan = u_Plan u, ul_CreatedAt = u_CreatedAt u, ul_UpdatedAt = u_UpdatedAt u\<rparr>"

locale user_queries =
  fixes q :: "'w Querier"
    and users :: "'w \<Rightarrow> User list"
    and same :: "string \<Rightarrow> string \<Rightarrow> bool"
  assumes same_refl: "same e e"
    and id_frame: "runs_to (q_GetUserByID q i) w ri w' \<Longrightarrow> users w' = users w"
    and id_row: "runs_to (q_GetUserByID q i) w (Inr row) w' \<Longrightarrow> \<exists>u\<in>set (users w). u_ID u = i \<and> row = user_row u"
    and email_frame: "runs_to (q_GetUserByEmail q e) w ri w' \<Longrightarrow> users w' = users w"
    and email_none: "runs_to (q_GetUserByEmail q e) w (Inl er) w' \<Longrightarrow> errors_Is er ErrNoRows \<Longrightarrow>
          \<forall>u\<in>set (users w). \<not> same (u_Email u) e"
    and login_frame: "runs_to (q_GetUserByEmailForLogin q e) w rl w' \<Longrightarrow> users w' = users w"
    and login_found: "runs_to (q_GetUserByEmailForLogin q e) w (Inr lrow) w' \<Longrightarrow>
          \<exists>u\<in>set (users w). same (u_Email u) e \<and> lrow = login_row u"
    and insert_row: "runs_to (q_CreateUser q p) w (Inr row) w' \<Longrightarrow>
          \<exists>u. users w' = users w @ [u] \<and> u_Email u = up_Email p \<and> u_PasswordHash u = up_PasswordHash p
            \<and> row = user_row u \<and> (\<forall>v\<in>set (users w). \<not> same (u_Email v) (up_Email p))"
    and insert_fail: "runs_to (q_CreateUser q p) w (Inl er) w' \<Longrightarrow> users w' = users w"

locale accounts = user_queries q users same + jwt_contract jwt clk
  for q :: "'w Querier" and users :: "'w \<Rightarrow> User list" and same :: "string \<Rightarrow> string \<Rightarrow> bool"
    and jwt :: "'w jwt_lib" and clk :: "'w \<Rightarrow> time" +
  fixes env :: "'w env" and bc :: "'w bcrypt_lib" and s :: "'w authService"
  assumes s_repo: "as_userRepo s = NewUserRepository q"
    and hash_frame: "runs_to (GenerateFromPassword bc pw c) w rh w' \<Longrightarrow> users w' = users w"
    and hash_compare: "runs_to (GenerateFromPassword bc pw c) w (Inr h) w' \<Longrightarrow> CompareHashAndPassword bc h pw = Inr ()"
    and now_frame: "runs_to (time_Now env) w t w' \<Longrightarrow> users w' = users w \<and> t = clk w' \<and> clk w \<le> clk w'"
begin

lemma repo_sel [simp]:
  "usr_GetUserByEmail (as_userRepo s) = q_GetUserByEmail q"
  "usr_GetUserByEmailForLogin (as_userRepo s) = q_GetUserByEmailForLogin q"
  "usr_CreateUser (as_userRepo s) = q_CreateUser q"
  by (simp_all add: s_repo NewUserRepository_def)

lemma token_frame: "runs_to (generateToken env jwt s uid) w rt w' \<Longrightarrow> users w' = users w"
  by (auto elim!: generateToken_runs dest!: now_frame)

lemma token_ok:
  assumes "runs_to (generateToken env jwt s uid) w rt w'"
    and "\<bar>sint uid\<bar> \<le> 2 ^ 53" "0 \<le> clk w" "0 \<le> as_jwtTimeout s" "clk w' + as_jwtTimeout s < 2 ^ 53 * second"
  shows "\<exists>tok. rt = Inr tok"
proof -
  from assms(1) obtain t1 t2 wm where now: "runs_to (time_Now env) w t1 wm" "runs_to (time_Now env) wm t2 w'"
    and rt: "rt = jwt_Sign jwt (token_claims uid (t1 + as_jwtTimeout s) t2) (as_jwtSecret s)"
    by (rule generateToken_runs)
  have "ParseFloat (FormatInt uid) = Some (f64_of_int (sint uid))"
    using ParseFloat_fmt_int [OF assms(2)] by (simp add: FormatInt_def)
  then have "int_claims (token_claims uid (t1 + as_jwtTimeout s) t2)"
    using now_frame [OF now(1)] now_frame [OF now(2)] assms(3-5) by (intro int_claims_token) auto
  with rt sign_ok show ?thesis by blast
qed

text \<open>What a successful sign-up leaves in the table.\<close>

lemma SignUp_created:
  assumes "runs_to (SignUp env jwt bc s name email pw) w (Inr (user, tok)) w'"
  obtains u where "users w' = users w @ [u]" "user = user_row u" "u_Email u = email"
    "CompareHashAndPassword bc (u_PasswordHash u) pw = Inr ()" "\<forall>v\<in>set (users w). \<not> same (u_Email v) email"
  using assms
proof (cases rule: SignUp_runs)
  case (created e h user' rt w1 w2 w3)
  have f: "users w1 = users w" "users w2 = users w1" "users w' = users w3"
    using email_frame created(1) hash_frame created(3) token_frame created(5) by auto
  from created(4) obtain u where u: "users w3 = users w2 @ [u]" "u_Email u = email" "u_PasswordHash u = h"
      "user' = user_row u" "\<forall>v\<in>set (users w2). \<not> same (u_Email v) email"
    using insert_row [OF created(4) [unfolded repo_sel]] by auto
  have "user = user'" using created(6) by (cases rt) auto
  with u f hash_compare [OF created(3)] that show thesis by simp
qed auto

lemma SignIn_after_SignUp:
  assumes up: "runs_to (SignUp env jwt bc s name email pw) w (Inr (user, tok)) w1"
    and same_users: "users w2 = users w1"
    and answers: "runs_to (q_GetUserByEmailForLogin q email) w2 (Inr lrow) v"
    and sin: "runs_to (SignIn env jwt bc s email pw) w2 res w3"
    and range: "\<bar>sint (ur_ID user)\<bar> \<le> 2 ^ 53" "0 \<le> clk v" "0 \<le> as_jwtTimeout s" "clk w3 + as_jwtTimeout s < 2 ^ 53 * second"
  shows "\<exists>tok'. res = Inr (lrow, tok') \<and> ul_ID lrow = ur_ID user"
proof -
  from up obtain u where u: "users w1 = users w @ [u]" "user = user_row u" "u_Email u = email"
    "CompareHashAndPassword bc (u_PasswordHash u) pw = Inr ()" "\<forall>v\<in>set (users w). \<not> same (u_Email v) email"
    by (rule SignUp_created)
  from login_found [OF answers] obtain u' where u': "u' \<in> set (users w2)" "same (u_Email u') email" "lrow = login_row u'" by blast
  with u same_users have "u' = u" by auto
  with u' have lrow: "lrow = login_row u" by simp
  have cmp: "CompareHashAndPassword bc (ul_PasswordHash lrow) pw = Inr ()"
    using u(4) lrow by (simp add: login_row_def)
  from sin show ?thesis
  proof (cases rule: SignIn_runs)
    case (lookup_fails e)
    with runs_to_deterministic [OF answers] show ?thesis by auto
  next
    case (mismatch row e)
    with runs_to_deterministic [OF answers, of "Inr row" w3] cmp show ?thesis by auto
  next
    case (matched row rt v')
    with runs_to_deterministic [OF answers] have eq: "row = lrow" "v' = v" by auto
    from matched(3) range eq have "\<exists>tok'. rt = Inr tok'"
      using token_ok [of "ul_ID lrow" v rt w3] u(2) lrow by (simp add: login_row_def user_row_def)
    with matched(4) eq u(2) lrow show ?thesis by (auto simp: login_row_def user_row_def)
  qed
qed

text \<open>A taken address, in any spelling the column identifies.\<close>

lemma SignUp_taken:
  assumes "u \<in> set (users w)" "same (u_Email u) email"
    and "runs_to (SignUp env jwt bc s name email pw) w res w'"
  shows "users w' = users w \<and> (res = Inl ErrEmailExists \<or>
     (\<exists>e. res = Inl e \<and> \<not> errors_Is e ErrNoRows \<and> runs_to (q_GetUserByEmail q email) w (Inl e) w'))"
  using assms(3)
proof (cases rule: SignUp_runs)
  case (taken row)
  with email_frame show ?thesis by auto
next
  case (lookup_fails e)
  with email_frame show ?thesis by auto
qed (use assms(1,2) email_none in auto)

end

section \<open>API keys as credentials\<close>

text \<open>
  One case per path. In the refusing ones the outcome is the same whatever handler stands behind the
  middleware: it does not run.
\<close>

lemma APIKeyAuth_runs:
  assumes run: "runs_to (APIKeyAuth env ar ur nxt wr rq) w a w'" and key: "Header_Get (rq_header rq) ''X-API-Key'' \<noteq> []"
  obtains (unknown) e where "runs_to (akr_GetAPIKeyByHash ar (HashAPIKey (Header_Get (rq_header rq) ''X-API-Key''))) w (Inl e) w'"
      "errors_Is e ErrNoRows" "a = RespondWithError wr 401 ''invalid API key''"
      "\<forall>nxt'. runs_to (APIKeyAuth env ar ur nxt' wr rq) w a w'"
  | (failed) e w1 where "runs_to (akr_GetAPIKeyByHash ar (HashAPIKey (Header_Get (rq_header rq) ''X-API-Key''))) w (Inl e) w1"
      "\<not> errors_Is e ErrNoRows" "a = RespondWithError wr 500 ''could not retrieve API key''"
      "\<forall>nxt'. runs_to (APIKeyAuth env ar ur nxt' wr rq) w a w'"
  | (inactive) row where "runs_to (akr_GetAPIKeyByHash ar (HashAPIKey (Header_Get (rq_header rq) ''X-API-Key''))) w (Inr row) w'"
      "\<not> gr_Active row" "a = RespondWithError wr 401 ''API key is not active''"
      "\<forall>nxt'. runs_to (APIKeyAuth env ar ur nxt' wr rq) w a w'"
  | (no_user) row w1 where
      "runs_to (akr_GetAPIKeyByHash ar (HashAPIKey (Header_Get (rq_header rq) ''X-API-Key''))) w (Inr row) w1"
      "a = RespondWithError wr 500 ''could not retrieve user''"
      "\<forall>nxt'. runs_to (APIKeyAuth env ar ur nxt' wr rq) w a w'"
  | (passed) row user w1 w2 w3 where
      "runs_to (akr_GetAPIKeyByHash ar (HashAPIKey (Header_Get (rq_header rq) ''X-API-Key''))) w (Inr row) w1"
      "gr_Active row" "runs_to (usr_GetUserByID ur (gr_UserID row)) w1 (Inr user) w2"
      "runs_to (nxt wr (with_identity rq \<lparr>id_UserID = ur_ID user, id_Plan = ur_Plan user, id_APIKeyID = Some (gr_ID row),
         id_RateRPM = Some (scast (gr_RateRpm row))\<rparr>)) w3 a w'"
proof -
  let ?get = "akr_GetAPIKeyByHash ar (HashAPIKey (Header_Get (rq_header rq) ''X-API-Key''))"
  obtain res w1 where get: "runs_to ?get w res w1" using runs_to_total [of ?get w] by blast
  show thesis
  proof (cases res)
    case (Inl e)
    then show thesis using run key unknown [of e] failed get
      by (auto simp: APIKeyAuth_def Let_def runs_to_bind_known [OF get]
          runs_to_bind [of "log_Printf env msg" for msg] split: if_splits)
  next
    case (Inr row)
    show thesis
    proof (cases "gr_Active row")
      case False
      then show thesis using Inr run key inactive [of row] get
        by (auto simp: APIKeyAuth_def Let_def runs_to_bind_known [OF get])
    next
      case True
      obtain res2 w2 where user: "runs_to (usr_GetUserByID ur (gr_UserID row)) w1 res2 w2"
        using runs_to_total [of "usr_GetUserByID ur (gr_UserID row)" w1] by blast
      show thesis
      proof (cases res2)
        case (Inl e)
        then show thesis using Inr True run key no_user [of row w1] get
          by (auto simp: APIKeyAuth_def Let_def runs_to_bind_known [OF get] runs_to_bind_known [OF user])
      next
        case (Inr u)
        with \<open>res = Inr row\<close> True run key get user show thesis
          by (auto simp: APIKeyAuth_def Let_def runs_to_bind_known [OF get] runs_to_bind_known [OF user]
              runs_to_bind [of "akr_UpdateAPIKeyLastUsed ar i" for i] runs_to_bind [of "case_sum f g x" for f g x]
              intro: passed)
      qed
    qed
  qed
qed

section \<open>The reference database\<close>

lemma query_user_id:
  assumes "query_row getUserByID [VInt (sint (i :: int64))] w = (r0, w')"
  shows "w' = w" "r0 = Inr cols \<Longrightarrow> \<exists>u\<in>set (w_users w). u_ID u = i \<and> scan_UserRow cols = Inr (user_row u)"
  using assms
  by (auto simp: query_row_def first_row_def sint_eq_iff scan_UserRow_def user_columns_def user_row_def
      split: option.splits dest!: find_SomeD)

lemma query_user_email:
  assumes "query_row getUserByEmail [VText e] w = (r0, w')"
  shows "w' = w" "r0 = Inl er \<Longrightarrow> \<forall>u\<in>set (w_users w). \<not> citext_eq (u_Email u) e"
  using assms by (auto simp: query_row_def first_row_def find_eq_None_iff split: option.splits)

lemma scan_user_columns: "scan_UserRow (user_columns u) = Inr (user_row u)"
  by (simp add: scan_UserRow_def user_columns_def user_row_def)

lemma query_user_login:
  assumes "query_row getUserByEmailForLogin [VText e] w = (r0, w')"
  shows "w' = w" "r0 = Inr cols \<Longrightarrow>
    \<exists>u\<in>set (w_users w). citext_eq (u_Email u) e \<and> scan_GetUserByEmailForLoginRow cols = Inr (login_row u)"
  using assms
  by (auto simp: query_row_def first_row_def scan_GetUserByEmailForLoginRow_def login_row_def
      split: option.splits dest!: find_SomeD)

lemma insert_user_cases:
  assumes "insert_user n e h p w = (r0, w')"
  shows "r0 = Inl er \<Longrightarrow> w_users w' = w_users w"
    "r0 = Inr cols \<Longrightarrow> \<exists>u. w_users w' = w_users w @ [u] \<and> u_Email u = e \<and> u_PasswordHash u = h
       \<and> scan_UserRow cols = Inr (user_row u) \<and> (\<forall>v\<in>set (w_users w). \<not> citext_eq (u_Email v) e)"
  using assms by (auto simp: insert_user_def Let_def scan_user_columns split: if_splits)

lemma users_by_id:
  assumes "runs_to (q_GetUserByID (New ref_DBTX) i) w r w'"
  shows "w_users w' = w_users w" "r = Inr row \<Longrightarrow> \<exists>u\<in>set (w_users w). u_ID u = i \<and> row = user_row u"
proof -
  from assms obtain r0 where call: "runs_to (pg_call (query_row getUserByID [VInt (sint i)])) w r0 w'"
    and r: "r = bindR r0 scan_UserRow"
    by (auto simp: queries_defs runs_to_bind)
  from call have "w_users w' = w_users w
     \<and> (\<forall>cols. r0 = Inr cols \<longrightarrow> (\<exists>u\<in>set (w_users w). u_ID u = i \<and> scan_UserRow cols = Inr (user_row u)))"
  proof (cases rule: pg_call_runs)
    case (answer w1)
    with query_user_id [OF answer(1)] show ?thesis by auto
  qed auto
  with r show "w_users w' = w_users w" "r = Inr row \<Longrightarrow> \<exists>u\<in>set (w_users w). u_ID u = i \<and> row = user_row u"
    by (cases r0; fastforce)+
qed

lemma users_by_email:
  assumes "runs_to (q_GetUserByEmail (New ref_DBTX) e) w r w'"
  shows "w_users w' = w_users w"
    "r = Inl er \<Longrightarrow> errors_Is er ErrNoRows \<Longrightarrow> \<forall>u\<in>set (w_users w). \<not> citext_eq (u_Email u) e"
proof -
  from assms obtain r0 where call: "runs_to (pg_call (query_row getUserByEmail [VText e])) w r0 w'"
    and r: "r = bindR r0 scan_UserRow"
    by (auto simp: queries_defs runs_to_bind)
  from call have "w_users w' = w_users w \<and> (\<forall>cols. r0 = Inr cols \<longrightarrow> (\<exists>u. scan_UserRow cols = Inr (user_row u)))
     \<and> (\<forall>er. r0 = Inl er \<longrightarrow> errors_Is er ErrNoRows \<longrightarrow> (\<forall>u\<in>set (w_users w). \<not> citext_eq (u_Email u) e))"
  proof (cases rule: pg_call_runs)
    case (answer w1)
    with query_user_email [OF answer(1)] show ?thesis
      by (auto simp: query_row_def first_row_def scan_user_columns split: option.splits)
  qed auto
  with r show "w_users w' = w_users w"
    "r = Inl er \<Longrightarrow> errors_Is er ErrNoRows \<Longrightarrow> \<forall>u\<in>set (w_users w). \<not> citext_eq (u_Email u) e"
    by (cases r0; fastforce)+
qed

lemma users_for_login:
  assumes "runs_to (q_GetUserByEmailForLogin (New ref_DBTX) e) w r w'"
  shows "w_users w' = w_users w"
    "r = Inr row \<Longrightarrow> \<exists>u\<in>set (w_users w). citext_eq (u_Email u) e \<and> row = login_row u"
proof -
  from assms obtain r0 where call: "runs_to (pg_call (query_row getUserByEmailForLogin [VText e])) w r0 w'"
    and r: "r = bindR r0 scan_GetUserByEmailForLoginRow"
    by (auto simp: queries_defs runs_to_bind)
  from call have "w_users w' = w_users w
     \<and> (\<forall>cols. r0 = Inr cols \<longrightarrow> (\<exists>u\<in>set (w_users w). citext_eq (u_Email u) e \<and> scan_GetUserByEmailForLoginRow cols = Inr (login_row u)))"
  proof (cases rule: pg_call_runs)
    case (answer w1)
    with query_user_login [OF answer(1)] show ?thesis by auto
  qed auto
  with r show "w_users w' = w_users w"
    "r = Inr row \<Longrightarrow> \<exists>u\<in>set (w_users w). citext_eq (u_Email u) e \<and> row = login_row u"
    by (cases r0; fastforce)+
qed

lemma query_create_user:
  "query_row createUser [VText n, VText e, VText h, VText p] = insert_user n e h p"
  by (simp add: query_row_def fun_eq_iff)

lemma users_insert:
  assumes "runs_to (q_CreateUser (New ref_DBTX) p) w r w'"
  shows "r = Inl er \<Longrightarrow> w_users w' = w_users w"
    "r = Inr row \<Longrightarrow> \<exists>u. w_users w' = w_users w @ [u] \<and> u_Email u = up_Email p \<and> u_PasswordHash u = up_PasswordHash p
       \<and> row = user_row u \<and> (\<forall>v\<in>set (w_users w). \<not> citext_eq (u_Email v) (up_Email p))"
proof -
  from assms obtain r0 where call: "runs_to (pg_call (insert_user (up_Name p) (up_Email p) (up_PasswordHash p) (up_Plan p))) w r0 w'"
    and r: "r = bindR r0 scan_UserRow"
    by (auto simp: queries_defs runs_to_bind query_create_user)
  from call have "(\<forall>er. r0 = Inl er \<longrightarrow> w_users w' = w_users w) \<and>
     (\<forall>cols. r0 = Inr cols \<longrightarrow> (\<exists>u. w_users w' = w_users w @ [u] \<and> u_Email u = up_Email p \<and> u_PasswordHash u = up_PasswordHash p
       \<and> scan_UserRow cols = Inr (user_row u) \<and> (\<forall>v\<in>set (w_users w). \<not> citext_eq (u_Email v) (up_Email p))))"
  proof (cases rule: pg_call_runs)
    case (answer w1)
    with insert_user_cases [OF answer(1)] show ?thesis by auto
  qed auto
  with r show "r = Inl er \<Longrightarrow> w_users w' = w_users w"
    "r = Inr row \<Longrightarrow> \<exists>u. w_users w' = w_users w @ [u] \<and> u_Email u = up_Email p \<and> u_PasswordHash u = up_PasswordHash p
       \<and> row = user_row u \<and> (\<forall>v\<in>set (w_users w). \<not> citext_eq (u_Email v) (up_Email p))"
    by (cases r0; fastforce)+
qed

lemma citext_refl: "citext_eq e e"
  by (simp add: citext_eq_def)

interpretation ref_users: user_queries "New ref_DBTX" w_users citext_eq
  by unfold_locales
    (blast intro: citext_refl refl dest: users_by_id(1) users_by_email(1) users_for_login(1)
       users_by_id(2) [OF _ refl] users_by_email(2) [OF _ refl] users_for_login(2) [OF _ refl]
       users_insert(1) [OF _ refl] users_insert(2) [OF _ refl])+

text \<open>A bcrypt whose hash is readable; like the real one it refuses more than 72 bytes.\<close>

definition ref_bcrypt :: "world bcrypt_lib" where
  "ref_bcrypt = \<lparr>
     GenerateFromPassword = (\<lambda>pw c. go_return
       (if 72 < length pw then Inl (ErrorString ''bcrypt: password length exceeds 72 bytes'') else Inr (''$2a$10$'' @ EncodeToString pw))),
     CompareHashAndPassword = (\<lambda>h pw. if h = ''$2a$10$'' @ EncodeToString pw then Inr ()
       else Inl (ErrorString ''crypto/bcrypt: hashedPassword is not the hash of the given password''))\<rparr>"

interpretation ref_accounts: accounts "New ref_DBTX" w_users citext_eq ref_jwt w_clock ref_env ref_bcrypt token_setup
proof (intro accounts.intro accounts_axioms.intro)
  show "user_queries (New ref_DBTX) w_users citext_eq" by (rule ref_users.user_queries_axioms)
  show "jwt_contract ref_jwt w_clock" by (rule ref_tokens.jwt_contract_axioms)
qed (auto simp: token_setup_def ref_bcrypt_def ref_env_def runs_to_def split: if_splits)

section \<open>Theorems\<close>

text \<open>
  C7. Signing up and signing in round-trips: after \<open>SignUp\<close> succeeded, \<open>SignIn\<close> with the same e-mail
  address and password succeeds for the same user, whenever the database answers its query and no user
  was added in between.
\<close>

theorem sign_up_then_sign_in:
  assumes "accounts q users same jwt clk env bc s"
    and "runs_to (SignUp env jwt bc s name email pw) w (Inr (user, tok)) w1"
    and "users w2 = users w1"
    and "runs_to (q_GetUserByEmailForLogin q email) w2 (Inr lrow) v"
    and "runs_to (SignIn env jwt bc s email pw) w2 res w3"
    and "\<bar>sint (ur_ID user)\<bar> \<le> 2 ^ 53" "0 \<le> clk v" "0 \<le> as_jwtTimeout s" "clk w3 + as_jwtTimeout s < 2 ^ 53 * second"
  shows "\<exists>tok'. res = Inr (lrow, tok') \<and> ul_ID lrow = ur_ID user"
  using accounts.SignIn_after_SignUp [OF assms] .

definition grace_up :: "(world, (CreateUserRow \<times> string) result) state" where
  "grace_up = SignUp ref_env ref_jwt ref_bcrypt token_setup ''Grace'' ''grace@example.com'' ''correct horse''"

definition grace_hash :: string where
  "grace_hash = ''$2a$10$'' @ EncodeToString ''correct horse''"

definition grace :: User where
  "grace = \<lparr>u_ID = 2, u_Email = ''grace@example.com'', u_PasswordHash = grace_hash,
     u_Plan = ''free'', u_CreatedAt = 0, u_UpdatedAt = 0, u_Name = ''Grace''\<rparr>"

definition world_grace :: world where
  "world_grace = world1\<lparr>w_users := [user1, grace], w_next_user := 3\<rparr>"

lemma citext_other: "\<not> citext_eq ''ada@example.com'' ''grace@example.com''"
  by code_simp

lemma email_lookup_free:
  "run_state (q_GetUserByEmail (New ref_DBTX) ''grace@example.com'') world1 = (Inl ErrNoRows, world1)"
  by (simp add: ref_eval citext_other)

lemma grace_insert:
  "run_state (q_CreateUser (New ref_DBTX) \<lparr>up_Name = ''Grace'', up_Email = ''grace@example.com'',
      up_PasswordHash = grace_hash, up_Plan = ''free''\<rparr>) world1 = (Inr (user_row grace), world_grace)"
  by (simp add: ref_eval insert_user_def scan_user_columns citext_other grace_def world_grace_def)

lemma user2_claim: "ParseFloat (FormatInt (2 :: int64)) = Some (f64_of_int 2)"
  using ParseFloat_fmt_int [of 2] by (simp add: FormatInt_def)

lemma grace_up_runs: "runs_to grace_up world1 (Inr (user_row grace, token_of 2)) world_grace"
proof -
  have h: "runs_to (GenerateFromPassword ref_bcrypt ''correct horse'' bcrypt_DefaultCost) world1 (Inr grace_hash) world1"
    by (simp add: ref_bcrypt_def grace_hash_def)
  have t: "runs_to (generateToken ref_env ref_jwt token_setup 2) world_grace (Inr (token_of 2)) world_grace"
    by (rule generate_at_0 [OF user2_claim]) (simp add: world_grace_def world1_def world0_def)
  have "runs_to (q_GetUserByEmail (New ref_DBTX) ''grace@example.com'') world1 (Inl ErrNoRows) world1"
    and "runs_to (q_CreateUser (New ref_DBTX) \<lparr>up_Name = ''Grace'', up_Email = ''grace@example.com'',
      up_PasswordHash = grace_hash, up_Plan = ''free''\<rparr>) world1 (Inr (user_row grace)) world_grace"
    using email_lookup_free grace_insert by (simp_all add: runs_to_def)
  note steps = this
  have id: "ur_ID (user_row grace) = 2" by (simp add: user_row_def grace_def)
  show ?thesis
    unfolding grace_up_def SignUp_def ref_accounts.repo_sel
    by (simp add: runs_to_bind_known [OF steps(1)] runs_to_bind_known [OF h] runs_to_bind_known [OF steps(2)]
        id runs_to_bind_known [OF t])
qed

lemma grace_login:
  "runs_to (q_GetUserByEmailForLogin (New ref_DBTX) ''grace@example.com'') world_grace (Inr (login_row grace)) world_grace"
  by (simp add: runs_to_def ref_eval world_grace_def citext_other grace_def login_row_def scan_GetUserByEmailForLoginRow_def
      citext_refl)

lemma grace_in_runs:
  "runs_to (SignIn ref_env ref_jwt ref_bcrypt token_setup ''grace@example.com'' ''correct horse'') world_grace
     (Inr (login_row grace, token_of 2)) world_grace"
proof -
  have t: "runs_to (generateToken ref_env ref_jwt token_setup 2) world_grace (Inr (token_of 2)) world_grace"
    by (rule generate_at_0 [OF user2_claim]) (simp add: world_grace_def world1_def world0_def)
  have sel: "ul_ID (login_row grace) = 2" "ul_PasswordHash (login_row grace) = grace_hash" by (simp_all add: login_row_def grace_def)
  have cmp: "CompareHashAndPassword ref_bcrypt grace_hash ''correct horse'' = Inr ()" by (simp add: ref_bcrypt_def grace_hash_def)
  show ?thesis
    unfolding SignIn_def ref_accounts.repo_sel
    by (simp add: runs_to_bind_known [OF grace_login] sel cmp runs_to_bind_known [OF t])
qed

theorem sign_up_then_sign_in_witness:
  "\<exists>tok'. val_of (SignIn ref_env ref_jwt ref_bcrypt token_setup ''grace@example.com'' ''correct horse'') world_grace
     = Inr (login_row grace, tok')"
proof -
  have v: "end_of (SignIn ref_env ref_jwt ref_bcrypt token_setup ''grace@example.com'' ''correct horse'') world_grace = world_grace"
    using grace_in_runs by (simp add: runs_to_iff)
  from sign_up_then_sign_in [OF ref_accounts.accounts_axioms grace_up_runs [unfolded grace_up_def] refl grace_login runs_to_val_of,
      unfolded v]
  show ?thesis by (simp add: user_row_def grace_def token_setup_def world_grace_def world1_def world0_def second_def)
qed

text \<open>
  C27. A taken e-mail address, in any spelling the column treats as equal, is refused: \<open>SignUp\<close> adds no
  user and reports \<open>ErrEmailExists\<close>, unless the lookup itself failed, whose error it then returns.
\<close>

theorem taken_email_refused:
  assumes "accounts q users same jwt clk env bc s"
    and "u \<in> set (users w)" "same (u_Email u) email"
    and "runs_to (SignUp env jwt bc s name email pw) w res w'"
  shows "users w' = users w \<and> (res = Inl ErrEmailExists \<or>
     (\<exists>e. res = Inl e \<and> \<not> errors_Is e ErrNoRows \<and> runs_to (q_GetUserByEmail q email) w (Inl e) w'))"
  using accounts.SignUp_taken [OF assms] .

theorem taken_email_refused_witness:
  "w_users (end_of (SignUp ref_env ref_jwt ref_bcrypt token_setup ''Eve'' ''ADA@example.com'' ''hunter2 hunter2'') world1) = [user1]"
proof -
  have "citext_eq ''ada@example.com'' ''ADA@example.com''" by code_simp
  from taken_email_refused [OF ref_accounts.accounts_axioms _ _ runs_to_val_of, of user1 world1] this
  show ?thesis by (simp add: world1_def world0_def user1_def)
qed

text \<open>
  C3. API-key authentication is sound: when the cache is coherent with the table, a request with an
  API key either reaches the handler with the identity of the active row the table holds for the hash
  of that key, under the plan of a user with the owner's id, or is answered with 401 or 500 and the
  handler does not run (the outcome is the same for every handler).
\<close>

theorem api_key_auth_sound:
  assumes "key_cache rc q tbl live clk \<lparr>par_q = q, par_redisClient = Some rc, par_ttl = ttl\<rparr>"
    and "user_queries q users same" "coherent (tbl w) (live w)"
    and "Header_Get (rq_header rq) ''X-API-Key'' = apiKey" "apiKey \<noteq> []"
    and "runs_to (APIKeyAuth env (NewAPIKeyRepository q (Some rc) ttl) (NewUserRepository q) nxt wr rq) w a w'"
  shows "(\<exists>k\<in>set (tbl w). \<exists>plan w1. k_KeyHash k = HashAPIKey apiKey \<and> k_Active k
      \<and> runs_to (nxt wr (with_identity rq \<lparr>id_UserID = k_UserID k, id_Plan = plan, id_APIKeyID = Some (k_ID k),
          id_RateRPM = Some (scast (k_RateRpm k))\<rparr>)) w1 a w')
    \<or> a \<in> {RespondWithError wr 401 ''invalid API key'', RespondWithError wr 401 ''API key is not active'',
           RespondWithError wr 500 ''could not retrieve API key'', RespondWithError wr 500 ''could not retrieve user''}
      \<and> (\<forall>nxt'. runs_to (APIKeyAuth env (NewAPIKeyRepository q (Some rc) ttl) (NewUserRepository q) nxt' wr rq) w a w')"
  using assms(6) assms(5) [folded assms(4)]
proof (cases rule: APIKeyAuth_runs)
  case (passed row user w1 w2 w3)
  have "runs_to (GetAPIKeyByHash \<lparr>par_q = q, par_redisClient = Some rc, par_ttl = ttl\<rparr> (HashAPIKey apiKey)) w (Inr row) w1"
    using passed(1) assms(4) by (simp add: NewAPIKeyRepository_def Let_def)
  from key_cache.GetAPIKeyByHash_spec [OF assms(1) this assms(3)]
  have "lookup_hash (tbl w) (HashAPIKey apiKey) = Some row" by blast
  then obtain k where k: "k \<in> set (tbl w)" "k_KeyHash k = HashAPIKey apiKey" "row = hash_row k"
    by (auto simp: lookup_hash_def dest: find_SomeD)
  from passed(3) have "runs_to (q_GetUserByID q (k_UserID k)) w1 (Inr user) w2"
    by (simp add: NewUserRepository_def k(3) hash_row_def)
  from user_queries.id_row [OF assms(2) this] have "ur_ID user = k_UserID k" by (auto simp: user_row_def)
  with passed(2,4) k show ?thesis by (auto simp: hash_row_def intro!: disjI1 bexI [of _ k])
qed auto

definition live_key :: ApiKey where
  "live_key = \<lparr>k_ID = 1, k_UserID = 1, k_KeyHash = HashAPIKey ''secret'', k_Label = Some ''ci'', k_Active = True,
     k_RateRpm = 60, k_LastUsedAt = None, k_CreatedAt = 0\<rparr>"

definition world_key :: world where
  "world_key = world1\<lparr>w_keys := [live_key], w_next_key := 2\<rparr>"

lemma coherent_world_key: "coherent (w_keys world_key) (w_live world_key)"
  by (simp add: world_key_def world1_def world0_def w_live_def advance_def coherent_def entry_ok_def keys_wf_def)

lemma ref_cache_hour:
  "key_cache (ref_redis False) (New ref_DBTX) w_keys w_live w_clock
     \<lparr>par_q = New ref_DBTX, par_redisClient = Some (ref_redis False), par_ttl = 3600 * second\<rparr>"
  using ref_cache.key_cache_axioms by (simp add: ref_repo_def)

abbreviation ref_key_auth :: "world http_middleware" where
  "ref_key_auth \<equiv> APIKeyAuth ref_env (NewAPIKeyRepository (New ref_DBTX) (Some (ref_redis False)) (3600 * second))
     (NewUserRepository (New ref_DBTX))"

theorem api_key_auth_sound_witness:
  "rw_status (val_of (ref_key_auth (\<lambda>w r. go_return (WriteHeader 200 w)) new_writer (request_with ''X-API-Key'' ''guess'')) world1)
     \<in> {401, 500}"
proof -
  let ?m = "ref_key_auth (\<lambda>w r. go_return (WriteHeader 200 w)) new_writer (request_with ''X-API-Key'' ''guess'')"
  have h: "Header_Get (rq_header (request_with ''X-API-Key'' ''guess'')) ''X-API-Key'' = ''guess''"
    by (simp add: request_with_def Header_Get_Set)
  have "w_keys world1 = []" by (simp add: world1_def world0_def)
  with api_key_auth_sound [OF ref_cache_hour ref_users.user_queries_axioms coherent_world1 h _ runs_to_val_of,
      where env = ref_env and nxt = "\<lambda>w r. go_return (WriteHeader 200 w)" and wr = new_writer]
  show ?thesis by auto
qed

text \<open>
  C12. Revocation reaches the door: once its owner deleted a key (in a run that starts with a coherent
  cache, with a Redis that does not fail, and after any further repository calls that do not create a
  key with the same hash), a request with that key is refused with 401 as an invalid API key. The only
  other answer is 500, and only when the query for the key, made after a cache miss, failed with an error
  other than \<open>ErrNoRows\<close>. In both cases the handler behind \<open>APIKeyAuth\<close> does not run.
\<close>

theorem deleted_key_cannot_authenticate:
  assumes "key_cache rc q tbl live clk \<lparr>par_q = q, par_redisClient = Some rc, par_ttl = ttl\<rparr>"
    and "coherent (tbl w0) (live w0)" "k \<in> set (tbl w0)" "k_KeyHash k = HashAPIKey apiKey" "HashAPIKey apiKey \<notin> H"
    and "runs_to (akr_DeleteAPIKey (NewAPIKeyRepository q (Some rc) ttl) (k_UserID k) (k_ID k)) w0 (Inr ()) w1"
    and "(repo_step \<lparr>par_q = q, par_redisClient = Some rc, par_ttl = ttl\<rparr> tbl H)\<^sup>*\<^sup>* w1 w2"
    and "Header_Get (rq_header rq) ''X-API-Key'' = apiKey" "apiKey \<noteq> []"
    and "runs_to (APIKeyAuth env (NewAPIKeyRepository q (Some rc) ttl) ur nxt wr rq) w2 a w3"
  shows "(a = RespondWithError wr 401 ''invalid API key''
      \<or> a = RespondWithError wr 500 ''could not retrieve API key''
        \<and> (\<exists>e v v'. runs_to (cache_lookup \<lparr>par_q = q, par_redisClient = Some rc, par_ttl = ttl\<rparr> (HashAPIKey apiKey)) w2 None v
            \<and> runs_to (q_GetAPIKeyByHash q (HashAPIKey apiKey)) v (Inl e) v' \<and> \<not> errors_Is e ErrNoRows))
    \<and> (\<forall>nxt'. runs_to (APIKeyAuth env (NewAPIKeyRepository q (Some rc) ttl) ur nxt' wr rq) w2 a w3)"
proof -
  let ?r = "\<lparr>par_q = q, par_redisClient = Some rc, par_ttl = ttl\<rparr>"
  have ar: "akr_GetAPIKeyByHash (NewAPIKeyRepository q (Some rc) ttl) = GetAPIKeyByHash ?r"
    "akr_DeleteAPIKey (NewAPIKeyRepository q (Some rc) ttl) = DeleteAPIKey ?r"
    by (simp_all add: NewAPIKeyRepository_def Let_def)
  have gone: "\<exists>e. res = Inl e" if "runs_to (GetAPIKeyByHash ?r (HashAPIKey apiKey)) w2 res w'" for res w'
    using key_cache.revoked_in_run [OF assms(1,2,3) _ assms(6) [unfolded ar] assms(7), of res w'] that assms(4,5) by simp
  from assms(10) assms(9) [folded assms(8)] show ?thesis
  proof (cases rule: APIKeyAuth_runs)
    case (failed e v')
    from failed(1) have "runs_to (GetAPIKeyByHash ?r (HashAPIKey apiKey)) w2 (Inl e) v'" by (simp only: ar assms(8))
    then have "\<exists>v v'. runs_to (cache_lookup ?r (HashAPIKey apiKey)) w2 None v \<and> runs_to (q_GetAPIKeyByHash q (HashAPIKey apiKey)) v (Inl e) v'"
      by (cases rule: GetAPIKeyByHash_runs) auto
    with failed(2-4) show ?thesis by blast
  next
    case (inactive row)
    with gone [of "Inr row" w3] show ?thesis by (simp add: ar assms(8))
  next
    case (passed row user v1 v2 v3)
    with gone [of "Inr row" v1] show ?thesis by (simp add: ar assms(8))
  next
    case (no_user row v1)
    with gone [of "Inr row" v1] show ?thesis by (simp add: ar assms(8))
  qed auto
qed

theorem deleted_key_cannot_authenticate_witness:
  "rw_status (val_of (ref_key_auth (\<lambda>w r. go_return (WriteHeader 200 w)) new_writer (request_with ''X-API-Key'' ''secret''))
     (end_of (DeleteAPIKey ref_repo 1 1) world_key)) \<in> {401, 500}"
proof -
  have h: "Header_Get (rq_header (request_with ''X-API-Key'' ''secret'')) ''X-API-Key'' = ''secret''"
    by (simp add: request_with_def Header_Get_Set)
  have "val_of (DeleteAPIKey ref_repo 1 1) world_key = Inr ()"
    by (simp add: ref_eval repo_eval ref_repo_def world_key_def live_key_def)
  then have del: "runs_to (akr_DeleteAPIKey (NewAPIKeyRepository (New ref_DBTX) (Some (ref_redis False)) (3600 * second))
      (k_UserID live_key) (k_ID live_key)) world_key (Inr ()) (end_of (DeleteAPIKey ref_repo 1 1) world_key)"
    by (simp add: runs_to_iff live_key_def NewAPIKeyRepository_def Let_def ref_repo_def)
  from deleted_key_cannot_authenticate [OF ref_cache_hour coherent_world_key _ _ _ del rtranclp.rtrancl_refl h _ runs_to_val_of,
      of "{}" ref_env "NewUserRepository (New ref_DBTX)" "\<lambda>w r. go_return (WriteHeader 200 w)" new_writer]
  show ?thesis by (auto simp: world_key_def live_key_def)
qed

end
