(* ===== verification/Predict_Log.thy ===== *)
theory Predict_Log
  imports Handlers Accounts
begin

text \<open>
  The prediction endpoint and its audit log. \<open>inference_logs\<close> states what the log repository promises
  of the \<open>inference_logs\<close> table (one row per successful insert, a NOT NULL JSONB request payload) and
  that clock, logger and vendor leave the table alone. \<open>PredictHandler_runs\<close> splits a request into
  its six outcomes; the theorems read off status, log row and vendor traffic for each.
\<close>

section \<open>Definitions\<close>

definition logged :: "CreateInferenceLogParams \<Rightarrow> InferenceLog \<Rightarrow> bool" where
  "logged p l \<longleftrightarrow> l_UserID l = lp_UserID p \<and> l_ApiKeyID l = lp_ApiKeyID p \<and> l_RequestPayload l = lp_RequestPayload p
     \<and> l_ResponsePayload l = lp_ResponsePayload p \<and> l_Error l = lp_Error p
     \<and> l_RequestTime l = lp_RequestTime p \<and> l_ResponseTime l = lp_ResponseTime p"

locale inference_logs =
  fixes env :: "'w env" and lr :: "'w InferenceLogRepository" and vs :: "'w VendorService"
    and logs :: "'w \<Rightarrow> InferenceLog list"
  assumes create: "runs_to (ilr_CreateInferenceLog lr p) w r w' \<Longrightarrow>
        (r = Inr () \<and> (\<exists>l. logs w' = logs w @ [l] \<and> logged p l)) \<or> ((\<exists>e. r = Inl e) \<and> logs w' = logs w)"
    and not_null: "lp_RequestPayload p = None \<Longrightarrow> \<not> runs_to (ilr_CreateInferenceLog lr p) w (Inr ()) w'"
    and jsonb: "lp_RequestPayload p = Some bs \<Longrightarrow> json_parse bs = None \<Longrightarrow>
        \<not> runs_to (ilr_CreateInferenceLog lr p) w (Inr ()) w'"
    and now_logs: "runs_to (time_Now env) w t w' \<Longrightarrow> logs w' = logs w"
    and zerolog_logs: "runs_to (zerolog env lv fs msg) w u w' \<Longrightarrow> logs w' = logs w"
    and predict_logs: "runs_to (vns_Predict vs req) w rp w' \<Longrightarrow> logs w' = logs w"

section \<open>Outcomes of a request\<close>

lemma PredictHandler_runs:
  assumes run: "runs_to (PredictHandler env validate vs lr w rq) s a s'"
    and identity: "IdentityFrom (rq_ctx rq) = Some i" and body: "rq_body rq = Body bs be"
  obtains (too_large) t t' s1 s2 where "maxBodyBytes < length bs" "runs_to (time_Now env) s t s1" "runs_to (time_Now env) s1 t' s2"
      "runs_to (saveInferenceLog env lr i None None ''payload too large'' t t') s2 () s'"
      "a = RespondWithError w 413 ''payload too large''"
  | (unreadable) t t' s1 s2 e p where "length bs \<le> maxBodyBytes" "be = Some e" "runs_to (time_Now env) s t s1"
      "runs_to (time_Now env) s1 t' s2" "a \<in> {RespondWithError w 413 ''payload too large'', RespondWithError w 400 ''invalid request body''}"
      "errors_As_MaxBytes e \<or> a = RespondWithError w 400 ''invalid request body''"
      "runs_to (saveInferenceLog env lr i p None (if errors_As_MaxBytes e then ''payload too large'' else ''invalid request body'') t t') s2 () s'"
      "p = (if errors_As_MaxBytes e then None else Some bs)"
  | (malformed) t t' s1 s2 e where "length bs \<le> maxBodyBytes" "be = None" "bindR (Unmarshal bs) dec_predictRequest = Inl e"
      "runs_to (time_Now env) s t s1" "runs_to (time_Now env) s1 t' s2"
      "runs_to (saveInferenceLog env lr i (Some bs) None ''invalid request body'' t t') s2 () s'"
      "a = RespondWithError w 400 ''invalid request body''"
  | (panicked) t t' s1 req e where "length bs \<le> maxBodyBytes" "be = None" "bindR (Unmarshal bs) dec_predictRequest = Inr req"
      "validate (reflect_predictRequest req) = Some e" "validationErrorMessage e = None"
      "runs_to (time_Now env) s t s1" "runs_to (time_Now env) s1 t' s'" "a = recovered_panic w"
  | (invalid) t t' s1 s2 req e msg where "length bs \<le> maxBodyBytes" "be = None" "bindR (Unmarshal bs) dec_predictRequest = Inr req"
      "validate (reflect_predictRequest req) = Some e" "validationErrorMessage e = Some msg"
      "runs_to (time_Now env) s t s1" "runs_to (time_Now env) s1 t' s2"
      "runs_to (saveInferenceLog env lr i (sanitized_request (pr_Model req) (features_map (pr_Features req))) None
         (''validation failed: '' @ msg) t t') s2 () s'"
      "a = RespondWithError w 400 (''validation failed: '' @ msg)"
  | (served) t t' s1 s2 s3 req res fs where "length bs \<le> maxBodyBytes" "be = None" "bindR (Unmarshal bs) dec_predictRequest = Inr req"
      "validate (reflect_predictRequest req) = None" "runs_to (time_Now env) s t s1"
      "runs_to (vns_Predict vs \<lparr>pq_Model = pr_Model req, pq_Features = features_map (pr_Features req)\<rparr>) s1 (res, fs) s2"
      "runs_to (time_Now env) s2 t' s3"
      "runs_to (saveInferenceLog env lr i (sanitized_request (pr_Model req) fs)
         (case res of Inl _ \<Rightarrow> None | Inr resp \<Rightarrow> map_option json_print (json_PredictResponse resp))
         (case res of Inl err \<Rightarrow> Error err | Inr _ \<Rightarrow> []) t t') s3 () s'"
      "a = (case res of Inl err \<Rightarrow> RespondWithError w 502 (Error err) | Inr resp \<Rightarrow> RespondWithJSON w 200 (json_PredictResponse resp))"
proof -
  show thesis
  proof (cases "maxBodyBytes < length bs")
    case True
    with run identity body show thesis
      by (auto simp: PredictHandler_def MaxBytesReader_too_long go_run intro: too_large)
  next
    case small: False
    show thesis
    proof (cases be)
      case (Some e)
      with run identity body small show thesis
        by (auto simp: PredictHandler_def MaxBytesReader_too_long go_run intro: unreadable)
    next
      case None
      show thesis
      proof (cases "bindR (Unmarshal bs) dec_predictRequest")
        case (Inl e)
        with run identity body small None show thesis
          by (auto simp: PredictHandler_def MaxBytesReader_too_long go_run
              intro: malformed)
      next
        case (Inr req)
        show thesis
        proof (cases "validate (reflect_predictRequest req)")
          case v: None
          with run identity body small None Inr show thesis
            by (auto simp: PredictHandler_def MaxBytesReader_too_long go_run Let_def
                intro: served)
        next
          case (Some e)
          with run identity body small None Inr show thesis
            by (auto simp: PredictHandler_def MaxBytesReader_too_long go_run Let_def
                intro: panicked invalid)
        qed
      qed
    qed
  qed
qed

lemma status_RespondWithJSON_None: "rw_sent w = None \<Longrightarrow> rw_status (RespondWithJSON w c None) = 500"
  by (simp add: RespondWithJSON_def http_Error_def rw_status_def rw_sent_Write rw_sent_WriteHeader)

context inference_logs
begin

lemma save_spec:
  assumes "runs_to (saveInferenceLog env lr i reqp respp err t t') w u w'"
  shows "logs w' = logs w \<or> (\<exists>l. logs w' = logs w @ [l] \<and>
    logged \<lparr>lp_UserID = id_UserID i, lp_ApiKeyID = id_APIKeyID i, lp_RequestPayload = reqp, lp_ResponsePayload = respp,
      lp_Error = (if err \<noteq> [] then Some err else None), lp_RequestTime = t, lp_ResponseTime = t'\<rparr> l)"
  using assms by (auto simp: saveInferenceLog_def go_run dest!: create dest: zerolog_logs)

lemma save_rejected:
  assumes "runs_to (saveInferenceLog env lr i reqp respp err t t') w u w'"
    and "reqp = None \<or> (\<exists>bs. reqp = Some bs \<and> json_parse bs = None)"
  shows "logs w' = logs w"
proof -
  let ?p = "\<lparr>lp_UserID = id_UserID i, lp_ApiKeyID = id_APIKeyID i, lp_RequestPayload = reqp, lp_ResponsePayload = respp,
      lp_Error = (if err \<noteq> [] then Some err else None), lp_RequestTime = t, lp_ResponseTime = t'\<rparr>"
  from assms(1) obtain r w1 where c: "runs_to (ilr_CreateInferenceLog lr ?p) w r w1"
    and rest: "runs_to (case r of Inl err \<Rightarrow> zerolog env ''error'' [(''error'', Error err)] ''failed to log inference''
       | Inr _ \<Rightarrow> go_return ()) w1 u w'"
    by (auto simp: saveInferenceLog_def runs_to_bind)
  have "r \<noteq> Inr ()" using c assms(2) not_null [of ?p] jsonb [of ?p] by fastforce
  with create [OF c] rest show ?thesis by (auto simp: go_run dest: zerolog_logs)
qed

lemma body_not_logged:
  assumes run: "runs_to (PredictHandler env validate vs lr w rq) s a s'"
    and rq: "IdentityFrom (rq_ctx rq) = Some i" "rq_body rq = Body bs None"
    and bad: "maxBodyBytes < length bs \<or> json_parse bs = None" and w: "rw_sent w = None"
  shows "logs s' = logs s \<and> rw_status a = (if maxBodyBytes < length bs then 413 else 400)"
  using run rq
proof (cases rule: PredictHandler_runs)
  case (too_large t t' s1 s2)
  with w now_logs [OF too_large(2)] now_logs [OF too_large(3)] save_rejected [OF too_large(4)] show ?thesis by simp
next
  case (malformed t t' s1 s2 e)
  with w bad now_logs [OF malformed(4)] now_logs [OF malformed(5)] save_rejected [OF malformed(6)] show ?thesis by simp
next
  case (panicked t t' s1 req e)
  with bad show ?thesis by (simp add: Unmarshal_def)
next
  case (invalid t t' s1 s2 req e msg)
  with bad show ?thesis by (simp add: Unmarshal_def)
next
  case (served t t' s1 s2 s3 req res fs)
  with bad show ?thesis by (simp add: Unmarshal_def)
qed simp

text \<open>One row at most, with the caller's identity, and a response exactly when the request succeeded.\<close>

lemma at_most_one_row:
  assumes run: "runs_to (PredictHandler env validate vs lr w rq) s a s'"
    and rq: "IdentityFrom (rq_ctx rq) = Some i" and w: "rw_sent w = None"
  shows "logs s' = logs s \<or> (\<exists>l. logs s' = logs s @ [l] \<and> l_UserID l = id_UserID i \<and> l_ApiKeyID l = id_APIKeyID i
     \<and> (l_ResponsePayload l = None \<longleftrightarrow> rw_status a \<noteq> 200) \<and> (l_Error l \<noteq> None \<longrightarrow> rw_status a \<noteq> 200))"
proof -
  obtain bs be where body: "rq_body rq = Body bs be" by (cases "rq_body rq")
  from run rq body show ?thesis
  proof (cases rule: PredictHandler_runs)
    case (too_large t t' s1 s2)
    with w now_logs [OF too_large(2)] now_logs [OF too_large(3)] save_rejected [OF too_large(4)] show ?thesis by simp
  next
    case (unreadable t t' s1 s2 e p)
    with w now_logs [OF unreadable(3)] now_logs [OF unreadable(4)] save_spec [OF unreadable(7)] show ?thesis
      by (auto simp: logged_def split: if_splits)
  next
    case (malformed t t' s1 s2 e)
    with w now_logs [OF malformed(4)] now_logs [OF malformed(5)] save_spec [OF malformed(6)] show ?thesis
      by (auto simp: logged_def)
  next
    case (panicked t t' s1 req e)
    with now_logs [OF panicked(6)] now_logs [OF panicked(7)] show ?thesis by simp
  next
    case (invalid t t' s1 s2 req e msg)
    with w now_logs [OF invalid(6)] now_logs [OF invalid(7)] save_spec [OF invalid(8)] show ?thesis
      by (auto simp: logged_def)
  next
    case (served t t' s1 s2 s3 req res fs)
    have frame: "logs s3 = logs s"
      using now_logs [OF served(5)] predict_logs [OF served(6)] now_logs [OF served(7)] by simp
    show ?thesis
    proof (cases res)
      case (Inl e)
      with w frame save_spec [OF served(8)] served(9) show ?thesis by (auto simp: logged_def)
    next
      case (Inr resp)
      with w frame save_spec [OF served(8)] served(9) show ?thesis
        by (cases "json_PredictResponse resp") (auto simp: logged_def status_RespondWithJSON status_RespondWithJSON_None)
    qed
  qed
qed

end

section \<open>The reference table\<close>

abbreviation ref_logs :: "world InferenceLogRepository" where
  "ref_logs \<equiv> NewInferenceLogRepository (New ref_DBTX)"

abbreviation ref_vendor :: "world VendorService" where
  "ref_vendor \<equiv> NewVendorService (\<lambda>_. 0) ref_env ref_telemetry ref_client"

lemma create_log_runs:
  assumes "runs_to (ilr_CreateInferenceLog ref_logs p) w r w'"
  shows "runs_to (pg_call (insert_log (sint (lp_UserID p)) (lp_ApiKeyID p) (lp_RequestPayload p) (lp_ResponsePayload p)
     (lp_Error p) (lp_RequestTime p) (lp_ResponseTime p))) w r w'"
proof -
  have scans: "scan_NullInt64 (nullable (\<lambda>i. VInt (sint i)) k) = Inr k" "scan_NullJson (nullable VJson b) = Inr b"
    for k :: "int64 option" and b
    by (cases k; simp add: scan_NullInt64_def nullable_def) (cases b; simp add: scan_NullJson_def nullable_def)
  have "exec createInferenceLog [VInt (sint (lp_UserID p)), nullable (\<lambda>i. VInt (sint i)) (lp_ApiKeyID p),
      nullable VJson (lp_RequestPayload p), nullable VJson (lp_ResponsePayload p), nullable VText (lp_Error p),
      VTime (lp_RequestTime p), VTime (lp_ResponseTime p)] =
    insert_log (sint (lp_UserID p)) (lp_ApiKeyID p) (lp_RequestPayload p) (lp_ResponsePayload p) (lp_Error p)
      (lp_RequestTime p) (lp_ResponseTime p)"
    by (intro ext) (simp add: exec_def scans)
  with assms show ?thesis by (simp add: NewInferenceLogRepository_def queries_defs)
qed

lemma insert_log_cases:
  assumes "insert_log u k rq rp e t t' w = (r, w')"
  shows "(r = Inr () \<and> rq \<noteq> None \<and> json_parse (the rq) \<noteq> None
      \<and> (\<exists>l. w_logs w' = w_logs w @ [l] \<and> l_UserID l = word_of_int u \<and> l_ApiKeyID l = k \<and> l_RequestPayload l = rq
        \<and> l_ResponsePayload l = rp \<and> l_Error l = e \<and> l_RequestTime l = t \<and> l_ResponseTime l = t'))
    \<or> ((\<exists>er. r = Inl er) \<and> w_logs w' = w_logs w)"
  using assms by (auto simp: insert_log_def Let_def invalid_json_def split: if_splits option.splits)

lemma create_log_spec:
  assumes "runs_to (ilr_CreateInferenceLog ref_logs p) w r w'"
  shows "(r = Inr () \<and> lp_RequestPayload p \<noteq> None \<and> json_parse (the (lp_RequestPayload p)) \<noteq> None
      \<and> (\<exists>l. w_logs w' = w_logs w @ [l] \<and> logged p l)) \<or> ((\<exists>e. r = Inl e) \<and> w_logs w' = w_logs w)"
  using create_log_runs [OF assms]
proof (cases rule: pg_call_runs)
  case (answer w1)
  from insert_log_cases [OF answer(1)] answer(4) show ?thesis by (auto simp: logged_def)
qed auto

lemma ref_execute_runs:
  assumes "runs_to (cb_Execute (tp_cb ref_client) b) w r w'"
  shows "w' = w \<or> (\<exists>w2. runs_to b w r w2 \<and> w_logs w' = w_logs w2)"
  using assms
  by (cases "run_state b w") (auto simp: ref_client_def NewThirdPartyClient_def ref_breaker_def runs_to_def split: if_splits)

lemma ref_vendor_frame:
  "runs_to (vendorRequestsTotal_Inc ref_telemetry) w u w' \<Longrightarrow> w_logs w' = w_logs w"
  "runs_to (vendor_error ref_telemetry e) w res w' \<Longrightarrow> w_logs w' = w_logs w"
  "runs_to (resty_Post (tp_client ref_client) p bs) w rr w' \<Longrightarrow> w_logs w' = w_logs w"
  "runs_to (zerolog ref_env lv fs msg) w u w' \<Longrightarrow> w_logs w' = w_logs w"
  "runs_to (span_SetAttributes ref_telemetry k v) w u w' \<Longrightarrow> w_logs w' = w_logs w"
  "runs_to (span_Start ref_telemetry n) w u w' \<Longrightarrow> w_logs w' = w_logs w"
  "runs_to (span_End ref_telemetry) w u w' \<Longrightarrow> w_logs w' = w_logs w"
  by (auto simp: ref_telemetry_def vendor_error_def ref_client_def NewThirdPartyClient_def ref_resty_def vendor_answer_def
      ref_env_def runs_to_def State_Monad.bind_def State_Monad.return_def Let_def split: list.splits)

lemma Client_Predict_logs:
  assumes "runs_to (Client_Predict ref_telemetry ref_client q) w r w'"
  shows "w_logs w' = w_logs w"
  using assms unfolding Client_Predict_def
  by (auto simp: go_run dest!: ref_execute_runs ref_vendor_frame)

interpretation ref_audit: inference_logs ref_env ref_logs ref_vendor w_logs
proof
  fix p w r w' bs t req lv fs msg u rp
  show "(r = Inr () \<and> (\<exists>l. w_logs w' = w_logs w @ [l] \<and> logged p l)) \<or> ((\<exists>e. r = Inl e) \<and> w_logs w' = w_logs w)"
    if "runs_to (ilr_CreateInferenceLog ref_logs p) w r w'"
    using create_log_spec [OF that] by blast
  show "\<not> runs_to (ilr_CreateInferenceLog ref_logs p) w (Inr ()) w'" if "lp_RequestPayload p = None"
    using create_log_spec [of p w "Inr ()" w'] that by auto
  show "\<not> runs_to (ilr_CreateInferenceLog ref_logs p) w (Inr ()) w'" if "lp_RequestPayload p = Some bs" "json_parse bs = None"
    using create_log_spec [of p w "Inr ()" w'] that by auto
  show "w_logs w' = w_logs w" if "runs_to (time_Now ref_env) w t w'"
    using that by (simp add: ref_env_def runs_to_def)
  show "w_logs w' = w_logs w" if "runs_to (zerolog ref_env lv fs msg) w u w'"
    using that by (rule ref_vendor_frame)
  show "w_logs w' = w_logs w" if "runs_to (vns_Predict ref_vendor req) w rp w'"
    using that by (auto simp: NewVendorService_def Predict_def Let_def go_run dest!: Client_Predict_logs ref_vendor_frame)
qed

section \<open>Theorems\<close>

text \<open>
  C8. Audit: an authenticated prediction request adds at most one row to \<open>inference_logs\<close>. The row carries
  the caller's user and API-key ids; it has a response payload exactly when the request was answered
  with 200, and an error text only when it was not.
\<close>

theorem prediction_audit:
  assumes "inference_logs env lr vs logs"
    and "runs_to (PredictHandler env validate vs lr w rq) s a s'"
    and "IdentityFrom (rq_ctx rq) = Some i" "rw_sent w = None"
  shows "logs s' = logs s \<or> (\<exists>l. logs s' = logs s @ [l] \<and> l_UserID l = id_UserID i \<and> l_ApiKeyID l = id_APIKeyID i
     \<and> (l_ResponsePayload l = None \<longleftrightarrow> rw_status a \<noteq> 200) \<and> (l_Error l \<noteq> None \<longrightarrow> rw_status a \<noteq> 200))"
  using inference_logs.at_most_one_row [OF assms] .

definition alice :: Identity where
  "alice = \<lparr>id_UserID = 1, id_Plan = ''free'', id_APIKeyID = None, id_RateRPM = None\<rparr>"

definition predict_with :: "bytes \<Rightarrow> request" where
  "predict_with bs = with_identity ((request_with ''Content-Type'' ''application/json'')\<lparr>rq_body := Body bs None\<rparr>) alice"

lemma predict_with_sel [simp]:
  "IdentityFrom (rq_ctx (predict_with bs)) = Some alice" "rq_body (predict_with bs) = Body bs None"
  by (simp_all add: predict_with_def with_identity_def IdentityFrom_def)

theorem prediction_audit_witness:
  "length (w_logs (end_of (PredictHandler ref_env ref_validate ref_vendor ref_logs new_writer (predict_with ''{}'')) world1)) \<le> 1"
proof -
  have "w_logs world1 = []" by (simp add: world1_def world0_def)
  with prediction_audit [OF ref_audit.inference_logs_axioms runs_to_val_of predict_with_sel(1) rw_sent_new_writer,
      of ref_validate "''{}''" world1]
  show ?thesis by auto
qed

text \<open>
  C36. Bodies that are too large or not JSON leave no trace: the handler calls \<open>saveInferenceLog\<close> for
  them, but the request payload it passes is nil or not JSON, which the NOT NULL JSONB column rejects,
  so the table does not change. The caller gets 413 or 400.
\<close>

theorem rejected_bodies_leave_no_log:
  assumes "inference_logs env lr vs logs"
    and "runs_to (PredictHandler env validate vs lr w rq) s a s'"
    and "IdentityFrom (rq_ctx rq) = Some i" "rq_body rq = Body bs None"
    and "maxBodyBytes < length bs \<or> json_parse bs = None" "rw_sent w = None"
  shows "logs s' = logs s \<and> rw_status a = (if maxBodyBytes < length bs then 413 else 400)"
  using inference_logs.body_not_logged [OF assms] .

theorem rejected_bodies_leave_no_log_witness:
  "w_logs (end_of (PredictHandler ref_env ref_validate ref_vendor ref_logs new_writer (predict_with ''not json'')) world1) = []
   \<and> rw_status (val_of (PredictHandler ref_env ref_validate ref_vendor ref_logs new_writer (predict_with ''not json'')) world1) = 400"
proof -
  have "json_parse ''not json'' = None" by code_simp
  with rejected_bodies_leave_no_log [OF ref_audit.inference_logs_axioms runs_to_val_of predict_with_sel(1) predict_with_sel(2) _
      rw_sent_new_writer, of "''not json''" ref_validate world1]
  show ?thesis by (simp add: maxBodyBytes_def world1_def world0_def)
qed

lemma PredictHandler_no_vendor:
  assumes "IdentityFrom (rq_ctx rq) = Some i" "rq_body rq = Body bs None" "length bs \<le> maxBodyBytes"
    and "bindR (Unmarshal bs) dec_predictRequest = Inr req" "validate (reflect_predictRequest req) = Some e"
  shows "PredictHandler env validate vs lr w rq = PredictHandler env validate vs' lr w rq"
  using assms by (simp add: PredictHandler_def MaxBytesReader_too_long)

text \<open>
  C13. Only valid requests reach the vendor. A request that decodes but has a wrong model, a zero or
  missing transaction id or amount, or an empty merchant or device type is answered with 400 and the
  message for the first such field, and its processing does not depend on the vendor service at all.
\<close>

theorem invalid_predictions_never_reach_vendor:
  assumes "validator validate is_email"
    and "IdentityFrom (rq_ctx rq) = Some i" "rq_body rq = Body bs None" "length bs \<le> maxBodyBytes"
    and "bindR (Unmarshal bs) dec_predictRequest = Inr req" "predict_violation req = Some msg"
    and "runs_to (PredictHandler env validate vs lr w rq) s a s'"
  shows "a = RespondWithError w 400 (''validation failed: '' @ msg)
    \<and> (\<forall>vs'. runs_to (PredictHandler env validate vs' lr w rq) s a s')"
proof -
  from validator.predictRequest_message [OF assms(1), of req] assms(6) obtain e where
    e: "validate (reflect_predictRequest req) = Some e" "validationErrorMessage e = Some msg"
    by (cases "validate (reflect_predictRequest req)") auto
  have "a = RespondWithError w 400 (''validation failed: '' @ msg)"
    using assms(7,2,3) by (cases rule: PredictHandler_runs) (use e assms(4,5) in auto)
  moreover have "runs_to (PredictHandler env validate vs' lr w rq) s a s'" for vs'
    using assms(7) PredictHandler_no_vendor [where validate = validate, OF assms(2-5) e(1)] by metis
  ultimately show ?thesis by blast
qed

lemma json_parse_empty_object: "json_parse ''{}'' = Some (JObj [])"
  by code_simp

theorem invalid_predictions_never_reach_vendor_witness:
  "val_of (PredictHandler ref_env ref_validate ref_vendor ref_logs new_writer (predict_with ''{}'')) world1
     = RespondWithError new_writer 400 ''validation failed: model is required''"
proof -
  have "bindR (Unmarshal ''{}'') dec_predictRequest = Inr zero_predictRequest"
    by (simp add: Unmarshal_def json_parse_empty_object dec_predictRequest_def decode_struct_def)
  from invalid_predictions_never_reach_vendor [OF ref_validator.validator_axioms predict_with_sel(1) predict_with_sel(2) _ this _
      runs_to_val_of, of "''model is required''" ref_env ref_vendor ref_logs new_writer world1]
  show ?thesis by (simp add: maxBodyBytes_def predict_violation_def zero_predictRequest_def)
qed

lemma Predict_features:
  "runs_to (Predict ovf env m c q) w (res, fs) w' \<Longrightarrow> fs = ensureDecimal ovf (pq_Features q)"
  by (auto simp: Predict_def Let_def go_run)

lemma features_not_sensitive: "list_all (\<lambda>k. \<not> sensitive_key k) [''transaction_id'', ''amount'', ''merchant_type'', ''device_type'']"
  by code_simp

lemma ensureDecimal_keys: "map fst (ensureDecimal ovf (features_map f)) = [''transaction_id'', ''amount'', ''merchant_type'', ''device_type'']"
  by (simp add: ensureDecimal_def features_map_def)

lemma mask_features: "maskSensitiveData (ensureDecimal ovf (features_map f)) = ensureDecimal ovf (features_map f)"
  unfolding maskSensitiveData_def
proof (rule map_idI)
  fix kv assume "kv \<in> set (ensureDecimal ovf (features_map f))"
  then have "fst kv \<in> set (map fst (ensureDecimal ovf (features_map f)))" by simp
  then have "\<not> sensitive_key (fst kv)"
    unfolding ensureDecimal_keys using features_not_sensitive by (auto simp: list_all_iff)
  then show "(case kv of (k, v) \<Rightarrow> (k, if sensitive_key k then AString ''[REDACTED]'' else v)) = kv"
    by (cases kv) simp
qed

text \<open>
  C37. The log shows what the vendor was sent, not what the client sent: \<open>Predict\<close> changes the amount in
  the feature map it is given, the handler marshals that same map afterwards, and masking changes none
  of the four features.
\<close>

theorem log_shows_the_altered_request:
  assumes "inference_logs env lr (NewVendorService ovf env m c) logs"
    and "IdentityFrom (rq_ctx rq) = Some i" "rq_body rq = Body bs None" "length bs \<le> maxBodyBytes"
    and "bindR (Unmarshal bs) dec_predictRequest = Inr req" "validate (reflect_predictRequest req) = None"
    and "runs_to (PredictHandler env validate (NewVendorService ovf env m c) lr w rq) s a s'"
  shows "logs s' = logs s \<or> (\<exists>l. logs s' = logs s @ [l] \<and> l_RequestPayload l = map_option json_print
     (json_PredictRequest \<lparr>pq_Model = pr_Model req, pq_Features = ensureDecimal ovf (features_map (pr_Features req))\<rparr>))"
  using assms(7,2,3)
proof (cases rule: PredictHandler_runs)
  case (served t t' s1 s2 s3 req' res fs)
  with assms(5) have req: "req' = req" by simp
  have "runs_to (Predict ovf env m c \<lparr>pq_Model = pr_Model req, pq_Features = features_map (pr_Features req)\<rparr>) s1 (res, fs) s2"
    using served(6) by (simp add: NewVendorService_def req)
  from Predict_features [OF this] have fs: "fs = ensureDecimal ovf (features_map (pr_Features req))" by simp
  have "logs s3 = logs s"
    using inference_logs.now_logs [OF assms(1) served(5)] inference_logs.predict_logs [OF assms(1) served(6)]
      inference_logs.now_logs [OF assms(1) served(7)] by simp
  with inference_logs.save_spec [OF assms(1) served(8)] show ?thesis
    by (auto simp: logged_def req fs sanitized_request_def mask_features)
qed (use assms(4-6) in auto)

definition sample_features :: predictFeatures where
  "sample_features = \<lparr>pf_TransactionID = 7, pf_Amount = f64_of_int 200, pf_MerchantType = ''travel'', pf_DeviceType = ''web''\<rparr>"

definition sample_json :: json where
  "sample_json = JObj [(''model'', JStr ''xgboost''), (''features'', JObj [(''transaction_id'', JNum (fmt_int 7)),
     (''amount'', JNum (fmt_int 200)), (''merchant_type'', JStr ''travel''), (''device_type'', JStr ''web'')])]"

definition sample_body :: bytes where
  "sample_body = json_print sample_json"

lemma sample_body_short: "length sample_body \<le> maxBodyBytes"
proof -
  have "length sample_body \<le> 200" unfolding sample_body_def sample_json_def by code_simp
  then show ?thesis by (simp add: maxBodyBytes_def)
qed

lemma ParseInt_fmt_int_7: "ParseInt (fmt_int 7) = Some (7 :: int64)"
  by code_simp

lemma sample_decodes:
  "bindR (Unmarshal sample_body) dec_predictRequest = Inr \<lparr>pr_Model = ''xgboost'', pr_Features = sample_features\<rparr>"
proof -
  have "json_parse sample_body = Some sample_json"
    unfolding sample_body_def
    by (rule json_parse_print) (simp_all add: sample_json_def number_lit_fmt_int ascii_def maxNestingDepth_def)
  then show ?thesis
    by (simp add: Unmarshal_def sample_json_def dec_predictRequest_def decode_struct_def select_field_def
        set_predictRequest_def set_predictFeatures_def dec_string_def dec_int64_def dec_float64_def
        zero_predictRequest_def ParseFloat_fmt_int ParseInt_fmt_int_7 sample_features_def)
qed

lemma sample_valid: "ref_validate (reflect_predictRequest \<lparr>pr_Model = ''xgboost'', pr_Features = sample_features\<rparr>) = None"
proof -
  have "predict_violation \<lparr>pr_Model = ''xgboost'', pr_Features = sample_features\<rparr> = None"
    using f64_of_int_exact [of 200] by (simp add: predict_violation_def sample_features_def f64_eq_def)
  then show ?thesis using ref_validator.predictRequest_message by (metis option.map_disc_iff)
qed

theorem log_shows_the_altered_request_witness:
  "let s = end_of (PredictHandler ref_env ref_validate ref_vendor ref_logs new_writer (predict_with sample_body)) world1 in
   w_logs s = [] \<or> (\<exists>l. w_logs s = [l] \<and> l_RequestPayload l = map_option json_print
     (json_PredictRequest \<lparr>pq_Model = ''xgboost'', pq_Features = ensureDecimal (\<lambda>_. 0) (features_map sample_features)\<rparr>))"
  using log_shows_the_altered_request [where validate = ref_validate and w = new_writer, OF ref_audit.inference_logs_axioms predict_with_sel [of sample_body]
      sample_body_short sample_decodes sample_valid runs_to_val_of [of _ world1]]
  by (simp add: Let_def world1_def world0_def)

end
