(* ===== verification/Keys.thy ===== *)
theory Keys
  imports Accounts Handlers
begin

text \<open>
  The life of an API key from the handler that creates it to the middleware that accepts it, and what
  the account handlers answer when something behind them fails: a created key authenticates as its
  owner with the rate that was asked for, label and rate are within the bounds of the request tags, a listed
  key shows only the ends of its digest, a password that is valid but too long for bcrypt is a server
  error, and a database failure during sign-in looks like a wrong password.
\<close>

section \<open>Facts\<close>

lemma sint32_of_int: "- (2 ^ 31) \<le> i \<Longrightarrow> i < 2 ^ 31 \<Longrightarrow> sint (word_of_int i :: int32) = i"
  by (simp add: sint_sbintrunc' signed_take_bit_int_eq_self)

lemma int32_round_trip:
  fixes r :: goint
  assumes "- (2 ^ 31) \<le> sint r" "sint r < 2 ^ 31"
  shows "sint (ucast r :: int32) = sint r" "(scast (ucast r :: int32) :: goint) = r"
proof -
  have "take_bit 32 (take_bit 64 (sint r)) = take_bit 32 (sint r)" by (simp add: take_bit_take_bit)
  then have "take_bit 32 (uint r) = take_bit 32 (sint r)" by (simp add: uint_sint)
  then have "(word_of_int (uint r) :: int32) = word_of_int (sint r)"
    by (intro word_of_int_eq_iff [THEN iffD2]) simp
  then have u: "(ucast r :: int32) = word_of_int (sint r)" by (simp only: ucast_eq)
  show s: "sint (ucast r :: int32) = sint r"
    unfolding u by (rule sint32_of_int [OF assms])
  show "(scast (ucast r :: int32) :: goint) = r"
    unfolding scast_eq s by simp
qed

lemma DecodeRune_ascii: "of_char c < (128 :: nat) \<Longrightarrow> DecodeRune (c # s) = (of_char c, 1)"
  by (simp add: DecodeRune_def Let_def)

lemma rune_count_ascii: "ascii s \<Longrightarrow> rune_count s = length s"
  by (induction s) (simp_all add: ascii_def DecodeRune_ascii)

text \<open>
  What the random source is trusted with: it leaves table, cache and clock alone.
\<close>

definition quiet_random :: "'w env \<Rightarrow> ('w \<Rightarrow> ApiKey list) \<Rightarrow> ('w \<Rightarrow> keyspace) \<Rightarrow> bool" where
  "quiet_random env tbl live \<longleftrightarrow>
     (\<forall>n v x v'. runs_to (rand_Read env n) v x v' \<longrightarrow> tbl v' = tbl v \<and> live v' = live v)"

text \<open>The next random key is not in use: its hash is no row's hash.\<close>

definition fresh_random :: "'w env \<Rightarrow> ('w \<Rightarrow> ApiKey list) \<Rightarrow> 'w \<Rightarrow> bool" where
  "fresh_random env tbl w \<longleftrightarrow>
     (\<forall>bs v. runs_to (rand_Read env 32) w (Inr bs) v \<longrightarrow> HashAPIKey (EncodeToString bs) \<notin> k_KeyHash ` set (tbl w))"

text \<open>What creating a key through the service leaves in the table.\<close>

lemma Service_CreateAPIKey_spec:
  assumes cache: "key_cache rc q tbl live clk \<lparr>par_q = q, par_redisClient = Some rc, par_ttl = ttl\<rparr>"
    and "quiet_random env tbl live" "coherent (tbl w) (live w)"
    and run: "runs_to (Service_CreateAPIKey env (NewAPIKeyRepository q (Some rc) ttl) uid label rate) w res w'"
    and fresh: "fresh_random env tbl w"
  shows "coherent (tbl w') (live w') \<and> (case res of
      Inl e \<Rightarrow> tbl w' = tbl w
    | Inr (plain, row) \<Rightarrow> \<exists>k. tbl w' = tbl w @ [k] \<and> k_UserID k = uid \<and> k_KeyHash k = HashAPIKey plain
        \<and> k_Label k = (if label \<noteq> [] then Some label else None) \<and> k_Active k \<and> k_RateRpm k = ucast rate \<and> row = create_row k)"
  using run
proof (cases rule: Service_CreateAPIKey_runs)
  case (no_random e)
  with assms(2,3) show ?thesis by (auto simp: quiet_random_def)
next
  case (called bs w1 r2)
  have w1: "tbl w1 = tbl w" "live w1 = live w" using assms(2) called(1) by (auto simp: quiet_random_def)
  have "runs_to (CreateAPIKey \<lparr>par_q = q, par_redisClient = Some rc, par_ttl = ttl\<rparr> \<lparr>cp_UserID = uid,
      cp_KeyHash = HashAPIKey (EncodeToString bs), cp_Label = (if label \<noteq> [] then Some label else None), cp_RateRpm = ucast rate\<rparr>) w1 r2 w'"
    using called(2) by (simp add: NewAPIKeyRepository_def Let_def)
  from key_cache.CreateAPIKey_spec [OF cache this] assms(3) w1 fresh called(1,3) show ?thesis
    by (cases r2) (auto simp: fresh_random_def)
qed

text \<open>The key handler either rejects the request without touching anything, or calls the service once.\<close>

lemma APIKeyHandler_runs:
  assumes "runs_to (APIKeyHandler validate ks wr rq) w a w'" "IdentityFrom (rq_ctx rq) = Some i" "rw_sent wr = None"
  obtains (rejected) "w' = w" "rw_status a \<noteq> 201"
  | (called) req res where "bindR (Decode (MaxBytesReader (rq_body rq) maxBodyBytes)) dec_apiKeyRequest = Inr req"
      "validate (reflect_apiKeyRequest req) = None"
      "runs_to (aks_CreateAPIKey ks (id_UserID i) (aq_Label req) (if 0 < sint (aq_RateRPM req) then aq_RateRPM req else 100)) w res w'"
      "isl res \<Longrightarrow> rw_status a \<noteq> 201"
proof (cases "bindR (Decode (MaxBytesReader (rq_body rq) maxBodyBytes)) dec_apiKeyRequest")
  case (Inl e)
  with assms show thesis by (auto simp: APIKeyHandler_def intro: rejected split: if_splits)
next
  case (Inr req)
  show thesis
  proof (cases "validate (reflect_apiKeyRequest req)")
    case None
    with assms Inr show thesis
      by (auto simp: APIKeyHandler_def runs_to_bind Let_def isl_def intro!: called [OF Inr None] split: if_splits)
  qed (use assms Inr rejected in \<open>auto simp: APIKeyHandler_def\<close>)
qed

definition ErrPasswordTooLong :: go_error where
  "ErrPasswordTooLong = ErrorString ''bcrypt: password length exceeds 72 bytes''"

section \<open>Theorems\<close>

text \<open>
  C4. A created key works: right after \<open>CreateAPIKey\<close> handed out a key, a request with that key is passed
  on as its owner, with the id of the new row and the rate that was asked for, unless the database
  fails; it is never refused as unknown or inactive.
\<close>

theorem created_key_authenticates:
  assumes "key_cache rc q tbl live clk \<lparr>par_q = q, par_redisClient = Some rc, par_ttl = ttl\<rparr>"
    and "user_queries q users same" "quiet_random env tbl live" "coherent (tbl w0) (live w0)"
    and "runs_to (Service_CreateAPIKey env (NewAPIKeyRepository q (Some rc) ttl) uid label rate) w0 (Inr (plain, row)) w1"
    and "fresh_random env tbl w0"
    and "- (2 ^ 31) \<le> sint rate" "sint rate < 2 ^ 31"
    and "Header_Get (rq_header rq) ''X-API-Key'' = plain" "plain \<noteq> []"
    and "runs_to (APIKeyAuth env (NewAPIKeyRepository q (Some rc) ttl) (NewUserRepository q) nxt wr rq) w1 a w2"
  shows "(\<exists>plan v. runs_to (nxt wr (with_identity rq \<lparr>id_UserID = uid, id_Plan = plan, id_APIKeyID = Some (cr_ID row),
          id_RateRPM = Some rate\<rparr>)) v a w2)
    \<or> a \<in> {RespondWithError wr 500 ''could not retrieve API key'', RespondWithError wr 500 ''could not retrieve user''}"
proof -
  let ?r = "\<lparr>par_q = q, par_redisClient = Some rc, par_ttl = ttl\<rparr>"
  from Service_CreateAPIKey_spec [OF assms(1,3,4,5,6)] obtain k where coh: "coherent (tbl w1) (live w1)"
    and k: "tbl w1 = tbl w0 @ [k]" "k_UserID k = uid" "k_KeyHash k = HashAPIKey plain" "k_Active k"
      "k_RateRpm k = ucast rate" "row = create_row k" by auto
  have found: "lookup_hash (tbl w1) (HashAPIKey plain) = Some (hash_row k)"
    using lookup_hash_Some [of "tbl w1" k] coh k by (simp add: coherent_def)
  have get: "x = hash_row k" if "runs_to (akr_GetAPIKeyByHash (NewAPIKeyRepository q (Some rc) ttl) (HashAPIKey plain)) w1 (Inr x) v" for x v
    using key_cache.GetAPIKeyByHash_spec [OF assms(1) _ coh, of "HashAPIKey plain" "Inr x" v] that found
    by (simp add: NewAPIKeyRepository_def Let_def)
  from assms(11) assms(10) [folded assms(9)] show ?thesis
  proof (cases rule: APIKeyAuth_runs)
    case (unknown e)
    then have "runs_to (GetAPIKeyByHash ?r (HashAPIKey plain)) w1 (Inl e) w2" by (simp add: assms(9) NewAPIKeyRepository_def Let_def)
    from key_cache.GetAPIKeyByHash_spec [OF assms(1) this coh] unknown(2) found show ?thesis by simp
  next
    case (inactive x)
    with get [of x w2] k(4) show ?thesis by (simp add: assms(9) hash_row_def)
  next
    case (passed x user v1 v2 v3)
    with get [of x v1] have x: "x = hash_row k" by (simp add: assms(9))
    have "ur_ID user = uid"
      using user_queries.id_row [OF assms(2), of "k_UserID k" v1 user v2] passed(3) k(2)
      by (auto simp: x hash_row_def NewUserRepository_def user_row_def)
    with passed(4) show ?thesis
      by (auto simp: x hash_row_def k(5,6) create_row_def int32_round_trip [OF assms(7,8)])
  qed auto
qed

definition drawn :: bytes where
  "drawn = replicate 32 (CHR ''x'')"

definition drawn_key :: string where
  "drawn_key = EncodeToString drawn"

definition world_random :: world where
  "world_random = world1\<lparr>w_random := [drawn]\<rparr>"

abbreviation ref_key_service :: "world APIKeyRepository" where
  "ref_key_service \<equiv> NewAPIKeyRepository (New ref_DBTX) (Some (ref_redis False)) (3600 * second)"

definition drawn_row :: ApiKey where
  "drawn_row = \<lparr>k_ID = 1, k_UserID = 1, k_KeyHash = HashAPIKey drawn_key, k_Label = Some ''deploy'', k_Active = True,
     k_RateRpm = 60, k_LastUsedAt = None, k_CreatedAt = 0\<rparr>"

lemma quiet_random_ref: "quiet_random ref_env w_keys w_live"
  by (auto simp: quiet_random_def ref_env_def runs_to_def w_live_def split: list.splits)

lemma fresh_random_ref: "fresh_random ref_env w_keys world_random"
  by (simp add: fresh_random_def world_random_def world1_def world0_def)

lemma coherent_world_random: "coherent (w_keys world_random) (w_live world_random)"
  using coherent_world1 by (simp add: world_random_def w_live_def)

lemma drawn_created: "val_of (Service_CreateAPIKey ref_env ref_key_service 1 ''deploy'' 60) world_random = Inr (drawn_key, create_row drawn_row)"
proof -
  have r: "run_state (rand_Read ref_env 32) world_random = (Inr drawn, world1)"
    by (simp add: ref_env_def world_random_def world1_def world0_def drawn_def)
  show ?thesis
    by (simp add: val_of_def Service_CreateAPIKey_def generateRandomKey_def r drawn_key_def [symmetric] Let_def
        NewAPIKeyRepository_def ref_eval repo_eval create_row_def drawn_row_def)
qed

definition owner_check :: "world http_handler" where
  "owner_check w r = go_return (WriteHeader
     (if \<exists>i. IdentityFrom (rq_ctx r) = Some i \<and> id_UserID i = 1 \<and> id_RateRPM i = Some 60 then 200 else 403) w)"

theorem created_key_authenticates_witness:
  "rw_status (val_of (ref_key_auth owner_check new_writer (request_with ''X-API-Key'' drawn_key))
     (end_of (Service_CreateAPIKey ref_env ref_key_service 1 ''deploy'' 60) world_random)) \<in> {200, 500}"
proof -
  let ?create = "Service_CreateAPIKey ref_env ref_key_service 1 ''deploy'' 60"
  have run: "runs_to ?create world_random (Inr (drawn_key, create_row drawn_row)) (end_of ?create world_random)"
    using drawn_created by (simp add: runs_to_iff)
  have h: "Header_Get (rq_header (request_with ''X-API-Key'' drawn_key)) ''X-API-Key'' = drawn_key"
    by (simp add: request_with_def Header_Get_Set)
  have "drawn_key \<noteq> []" by (simp add: drawn_key_def drawn_def EncodeToString_def)
  from created_key_authenticates [OF ref_cache_hour ref_users.user_queries_axioms quiet_random_ref coherent_world_random run
      fresh_random_ref _ _ h this runs_to_val_of, of owner_check new_writer]
  show ?thesis by (auto simp: owner_check_def with_identity_def IdentityFrom_def)
qed

text \<open>
  C20. Only valid requests create keys: when the key handler creates a key, the body decoded to a request
  with a label of 3 to 50 characters and a rate that is missing, 0, or between 1 and 10000; the new row
  belongs to the caller, is active, carries that label, and its rate is the one requested, or 100 if
  none was, so that the conversion to 32 bits loses nothing. In all other cases the table is unchanged
  and the status is not 201.
\<close>

theorem created_key_has_valid_rate:
  assumes "validator validate is_email"
    and "key_cache rc q tbl live clk \<lparr>par_q = q, par_redisClient = Some rc, par_ttl = ttl\<rparr>"
    and "quiet_random env tbl live" "coherent (tbl w) (live w)" "fresh_random env tbl w"
    and "IdentityFrom (rq_ctx rq) = Some i" "rw_sent wr = None"
    and "runs_to (APIKeyHandler validate (NewAPIKeyService env (NewAPIKeyRepository q (Some rc) ttl)) wr rq) w a w'"
  shows "tbl w' = tbl w \<and> rw_status a \<noteq> 201
    \<or> (\<exists>req k. bindR (Decode (MaxBytesReader (rq_body rq) maxBodyBytes)) dec_apiKeyRequest = Inr req
        \<and> 3 \<le> rune_count (aq_Label req) \<and> rune_count (aq_Label req) \<le> 50
        \<and> tbl w' = tbl w @ [k] \<and> k_UserID k = id_UserID i \<and> k_Active k \<and> k_Label k = Some (aq_Label req)
        \<and> sint (k_RateRpm k) = (if aq_RateRPM req = 0 then 100 else sint (aq_RateRPM req))
        \<and> 1 \<le> sint (k_RateRpm k) \<and> sint (k_RateRpm k) \<le> 10000)"
  using assms(8,6,7)
proof (cases rule: APIKeyHandler_runs)
  case (called req res)
  let ?rate = "if 0 < sint (aq_RateRPM req) then aq_RateRPM req else 100"
  from validator.apiKeyRequest_valid [OF assms(1), of req] called(2)
  have rate: "sint ?rate = (if aq_RateRPM req = 0 then 100 else sint (aq_RateRPM req))" "1 \<le> sint ?rate" "sint ?rate \<le> 10000"
    and label: "aq_Label req \<noteq> []" "3 \<le> rune_count (aq_Label req)" "rune_count (aq_Label req) \<le> 50"
    by auto
  have "runs_to (Service_CreateAPIKey env (NewAPIKeyRepository q (Some rc) ttl) (id_UserID i) (aq_Label req) ?rate) w res w'"
    using called(3) by (simp add: NewAPIKeyService_def)
  note spec = Service_CreateAPIKey_spec [OF assms(2-4) this assms(5)]
  show ?thesis
  proof (cases res)
    case (Inl err)
    with spec called(4) show ?thesis by auto
  next
    case (Inr created)
    with spec obtain k where k: "tbl w' = tbl w @ [k]" "k_UserID k = id_UserID i" "k_Active k" "k_RateRpm k = ucast ?rate"
        "k_Label k = Some (aq_Label req)"
      using label(1) by (cases created) auto
    have "sint (k_RateRpm k) = sint ?rate" unfolding k(4) by (rule int32_round_trip) (use rate in auto)
    with rate label k called(1) show ?thesis by auto
  qed
qed auto

definition key_request :: request where
  "key_request = with_identity ((request_with ''Content-Type'' ''application/json'')\<lparr>rq_method := ''POST'',
     rq_body := Body (json_print (JObj [(''label'', JStr ''deploy''), (''rate_rpm'', JNum (fmt_int 60))])) None\<rparr>)
     \<lparr>id_UserID = 1, id_Plan = ''free'', id_APIKeyID = None, id_RateRPM = None\<rparr>"

lemma key_request_decodes:
  "bindR (Decode (MaxBytesReader (rq_body key_request) maxBodyBytes)) dec_apiKeyRequest = Inr \<lparr>aq_Label = ''deploy'', aq_RateRPM = 60\<rparr>"
proof -
  let ?j = "JObj [(''label'', JStr ''deploy''), (''rate_rpm'', JNum (fmt_int 60))]"
  have "length (json_print ?j) \<le> 100" by code_simp
  moreover have "parse_prefix (json_print ?j @ []) = Done ?j []"
    by (rule parse_prefix_print) (simp_all add: number_lit_fmt_int ascii_def maxNestingDepth_def)
  moreover have "ParseInt (fmt_int 60) = Some (60 :: int64)" by code_simp
  ultimately show ?thesis
    by (simp add: key_request_def with_identity_def request_with_def MaxBytesReader_def maxBodyBytes_def Decode_def dec_apiKeyRequest_def
        decode_struct_def select_field_def set_apiKeyRequest_def dec_string_def dec_int64_def)
qed

lemma key_request_valid: "ref_validate (reflect_apiKeyRequest \<lparr>aq_Label = ''deploy'', aq_RateRPM = 60\<rparr>) = None"
proof -
  have "rune_count ''deploy'' = 6" by (simp add: rune_count_ascii ascii_def del: rune_count.simps)
  then show ?thesis unfolding ref_validator.apiKeyRequest_valid by simp
qed

lemma key_request_id: "IdentityFrom (rq_ctx key_request) = Some \<lparr>id_UserID = 1, id_Plan = ''free'', id_APIKeyID = None, id_RateRPM = None\<rparr>"
  by (simp add: key_request_def with_identity_def IdentityFrom_def)

lemma key_request_creates: "w_keys (end_of (APIKeyHandler ref_validate (NewAPIKeyService ref_env ref_key_service) new_writer key_request) world_random) \<noteq> []"
proof -
  have "end_of (APIKeyHandler ref_validate (NewAPIKeyService ref_env ref_key_service) new_writer key_request) world_random
    = end_of (Service_CreateAPIKey ref_env ref_key_service 1 ''deploy'' 60) world_random"
    by (simp add: APIKeyHandler_def key_request_id key_request_decodes key_request_valid NewAPIKeyService_def Let_def end_of_def split_beta)
  moreover have "runs_to (Service_CreateAPIKey ref_env ref_key_service 1 ''deploy'' 60) world_random (Inr (drawn_key, create_row drawn_row))
      (end_of (Service_CreateAPIKey ref_env ref_key_service 1 ''deploy'' 60) world_random)"
    using drawn_created by (simp add: runs_to_iff)
  ultimately show ?thesis
    using Service_CreateAPIKey_spec [OF ref_cache_hour quiet_random_ref coherent_world_random _ fresh_random_ref] by fastforce
qed

theorem created_key_has_valid_rate_witness:
  "\<exists>k. w_keys (end_of (APIKeyHandler ref_validate (NewAPIKeyService ref_env ref_key_service) new_writer key_request) world_random) = [k]
     \<and> sint (k_RateRpm k) = 60"
proof -
  have "w_keys world_random = []" by (simp add: world_random_def world1_def world0_def)
  with created_key_has_valid_rate [OF ref_validator.validator_axioms ref_cache_hour quiet_random_ref coherent_world_random
      fresh_random_ref key_request_id rw_sent_new_writer runs_to_val_of] key_request_creates key_request_decodes
  show ?thesis by auto
qed

text \<open>
  C29. The list shows no key: for a digest of more than 16 hexadecimal digits the shown text has the same
  length, is the same for all digests with the same first ten and last six digits, and is all
  asterisks in between.
\<close>

theorem masked_key_shows_ends_only:
  assumes "16 < length key" "length key' = length key"
    and "take 10 key' = take 10 key" "drop (length key - 6) key' = drop (length key - 6) key"
  shows "maskAPIKey key' = maskAPIKey key \<and> length (maskAPIKey key) = length key
    \<and> (\<forall>i. 10 \<le> i \<longrightarrow> i < length key - 6 \<longrightarrow> maskAPIKey key ! i = CHR ''*'')"
proof -
  have "strings_Repeat ''*'' n ! i = CHR ''*''" if "i < n" for n i
    using set_strings_Repeat [of "CHR ''*''" n] nth_mem [of i "strings_Repeat ''*'' n"] that
    by (metis length_strings_Repeat singletonD subsetD)
  with assms show ?thesis by (auto simp: maskAPIKey_def nth_append)
qed

theorem masked_key_shows_ends_only_witness:
  "maskAPIKey ''0123456789abcdef012345'' = maskAPIKey ''0123456789ffffff012345''"
  using masked_key_shows_ends_only [of "''0123456789ffffff012345''" "''0123456789abcdef012345''"] by simp

text \<open>
  C39. A password can be valid and still unusable: the tag \<open>max=72\<close> counts characters, bcrypt limits bytes.
  A sign-up request for a free e-mail address that passes validation with more than 72 bytes of
  password is answered with 500 and creates no user.
\<close>

theorem long_password_is_a_server_error:
  assumes "accounts q users same jwt clk env bc s"
    and "\<And>pw c v x v'. 72 < length pw \<Longrightarrow> runs_to (GenerateFromPassword bc pw c) v x v' \<Longrightarrow> x = Inl ErrPasswordTooLong"
    and "bindR (Decode (rq_body rq)) dec_signUpRequest = Inr req" "72 < length (su_Password req)"
    and "validate (reflect_signUpRequest req) = None" "rw_sent wr = None"
    and "runs_to (q_GetUserByEmail q (su_Email req)) w (Inl e) v" "errors_Is e ErrNoRows"
    and "runs_to (SignUpHandler validate \<lparr>aus_SignUp = SignUp env jwt bc s, aus_SignIn = SignIn env jwt bc s\<rparr> wr rq) w a w'"
  shows "users w' = users w \<and> rw_status a = 500"
proof -
  from assms(3,5,9) obtain res where run: "runs_to (SignUp env jwt bc s (su_Name req) (su_Email req) (su_Password req)) w res w'"
    and a: "a = (case res of
        Inl err \<Rightarrow> if errors_Is err ErrEmailExists then RespondWithJSON wr 409 (code_message ''email_exists'' ''email already exists'')
          else RespondWithJSON wr 500 (code_message ''internal_error'' (Error err))
      | Inr (user, token) \<Rightarrow> RespondWithJSON wr 200 (account_json token (ur_ID user) (ur_Name user) (ur_Email user)))"
    by (auto simp: SignUpHandler_def runs_to_bind)
  note lookup = runs_to_deterministic [OF assms(7)] and sel = accounts.repo_sel [OF assms(1)]
  from run have "res = Inl ErrPasswordTooLong \<and> users w' = users w"
  proof (cases rule: SignUp_runs)
    case (hash_fails e0 e' w1)
    then have "users w1 = users w" "users w' = users w1"
      using user_queries.email_frame [OF accounts.axioms(1) [OF assms(1)], of "su_Email req" w "Inl e0" w1]
        accounts.hash_frame [OF assms(1)] by (auto simp: sel)
    with assms(2) [OF assms(4) hash_fails(3)] hash_fails(4) show ?thesis by simp
  qed (use assms(8) in \<open>auto simp: sel dest!: lookup dest: assms(2) [OF assms(4)]\<close>)
  with a assms(6) show ?thesis by (simp add: ErrPasswordTooLong_def status_RespondWithJSON code_message_def)
qed

text \<open>A password of 37 letters e with acute accent: 37 characters, 74 bytes.\<close>

primrec accents :: "nat \<Rightarrow> string" where
  "accents 0 = []"
| "accents (Suc n) = CHR 0xC3 # CHR 0xA9 # accents n"

lemma DecodeRune_accent: "DecodeRune (CHR 0xC3 # CHR 0xA9 # s) = (233, 2)"
  by (cases s) (simp_all add: DecodeRune_def Let_def between_def)

lemma length_accents: "length (accents n) = 2 * n"
  by (induction n) simp_all

lemma rune_count_accents: "rune_count (accents n) = n"
  by (induction n) (simp_all add: DecodeRune_accent)

lemma enc_accents: "enc_string (accents n) = accents n"
  by (induction n) (simp_all add: DecodeRune_accent)

lemma scan_accents: "scan_string (accents n @ quote # rest) = Done (accents n) rest"
  by (induction n) simp_all

lemma EncodeRune_accent: "EncodeRune 233 = [CHR 0xC3, CHR 0xA9]"
  by (simp add: EncodeRune_def is_surrogate_def between_def char_of_def bit_0)

lemma unquote_accents: "unquote (accents n) = accents n"
  by (induction n) (simp_all add: DecodeRune_accent EncodeRune_accent)

lemma reads_back_accents: "reads_back (JStr (accents n))"
proof -
  have "2 * length (print_string (accents n)) \<le> f \<Longrightarrow> \<exists>f'. f = Suc f'" for f
    by (cases f) (auto simp: print_string_def)
  then show ?thesis
    by (fastforce simp: reads_back_def print_string_def enc_accents parse_value.simps skip_ws_Cons scan_accents unquote_accents)
qed

definition long_json :: json where
  "long_json = JObj [(''name'', JStr ''Grace''), (''email'', JStr ''grace@example.com''), (''password'', JStr (accents 37))]"

definition long_request :: request where
  "long_request = (request_with ''Accept'' ''*/*'')\<lparr>rq_body := Body (json_print long_json) None\<rparr>"

definition long_signup :: signUpRequest where
  "long_signup = \<lparr>su_Name = ''Grace'', su_Email = ''grace@example.com'', su_Password = accents 37\<rparr>"

lemma long_decodes: "bindR (Decode (rq_body long_request)) dec_signUpRequest = Inr long_signup"
proof -
  have "reads_back long_json"
    unfolding long_json_def
    by (rule reads_back_JObj) (auto simp: reads_back_accents reads_back_wf ascii_def)
  moreover have "json_depth long_json \<le> maxNestingDepth" by (simp add: long_json_def maxNestingDepth_def)
  ultimately have "parse_prefix (json_print long_json) = Done long_json []" by (rule parse_prefix_reads_back)
  then show ?thesis
    by (simp add: long_request_def Decode_def)
      (simp add: long_json_def dec_signUpRequest_def decode_struct_def select_field_def set_signUpRequest_def dec_string_def long_signup_def)
qed

lemma long_valid: "ref_validate (reflect_signUpRequest long_signup) = None"
proof -
  have "rune_count ''Grace'' = 5" by (simp add: rune_count_ascii ascii_def del: rune_count.simps)
  moreover have "ref_email ''grace@example.com''" by (simp add: ref_email_def)
  moreover have "accents 37 \<noteq> []" using length_accents [of 37] by (metis list.size(3) mult_is_0 zero_neq_numeral)
  ultimately show ?thesis
    unfolding ref_validator.signUpRequest_valid long_signup_def by (simp add: rune_count_accents del: rune_count.simps accents.simps)
qed

theorem long_password_is_a_server_error_witness:
  "rw_status (val_of (SignUpHandler ref_validate \<lparr>aus_SignUp = SignUp ref_env ref_jwt ref_bcrypt token_setup,
     aus_SignIn = SignIn ref_env ref_jwt ref_bcrypt token_setup\<rparr> new_writer long_request) world1) = 500"
proof -
  have bcrypt: "x = Inl ErrPasswordTooLong" if "72 < length pw" "runs_to (GenerateFromPassword ref_bcrypt pw c) v x v'" for pw c v x v'
    using that by (simp add: ref_bcrypt_def ErrPasswordTooLong_def)
  have len: "72 < length (su_Password long_signup)" by (simp add: long_signup_def length_accents)
  have free: "runs_to (q_GetUserByEmail (New ref_DBTX) (su_Email long_signup)) world1 (Inl ErrNoRows) world1"
    using email_lookup_free by (simp add: runs_to_def long_signup_def)
  show ?thesis
    using long_password_is_a_server_error [where validate = ref_validate, OF ref_accounts.accounts_axioms bcrypt long_decodes len long_valid rw_sent_new_writer free _
        runs_to_val_of] by simp
qed

text \<open>
  C40. A database failure during sign-in is reported as a wrong password: whatever error the user lookup
  returns, a well-formed sign-in request is answered with 401.
\<close>

theorem sign_in_outage_looks_like_wrong_password:
  assumes "bindR (Decode (rq_body rq)) dec_signInRequest = Inr req" "validate (reflect_signInRequest req) = None"
    and "runs_to (usr_GetUserByEmailForLogin userRepo (si_Email req)) w (Inl e) v"
    and "runs_to (SignInHandler validate (NewAuthService env jwt bc userRepo secret timeout) wr rq) w a w'"
  shows "a = RespondWithJSON wr 401 (code_message ''invalid_credentials'' ''invalid credentials'') \<and> w' = v"
proof -
  let ?s = "\<lparr>as_userRepo = userRepo, as_jwtSecret = secret, as_jwtTimeout = timeout\<rparr>"
  have "runs_to (SignIn env jwt bc ?s (si_Email req) (si_Password req)) w (Inl ErrInvalidCredentials) v"
    using assms(3) by (simp add: SignIn_def runs_to_bind_known)
  note known = runs_to_bind_known [OF this]
  from assms(1,2,4) show ?thesis by (auto simp: SignInHandler_def NewAuthService_def Let_def known)
qed

definition login_request :: request where
  "login_request = (request_with ''Accept'' ''*/*'')\<lparr>rq_body := Body (json_print (JObj [(''email'', JStr ''ada@example.com''),
     (''password'', JStr ''lovelace'')])) None\<rparr>"

lemma login_decodes:
  "bindR (Decode (rq_body login_request)) dec_signInRequest = Inr \<lparr>si_Email = ''ada@example.com'', si_Password = ''lovelace''\<rparr>"
proof -
  let ?j = "JObj [(''email'', JStr ''ada@example.com''), (''password'', JStr ''lovelace'')]"
  have "parse_prefix (json_print ?j) = Done ?j []"
    by (intro parse_prefix_reads_back reads_back_wf) (simp_all add: ascii_def maxNestingDepth_def)
  then show ?thesis
    by (simp add: login_request_def Decode_def dec_signInRequest_def decode_struct_def select_field_def set_signInRequest_def dec_string_def)
qed

lemma login_valid: "ref_validate (reflect_signInRequest \<lparr>si_Email = ''ada@example.com'', si_Password = ''lovelace''\<rparr>) = None"
  unfolding ref_validator.signInRequest_valid by (simp add: ref_email_def)

theorem sign_in_outage_looks_like_wrong_password_witness:
  "rw_status (val_of (SignInHandler ref_validate (NewAuthService ref_env ref_jwt ref_bcrypt (NewUserRepository (New ref_DBTX)) ''k'' 1)
     new_writer login_request) (world1\<lparr>w_pg_faults := [Some ''connection refused'']\<rparr>)) = 401"
proof -
  have "run_state (usr_GetUserByEmailForLogin (NewUserRepository (New ref_DBTX)) ''ada@example.com'') (world1\<lparr>w_pg_faults := [Some ''connection refused'']\<rparr>)
      = (Inl (ErrorString ''connection refused''), world1)"
    by (simp add: NewUserRepository_def ref_eval)
  then have "runs_to (usr_GetUserByEmailForLogin (NewUserRepository (New ref_DBTX)) (si_Email \<lparr>si_Email = ''ada@example.com'', si_Password = ''lovelace''\<rparr>))
      (world1\<lparr>w_pg_faults := [Some ''connection refused'']\<rparr>) (Inl (ErrorString ''connection refused'')) world1"
    by (simp add: runs_to_def)
  from sign_in_outage_looks_like_wrong_password [where validate = ref_validate, OF login_decodes login_valid this runs_to_val_of]
  show ?thesis by (simp add: status_RespondWithJSON code_message_def)
qed

end
