(* ===== verification/Config.thy ===== *)
theory Config
  imports Go_Http
begin

text \<open>
  \<open>internal/config/config.go\<close> and \<open>internal/observability/logging.go\<close>. Viper is a record of the calls
  \<open>LoadConfig\<close> makes, in the order it makes them; the result is the configuration together with the
  error, since Go returns both. zerolog's levels are a datatype and its two calls are arguments.
\<close>

section \<open>config.go\<close>

record Config =
  cf_AppEnv :: string
  cf_HTTPAddr :: string
  cf_HTTPPort :: goint
  cf_PGDSN :: string
  cf_PGMaxOpenConns :: goint
  cf_PGMaxIdleConns :: goint
  cf_PGConnMaxLifetime :: duration
  cf_RedisAddr :: string
  cf_RedisPassword :: string
  cf_RedisDB :: goint
  cf_JWTSecretFile :: string
  cf_RateLimitRPMDefault :: goint
  cf_PredictRateLimit :: goint
  cf_PredictRateWindow :: duration
  cf_OtelExporterOTLPEndpoint :: string
  cf_OtelServiceName :: string
  cf_CORSAllowedOrigins :: "string list"
  cf_VendorBaseURL :: string
  cf_VendorToken :: string
  cf_LogLevel :: string
  cf_Debug :: bool

definition zero_Config :: Config where
  "zero_Config = \<lparr>cf_AppEnv = [], cf_HTTPAddr = [], cf_HTTPPort = 0, cf_PGDSN = [], cf_PGMaxOpenConns = 0,
     cf_PGMaxIdleConns = 0, cf_PGConnMaxLifetime = 0, cf_RedisAddr = [], cf_RedisPassword = [], cf_RedisDB = 0,
     cf_JWTSecretFile = [], cf_RateLimitRPMDefault = 0, cf_PredictRateLimit = 0, cf_PredictRateWindow = 0,
     cf_OtelExporterOTLPEndpoint = [], cf_OtelServiceName = [], cf_CORSAllowedOrigins = [], cf_VendorBaseURL = [],
     cf_VendorToken = [], cf_LogLevel = [], cf_Debug = False\<rparr>"

text \<open>
  \<open>vp_Unmarshal\<close> fills a given configuration from all keys viper knows and returns it with the error.
\<close>

record 'w viper =
  vp_SetConfigName :: "string \<Rightarrow> 'w proc"
  vp_SetConfigType :: "string \<Rightarrow> 'w proc"
  vp_AddConfigPath :: "string \<Rightarrow> 'w proc"
  vp_ReadInConfig :: "('w, unit result) state"
  vp_is_ConfigFileNotFoundError :: "go_error \<Rightarrow> bool"
  vp_SetDefault :: "string \<Rightarrow> any \<Rightarrow> 'w proc"
  vp_GetString :: "string \<Rightarrow> ('w, string) state"
  vp_AutomaticEnv :: "'w proc"
  vp_SetEnvKeyReplacer :: "string \<Rightarrow> string \<Rightarrow> 'w proc"
  vp_BindEnv :: "string \<Rightarrow> ('w, unit result) state"
  vp_Unmarshal :: "Config \<Rightarrow> ('w, Config \<times> go_error option) state"

definition config_defaults :: "(string \<times> any) list" where
  "config_defaults =
     [(''APP_ENV'', AString ''development''), (''HTTP_ADDR'', AString ''0.0.0.0''), (''HTTP_PORT'', AInt 8080),
      (''PG_MAX_OPEN_CONNS'', AInt 25), (''PG_MAX_IDLE_CONNS'', AInt 25), (''PG_CONN_MAX_LIFETIME'', AString ''5m''),
      (''RATE_LIMIT_RPM_DEFAULT'', AInt 100), (''PREDICT_RATE_LIMIT'', AInt 60), (''PREDICT_RATE_WINDOW'', AString ''1m''),
      (''OTEL_SERVICE_NAME'', AString ''go-api''), (''LOG_LEVEL'', AString ''info''), (''DEBUG'', ABool False)]"

definition bound_env_keys :: "string list" where
  "bound_env_keys = [''LOG_LEVEL'', ''PG_DSN'', ''REDIS_ADDR'', ''REDIS_PASSWORD'', ''VENDOR_TOKEN'', ''JWT_SECRET_FILE'']"

fun do_all :: "('a \<Rightarrow> ('w, 'b) state) \<Rightarrow> 'a list \<Rightarrow> 'w proc" where
  "do_all f [] = go_return ()"
| "do_all f (x # xs) = do { _ \<leftarrow> f x; do_all f xs }"

definition cors_origins :: "string \<Rightarrow> string list" where
  "cors_origins corsStr = (if corsStr \<noteq> [] then strings_Split corsStr (CHR '','') else [''*''])"

definition LoadConfig :: "'w viper \<Rightarrow> ('w, Config \<times> go_error option) state" where
  "LoadConfig vp = do {
     vp_SetConfigName vp ''config'';
     vp_SetConfigType vp ''yaml'';
     vp_AddConfigPath vp ''.'';
     res \<leftarrow> vp_ReadInConfig vp;
     case (case res of Inr _ \<Rightarrow> None
           | Inl err \<Rightarrow> if vp_is_ConfigFileNotFoundError vp err then None else Some err) of
       Some err \<Rightarrow> go_return (zero_Config, Some err)
     | None \<Rightarrow> do {
         do_all (\<lambda>(k, v). vp_SetDefault vp k v) config_defaults;
         corsStr \<leftarrow> vp_GetString vp ''CORS_ALLOWED_ORIGINS'';
         let config = zero_Config\<lparr>cf_CORSAllowedOrigins := cors_origins corsStr\<rparr>;
         vp_AutomaticEnv vp;
         vp_SetEnvKeyReplacer vp ''.'' ''_'';
         do_all (vp_BindEnv vp) bound_env_keys;
         vp_Unmarshal vp config
       }
   }"

section \<open>logging.go\<close>

datatype Level = DebugLevel | InfoLevel | WarnLevel | ErrorLevel

definition log_level :: "string \<Rightarrow> Level" where
  "log_level logLevel =
     (if logLevel = ''debug'' then DebugLevel
      else if logLevel = ''info'' then InfoLevel
      else if logLevel = ''warn'' then WarnLevel
      else if logLevel = ''error'' then ErrorLevel
      else InfoLevel)"

text \<open>
  \<open>zl_New\<close> is \<open>zerolog.New(w).With().Timestamp().Logger()\<close>; a logger is the function that writes one
  entry (level, fields, message).
\<close>

type_synonym 'w logger = "string \<Rightarrow> (string \<times> string) list \<Rightarrow> string \<Rightarrow> 'w proc"

datatype log_writer = ConsoleWriter string | OtherWriter string

record 'w zerolog_lib =
  zl_SetGlobalLevel :: "Level \<Rightarrow> 'w proc"
  zl_New :: "log_writer \<Rightarrow> 'w logger"

definition NewLogger :: "'w zerolog_lib \<Rightarrow> log_writer \<Rightarrow> string \<Rightarrow> ('w, 'w logger) state" where
  "NewLogger zl wr logLevel = do {
     zl_SetGlobalLevel zl (log_level logLevel);
     go_return (zl_New zl wr)
   }"

definition NewConsoleLogger :: "'w zerolog_lib \<Rightarrow> string \<Rightarrow> ('w, 'w logger) state" where
  "NewConsoleLogger zl logLevel = NewLogger zl (ConsoleWriter ''stderr'') logLevel"

end
