(* ===== verification/Router.thy ===== *)
theory Router
  imports Handlers Config
begin

text \<open>
  \<open>internal/transport/http/router.go\<close>. A chi router is a tree: a mux has the middleware of its \<open>Use\<close>
  calls and its entries, an endpoint has the inline middleware of \<open>With\<close> or \<open>Group\<close>. \<open>NewRouter\<close> builds
  the tree the code builds. chi itself is the argument \<open>ServeHTTP\<close>; the locale \<open>chi_dispatch\<close> states how it
  picks the endpoint when the choice is not a matter of priority (\<open>resolve\<close>), and \<open>ref_ServeHTTP\<close> is an instance. The middleware of chi, promhttp
  and \<open>http.ServeFile\<close> are arguments (\<open>http_libs\<close>).
\<close>

section \<open>Definitions\<close>

text \<open>
  \<open>Endpoint m p mws h\<close>: method (\<open>None\<close> for every method), pattern, inline middleware, handler.
  \<open>Mount p h\<close> hands every path below \<open>p\<close> to a handler, \<open>Route p mux\<close> to a sub-router.
\<close>

datatype 'w chi_mux = Mux "'w http_middleware list" "'w chi_entry list"
  and 'w chi_entry =
    Endpoint "string option" string "'w http_middleware list" "'w http_handler"
  | Mount string "'w http_handler"
  | Route string "'w chi_mux"

record 'w http_libs =
  hl_RealIP :: "'w http_middleware"
  hl_Recoverer :: "'w http_middleware"
  hl_Timeout :: "duration \<Rightarrow> 'w http_middleware"
  hl_cors_Handler :: "cors_Options \<Rightarrow> 'w http_middleware"
  hl_Profiler :: "'w http_handler"
  hl_promhttp :: "'w http_handler"
  hl_ServeFile :: "string \<Rightarrow> 'w http_handler"

text \<open>The collaborators \<open>NewRouter\<close> is given.\<close>

record 'w router_deps =
  rd_cfg :: Config
  rd_db :: "'w sql_DB"
  rd_redisClient :: "'w redis_client"
  rd_userRepo :: "'w UserRepository"
  rd_apiKeyRepo :: "'w APIKeyRepository"
  rd_logRepo :: "'w InferenceLogRepository"
  rd_profileSvc :: "'w ProfileService"
  rd_apiKeySvc :: "'w APIKeyService"
  rd_vendorSvc :: "'w VendorService"
  rd_authSvc :: "'w AuthService"
  rd_jwtSecret :: bytes

text \<open>The libraries behind the service's own middleware and handlers.\<close>

record 'w service_libs =
  sl_env :: "'w env"
  sl_ovf :: "float64 \<Rightarrow> int64"
  sl_jwt :: "'w jwt_lib"
  sl_validate :: "reflect_value \<Rightarrow> validation_error option"

definition global_stack :: "'w http_libs \<Rightarrow> 'w service_libs \<Rightarrow> 'w router_deps \<Rightarrow> 'w http_middleware list" where
  "global_stack hl sl d =
     [RequestID (sl_env sl), hl_RealIP hl, Logger (sl_env sl), hl_Recoverer hl,
      CORS (hl_cors_Handler hl) (cf_CORSAllowedOrigins (rd_cfg d)), hl_Timeout hl (15 * second)]"

definition jwt_auth :: "'w service_libs \<Rightarrow> 'w router_deps \<Rightarrow> 'w http_middleware" where
  "jwt_auth sl d = JWTAuth (sl_ovf sl) (sl_jwt sl) (rd_jwtSecret d) (rd_userRepo d)"

definition api_key_auth :: "'w service_libs \<Rightarrow> 'w router_deps \<Rightarrow> 'w http_middleware" where
  "api_key_auth sl d = APIKeyAuth (sl_env sl) (rd_apiKeyRepo d) (rd_userRepo d)"

definition vendor_auth :: "'w service_libs \<Rightarrow> 'w router_deps \<Rightarrow> 'w http_middleware" where
  "vendor_auth sl d = AuthEither (api_key_auth sl d) (jwt_auth sl d)"

definition limiter :: "'w service_libs \<Rightarrow> 'w router_deps \<Rightarrow> string \<Rightarrow> 'w http_middleware" where
  "limiter sl d endpoint = RateLimiter (sl_env sl) (rd_redisClient d) endpoint (cf_PredictRateLimit (rd_cfg d))
     (cf_PredictRateWindow (rd_cfg d))"

definition predict_handler :: "'w service_libs \<Rightarrow> 'w router_deps \<Rightarrow> 'w http_handler" where
  "predict_handler sl d = PredictHandler (sl_env sl) (sl_validate sl) (rd_vendorSvc d) (rd_logRepo d)"

definition v1_router :: "'w service_libs \<Rightarrow> 'w router_deps \<Rightarrow> 'w chi_mux" where
  "v1_router sl d = Mux []
     [Route ''/auth'' (Mux []
        [Endpoint (Some ''POST'') ''/sign-up'' [] (SignUpHandler (sl_validate sl) (rd_authSvc d)),
         Endpoint (Some ''POST'') ''/sign-in'' [] (SignInHandler (sl_validate sl) (rd_authSvc d)),
         Endpoint (Some ''GET'') ''/me'' [jwt_auth sl d] (MeHandler (rd_profileSvc d))]),
      Route ''/apikeys'' (Mux [jwt_auth sl d]
        [Endpoint (Some ''GET'') ''/'' [] (ListAPIKeysHandler (rd_apiKeySvc d)),
         Endpoint (Some ''POST'') ''/'' [] (APIKeyHandler (sl_validate sl) (rd_apiKeySvc d)),
         Endpoint (Some ''DELETE'') ''/{id}'' [] (DeleteAPIKeyHandler (rd_apiKeySvc d))]),
      Route ''/vendor'' (Mux [vendor_auth sl d]
        [Endpoint (Some ''GET'') ''/ping'' [] (VendorPingHandler (rd_vendorSvc d))]),
      Route ''/inference'' (Mux [vendor_auth sl d]
        [Endpoint (Some ''GET'') ''/models'' [limiter sl d ''/v1/inference/models''] (ListModelsHandler (rd_vendorSvc d)),
         Endpoint (Some ''POST'') ''/predict'' [limiter sl d ''/v1/inference/predict'', jwt_auth sl d] (predict_handler sl d)]),
      Route ''/fraud'' (Mux [api_key_auth sl d]
        [Endpoint (Some ''POST'') ''/predict'' [limiter sl d ''/v1/fraud/predict''] (predict_handler sl d)])]"

definition NewRouter :: "'w http_libs \<Rightarrow> 'w service_libs \<Rightarrow> 'w router_deps \<Rightarrow> 'w chi_mux" where
  "NewRouter hl sl d = Mux (global_stack hl sl d)
     ([Endpoint None ''/metrics'' [] (hl_promhttp hl)]
      @ (if cf_Debug (rd_cfg d) then [Mount ''/debug'' (hl_Profiler hl)] else [])
      @ [Endpoint None ''/healthz'' [] HealthzHandler,
         Endpoint None ''/readyz'' [] (ReadinessHandler (rd_db d) (rd_redisClient d)),
         Endpoint (Some ''GET'') ''/swagger/*'' [] (hl_ServeFile hl ''api/openapi.yaml''),
         Route ''/v1'' (v1_router sl d)])"

section \<open>Routing\<close>

text \<open>
  Patterns and paths are compared segment by segment: \<open>{x}\<close> takes one non-empty segment, a final
  \<open>*\<close> the rest. A sub-router sees what is left after its prefix, \<open>/\<close> when nothing is.
\<close>

definition segments :: "string \<Rightarrow> string list" where
  "segments p = strings_Split (drop 1 p) (CHR ''/'')"

fun match_segments :: "string list \<Rightarrow> string list \<Rightarrow> (string \<times> string) list option" where
  "match_segments [] ss = (if ss = [] then Some [] else None)"
| "match_segments (p # ps) ss =
     (case ss of
        [] \<Rightarrow> None
      | s # ss' \<Rightarrow>
          if p = ''*'' \<and> ps = [] then Some [(''*'', join ''/'' ss)]
          else if p \<noteq> [] \<and> hd p = CHR ''{'' then
            (if s = [] then None else map_option (Cons (butlast (tl p), s)) (match_segments ps ss'))
          else if p = s then match_segments ps ss' else None)"

fun strip_prefix :: "string list \<Rightarrow> string list \<Rightarrow> string list option" where
  "strip_prefix [] ss = Some (if ss = [] then [[]] else ss)"
| "strip_prefix (p # ps) ss = (case ss of [] \<Rightarrow> None | s # ss' \<Rightarrow> if p = s then strip_prefix ps ss' else None)"

type_synonym 'w target = "'w http_middleware list \<times> (string \<times> string) list \<times> 'w http_handler"

text \<open>
  chi prefers static segments to parameters and parameters to \<open>*\<close>, so the order of registration does not
  decide between two entries that match. \<open>resolve\<close> only answers when there is nothing to decide: at every
  mux on the way exactly one entry matches the path and the method.
\<close>

fun applies :: "string \<Rightarrow> 'w chi_entry \<Rightarrow> string list \<Rightarrow> bool" where
  "applies m (Endpoint em p mws h) ss \<longleftrightarrow> (em = None \<or> em = Some m) \<and> match_segments (segments p) ss \<noteq> None"
| "applies m (Mount p h) ss \<longleftrightarrow> strip_prefix (segments p) ss \<noteq> None"
| "applies m (Route p mux) ss \<longleftrightarrow> strip_prefix (segments p) ss \<noteq> None"

fun resolve :: "string \<Rightarrow> 'w chi_mux \<Rightarrow> string list \<Rightarrow> 'w target option"
  and resolve_entries :: "string \<Rightarrow> 'w chi_entry list \<Rightarrow> string list \<Rightarrow> 'w target option list"
  and resolve_entry :: "string \<Rightarrow> 'w chi_entry \<Rightarrow> string list \<Rightarrow> 'w target option" where
  "resolve m (Mux mws es) ss =
     (case resolve_entries m es ss of [Some (ms, ps, h)] \<Rightarrow> Some (mws @ ms, ps, h) | _ \<Rightarrow> None)"
| "resolve_entries m [] ss = []"
| "resolve_entries m (e # es) ss =
     (if applies m e ss then [resolve_entry m e ss] else []) @ resolve_entries m es ss"
| "resolve_entry m (Endpoint em p mws h) ss = map_option (\<lambda>ps. (mws, ps, h)) (match_segments (segments p) ss)"
| "resolve_entry m (Mount p h) ss = map_option (\<lambda>rest. ([], [(''*'', join ''/'' rest)], h)) (strip_prefix (segments p) ss)"
| "resolve_entry m (Route p mux) ss =
     (case strip_prefix (segments p) ss of None \<Rightarrow> None | Some rest \<Rightarrow> resolve m mux rest)"

definition url_params :: "(string \<times> string) list \<Rightarrow> string \<Rightarrow> string" where
  "url_params ps k = (case map_of ps k of None \<Rightarrow> [] | Some v \<Rightarrow> v)"

definition serve_target :: "'w target \<Rightarrow> 'w http_handler" where
  "serve_target t w r = (case t of (mws, ps, h) \<Rightarrow> Chain mws h w (r\<lparr>rq_urlparam := url_params ps\<rparr>))"

text \<open>
  A mux runs its middleware first and routes what they hand on, with the parameters of the path added.
  Routing the original request is the same for middleware that hands on the method and the path it got
  and does not read the parameters.
\<close>

definition route_neutral :: "'w http_middleware \<Rightarrow> bool" where
  "route_neutral mw \<longleftrightarrow>
     (\<forall>h w r f. mw h w (r\<lparr>rq_urlparam := f\<rparr>) = mw (\<lambda>w' r'. h w' (r'\<lparr>rq_urlparam := f\<rparr>)) w r) \<and>
     (\<forall>h h' w r. (\<forall>w' r'. rq_method r' = rq_method r \<longrightarrow> rq_path r' = rq_path r \<longrightarrow> h w' r' = h' w' r') \<longrightarrow>
        mw h w r = mw h' w r)"

text \<open>The methods chi knows; it refuses any other before it looks at the path.\<close>

definition chi_methods :: "string list" where
  "chi_methods = [''CONNECT'', ''DELETE'', ''GET'', ''HEAD'', ''OPTIONS'', ''PATCH'', ''POST'', ''PUT'', ''TRACE'']"

locale chi_dispatch =
  fixes ServeHTTP :: "'w chi_mux \<Rightarrow> 'w http_handler"
  assumes dispatch: "rq_method r \<in> set chi_methods \<Longrightarrow> resolve (rq_method r) mux (segments (rq_path r)) = Some t \<Longrightarrow>
    \<forall>mw \<in> set (fst t). route_neutral mw \<Longrightarrow> ServeHTTP mux w r = serve_target t w r"

text \<open>An instance; it answers 404 where chi answers 404 or 405.\<close>

definition ref_ServeHTTP :: "'w chi_mux \<Rightarrow> 'w http_handler" where
  "ref_ServeHTTP mux w r =
     (case resolve (rq_method r) mux (segments (rq_path r)) of
        Some t \<Rightarrow> serve_target t w r
      | None \<Rightarrow> go_return (http_Error ''404 page not found'' 404 w))"

text \<open>The service's own middleware is neutral; that of chi is so by its documentation.\<close>

definition neutral_libs :: "'w http_libs \<Rightarrow> bool" where
  "neutral_libs hl \<longleftrightarrow> route_neutral (hl_RealIP hl) \<and> route_neutral (hl_Recoverer hl) \<and>
     (\<forall>t. route_neutral (hl_Timeout hl t)) \<and> (\<forall>opts. route_neutral (hl_cors_Handler hl opts))"

lemma route_neutralI:
  assumes "\<And>h w r f. mw h w (r\<lparr>rq_urlparam := f\<rparr>) = mw (\<lambda>w' r'. h w' (r'\<lparr>rq_urlparam := f\<rparr>)) w r"
    and "\<And>h h' w r. (\<And>w' r'. rq_method r' = rq_method r \<Longrightarrow> rq_path r' = rq_path r \<Longrightarrow> h w' r' = h' w' r') \<Longrightarrow> mw h w r = mw h' w r"
  shows "route_neutral mw"
  using assms unfolding route_neutral_def by blast

lemma neutral_RequestID [simp]: "route_neutral (RequestID env)"
proof (rule route_neutralI)
  show "RequestID env h w (r\<lparr>rq_urlparam := f\<rparr>) = RequestID env (\<lambda>w' r'. h w' (r'\<lparr>rq_urlparam := f\<rparr>)) w r" for h w r f
    by (cases r) (simp add: RequestID_def)
qed (simp add: RequestID_def)

lemma neutral_Logger [simp]: "route_neutral (Logger env)"
  by (rule route_neutralI) (simp_all add: Logger_def)

lemma neutral_finalAuthCheck [simp]: "route_neutral finalAuthCheck"
  by (rule route_neutralI) (simp_all add: finalAuthCheck_def)

lemma with_identity_route [simp]:
  "with_identity (r\<lparr>rq_urlparam := f\<rparr>) i = (with_identity r i)\<lparr>rq_urlparam := f\<rparr>"
  "rq_method (with_identity r i) = rq_method r" "rq_path (with_identity r i) = rq_path r"
  by (cases r; simp add: with_identity_def)+

lemma neutral_JWTAuth [simp]: "route_neutral (JWTAuth ovf jwt secret ur)"
  by (rule route_neutralI) (simp_all add: JWTAuth_def Let_def cong: option.case_cong if_cong)

lemma neutral_APIKeyAuth [simp]: "route_neutral (APIKeyAuth env ar ur)"
  by (rule route_neutralI) (simp_all add: APIKeyAuth_def Let_def cong: if_cong)

lemma neutral_RateLimiter [simp]: "route_neutral (RateLimiter env rc ep lmt win)"
  by (rule route_neutralI) (simp_all add: RateLimiter_def limit_decision_def Let_def cong: option.case_cong if_cong)

lemma neutral_comp:
  assumes "route_neutral m" "route_neutral n"
  shows "route_neutral (\<lambda>h. m (n h))"
proof (rule route_neutralI)
  show "m (n h) w (r\<lparr>rq_urlparam := f\<rparr>) = m (n (\<lambda>w' r'. h w' (r'\<lparr>rq_urlparam := f\<rparr>))) w r" for h w r f
  proof -
    have "n h w' (r'\<lparr>rq_urlparam := f\<rparr>) = n (\<lambda>w' r'. h w' (r'\<lparr>rq_urlparam := f\<rparr>)) w' r'" for w' r'
      using assms(2) unfolding route_neutral_def by blast
    then have "n (\<lambda>w' r'. h w' (r'\<lparr>rq_urlparam := f\<rparr>)) = (\<lambda>w' r'. n h w' (r'\<lparr>rq_urlparam := f\<rparr>))"
      by (intro ext) simp
    then show ?thesis using assms(1) unfolding route_neutral_def by metis
  qed
next
  fix h h' :: "'a http_handler" and w and r :: request
  assume same: "\<And>w' r'. rq_method r' = rq_method r \<Longrightarrow> rq_path r' = rq_path r \<Longrightarrow> h w' r' = h' w' r'"
  have n: "n h w' r' = n h' w' r'" if "rq_method r' = rq_method r" "rq_path r' = rq_path r" for w' r'
  proof -
    have "\<forall>w'' r''. rq_method r'' = rq_method r' \<longrightarrow> rq_path r'' = rq_path r' \<longrightarrow> h w'' r'' = h' w'' r''"
      using same that by simp
    then show ?thesis using assms(2) unfolding route_neutral_def by blast
  qed
  then have "\<forall>w' r'. rq_method r' = rq_method r \<longrightarrow> rq_path r' = rq_path r \<longrightarrow> n h w' r' = n h' w' r'" by blast
  then show "m (n h) w r = m (n h') w r"
    using assms(1) unfolding route_neutral_def by blast
qed

lemma neutral_AuthEither [simp]:
  assumes "route_neutral a" "route_neutral j"
  shows "route_neutral (AuthEither a j)"
proof -
  have "AuthEither a j = (\<lambda>h. a ((\<lambda>h. j (finalAuthCheck h)) h))"
    by (intro ext) (simp add: AuthEither_def Chain_def)
  then show ?thesis
    using neutral_comp [OF assms(1) neutral_comp [OF assms(2) neutral_finalAuthCheck]] by simp
qed

interpretation ref_chi: chi_dispatch ref_ServeHTTP
  by unfold_locales (simp add: ref_ServeHTTP_def)

end
