(* ===== verification/Routes.thy ===== *)
theory Routes
  imports Router Tokens
begin

text \<open>
  Properties of the route table: every endpoint of the API answers every request, protected endpoints
  refuse requests without credentials before touching anything, and no handler behind \<open>AuthEither\<close>
  runs without an identity. \<open>answers\<close> and \<open>refuses\<close> are shown for each handler and each middleware
  once; the theorems fold them over the tree \<open>NewRouter\<close> builds.
\<close>

section \<open>Definitions\<close>

text \<open>A handler answers if it always commits a response on a fresh writer.\<close>

definition committed :: "response_writer \<Rightarrow> bool" where
  "committed w \<longleftrightarrow> rw_sent w \<noteq> None"

definition answers :: "'w http_handler \<Rightarrow> bool" where
  "answers h \<longleftrightarrow> (\<forall>w rq s a s'. \<not> committed w \<longrightarrow> runs_to (h w rq) s a s' \<longrightarrow> committed a)"

text \<open>A request that carries neither an API key nor a bearer token and has no identity.\<close>

definition anonymous :: "request \<Rightarrow> bool" where
  "anonymous rq \<longleftrightarrow> IdentityFrom (rq_ctx rq) = None \<and> Header_Get (rq_header rq) ''X-API-Key'' = []
     \<and> Header_Get (rq_header rq) ''Authorization'' = []"

text \<open>A handler refuses anonymous requests with a status, leaving the world alone.\<close>

definition refuses :: "nat \<Rightarrow> 'w http_handler \<Rightarrow> bool" where
  "refuses code h \<longleftrightarrow> (\<forall>w rq s a s'. rw_sent w = None \<longrightarrow> anonymous rq \<longrightarrow> runs_to (h w rq) s a s' \<longrightarrow>
     rw_status a = code \<and> s' = s)"

text \<open>The endpoints below a router, with their path, full middleware stack and handler.\<close>

type_synonym 'w endpoint = "string option \<times> string \<times> 'w http_middleware list \<times> 'w http_handler"

fun endpoints :: "'w chi_mux \<Rightarrow> 'w endpoint list"
  and entry_endpoints :: "'w chi_entry \<Rightarrow> 'w endpoint list" where
  "endpoints (Mux mws es) = map (\<lambda>(m, p, ms, h). (m, p, mws @ ms, h)) (concat (map entry_endpoints es))"
| "entry_endpoints (Endpoint m p mws h) = [(m, p, mws, h)]"
| "entry_endpoints (Mount p h) = [(None, p @ ''/*'', [], h)]"
| "entry_endpoints (Route p mux) = map (\<lambda>(m, q, ms, h). (m, p @ q, ms, h)) (endpoints mux)"

text \<open>
  The route table as a reader of the API would write it, every stack spelled out from the outside to the
  handler: method, full pattern, middleware, handler.
\<close>

definition documented_routes ::
  "'w http_libs \<Rightarrow> 'w service_libs \<Rightarrow> 'w router_deps \<Rightarrow> (string \<times> string \<times> 'w http_middleware list \<times> 'w http_handler) list" where
  "documented_routes hl sl d =
     (let env = sl_env sl;
          all = [RequestID env, hl_RealIP hl, Logger env, hl_Recoverer hl,
                 CORS (hl_cors_Handler hl) (cf_CORSAllowedOrigins (rd_cfg d)), hl_Timeout hl 15000000000];
          jwt = JWTAuth (sl_ovf sl) (sl_jwt sl) (rd_jwtSecret d) (rd_userRepo d);
          key = APIKeyAuth env (rd_apiKeyRepo d) (rd_userRepo d);
          limit = (\<lambda>path. RateLimiter env (rd_redisClient d) path (cf_PredictRateLimit (rd_cfg d)) (cf_PredictRateWindow (rd_cfg d)));
          predict = PredictHandler env (sl_validate sl) (rd_vendorSvc d) (rd_logRepo d)
      in [(''GET'', ''/healthz'', all, HealthzHandler),
          (''GET'', ''/readyz'', all, ReadinessHandler (rd_db d) (rd_redisClient d)),
          (''GET'', ''/metrics'', all, hl_promhttp hl),
          (''GET'', ''/swagger/*'', all, hl_ServeFile hl ''api/openapi.yaml''),
          (''POST'', ''/v1/auth/sign-up'', all, SignUpHandler (sl_validate sl) (rd_authSvc d)),
          (''POST'', ''/v1/auth/sign-in'', all, SignInHandler (sl_validate sl) (rd_authSvc d)),
          (''GET'', ''/v1/auth/me'', all @ [jwt], MeHandler (rd_profileSvc d)),
          (''GET'', ''/v1/apikeys'', all @ [jwt], ListAPIKeysHandler (rd_apiKeySvc d)),
          (''GET'', ''/v1/apikeys/'', all @ [jwt], ListAPIKeysHandler (rd_apiKeySvc d)),
          (''POST'', ''/v1/apikeys'', all @ [jwt], APIKeyHandler (sl_validate sl) (rd_apiKeySvc d)),
          (''POST'', ''/v1/apikeys/'', all @ [jwt], APIKeyHandler (sl_validate sl) (rd_apiKeySvc d)),
          (''DELETE'', ''/v1/apikeys/{id}'', all @ [jwt], DeleteAPIKeyHandler (rd_apiKeySvc d)),
          (''GET'', ''/v1/vendor/ping'', all @ [AuthEither key jwt], VendorPingHandler (rd_vendorSvc d)),
          (''GET'', ''/v1/inference/models'', all @ [AuthEither key jwt, limit ''/v1/inference/models''],
             ListModelsHandler (rd_vendorSvc d)),
          (''POST'', ''/v1/inference/predict'', all @ [AuthEither key jwt, limit ''/v1/inference/predict'', jwt], predict),
          (''POST'', ''/v1/fraud/predict'', all @ [key, limit ''/v1/fraud/predict''], predict)])"

section \<open>Answering\<close>

lemma committed_simps [simp]:
  "committed (RespondWithJSON w c p)" "committed (RespondWithError w c m)" "committed (WriteHeader c w)" "committed (Write bs w)"
  "committed (SetHeader k v w) = committed w"
  by (simp_all add: committed_def RespondWithError_def RespondWithJSON_def http_Error_def rw_sent_Write rw_sent_WriteHeader
      split: option.splits)

lemma answersI:
  "(\<And>w rq s a s'. \<not> committed w \<Longrightarrow> runs_to (h w rq) s a s' \<Longrightarrow> committed a) \<Longrightarrow> answers h"
  unfolding answers_def by blast

lemma answersD: "answers h \<Longrightarrow> \<not> committed w \<Longrightarrow> runs_to (h w rq) s a s' \<Longrightarrow> committed a"
  unfolding answers_def by blast

lemma answers_basic: "answers HealthzHandler" "answers (ReadinessHandler db rc)" "answers (MeHandler p)" "answers (ProfileHandler p)"
  by (rule answersI; auto simp: HealthzHandler_def ReadinessHandler_def MeHandler_def ProfileHandler_def go_run
      split: sum.split option.split)+

lemma answers_keys: "answers (APIKeyHandler v ks)" "answers (ListAPIKeysHandler ks)" "answers (DeleteAPIKeyHandler ks)"
  by (rule answersI; auto simp: APIKeyHandler_def ListAPIKeysHandler_def DeleteAPIKeyHandler_def go_run Let_def
      split: sum.split option.split prod.split)+

lemma answers_vendor: "answers (VendorPingHandler vs)" "answers (ListModelsHandler vs)"
  by (rule answersI; auto simp: VendorPingHandler_def ListModelsHandler_def go_run split: sum.split option.split)+

lemma answers_auth: "answers (SignUpHandler v as)" "answers (SignInHandler v as)"
  by (rule answersI; auto simp: SignUpHandler_def SignInHandler_def go_run
      split: sum.split option.split prod.split)+

lemma answers_predict: "answers (PredictHandler env v vs lr)"
  by (rule answersI) (auto simp: PredictHandler_def recovered_panic_def go_run Let_def
      split: sum.split option.split prod.split)

text \<open>Middleware that either answers itself or hands the request on keeps a handler answering.\<close>

lemma answers_APIKeyAuth: "answers h \<Longrightarrow> answers (APIKeyAuth env ar ur h)"
  by (rule answersI) (auto simp: APIKeyAuth_def Let_def go_run dest: answersD)

lemma answers_JWTAuth: "answers h \<Longrightarrow> answers (JWTAuth ovf jwt secret ur h)"
  by (rule answersI) (auto simp: JWTAuth_def Let_def go_run dest: answersD)

lemma answers_finalAuthCheck: "answers h \<Longrightarrow> answers (finalAuthCheck h)"
  by (rule answersI) (auto simp: finalAuthCheck_def go_run dest: answersD)

lemma answers_limit_decision: "answers h \<Longrightarrow> answers (limit_decision lmt c ttl h)"
  by (rule answersI) (auto simp: limit_decision_def Let_def go_run dest: answersD [rotated 2])

lemma answers_RateLimiter: "answers h \<Longrightarrow> answers (RateLimiter env rc ep lmt win h)"
  by (rule answersI)
    (auto simp: RateLimiter_def Let_def go_run dest: answersD [OF answers_limit_decision, rotated 2])

lemma Chain_simps [simp]: "Chain [] h = h" "Chain (m # ms) h = m (Chain ms h)"
  by (simp_all add: Chain_def)

lemma Chain_append: "Chain (ms @ ns) h = Chain ms (Chain ns h)"
  by (induction ms) simp_all

lemmas answers_rules =
  answers_basic answers_keys answers_vendor answers_auth answers_predict
  answers_APIKeyAuth answers_JWTAuth answers_finalAuthCheck answers_RateLimiter

lemma answers_route:
  "(m, p, mws, h) \<in> set (endpoints (v1_router sl d)) \<Longrightarrow> answers (Chain mws h)"
  by (auto simp: v1_router_def jwt_auth_def api_key_auth_def vendor_auth_def limiter_def predict_handler_def AuthEither_def
      intro!: answers_rules)

section \<open>Refusing\<close>

lemma refusesI:
  "(\<And>w rq s a s'. rw_sent w = None \<Longrightarrow> anonymous rq \<Longrightarrow> runs_to (h w rq) s a s' \<Longrightarrow> rw_status a = code \<and> s' = s) \<Longrightarrow>
   refuses code h"
  unfolding refuses_def by blast

lemma refusesD:
  "refuses code h \<Longrightarrow> rw_sent w = None \<Longrightarrow> anonymous rq \<Longrightarrow> runs_to (h w rq) s a s' \<Longrightarrow> rw_status a = code \<and> s' = s"
  unfolding refuses_def by blast

lemma refuses_handlers:
  "refuses 401 (MeHandler p)" "refuses 401 (ListAPIKeysHandler ks)" "refuses 401 (APIKeyHandler v ks)"
  "refuses 401 (DeleteAPIKeyHandler ks)"
  by (rule refusesI; simp add: anonymous_def MeHandler_def ListAPIKeysHandler_def APIKeyHandler_def DeleteAPIKeyHandler_def
      status_RespondWithJSON code_message_def)+

lemma refuses_finalAuthCheck: "refuses 401 (finalAuthCheck h)"
  by (rule refusesI) (simp add: anonymous_def finalAuthCheck_def)

lemma refuses_RateLimiter: "refuses 500 (RateLimiter env rc ep lmt win h)"
  by (rule refusesI) (simp add: anonymous_def RateLimiter_def)

text \<open>The two credential checks hand an anonymous request on unchanged.\<close>

lemma anonymous_passes:
  assumes "anonymous rq"
  shows "APIKeyAuth env ar ur h w rq = h w rq" "JWTAuth ovf jwt secret ur h w rq = h w rq"
  using assms by (simp_all add: anonymous_def APIKeyAuth_def JWTAuth_def)

lemma refuses_auth:
  assumes "refuses code h"
  shows "refuses code (APIKeyAuth env ar ur h)" "refuses code (JWTAuth ovf jwt secret ur h)"
  by (rule refusesI; simp add: anonymous_passes refusesD [OF assms])+

lemmas refuses_rules = refuses_handlers refuses_finalAuthCheck refuses_RateLimiter refuses_auth

lemma refuses_routes:
  "list_all (\<lambda>(m, p, mws, h). p = ''/auth/sign-up'' \<or> p = ''/auth/sign-in'' \<or>
     refuses (if p = ''/fraud/predict'' then 500 else 401) (Chain mws h)) (endpoints (v1_router sl d))"
  by (simp add: v1_router_def jwt_auth_def api_key_auth_def vendor_auth_def limiter_def AuthEither_def refuses_rules)

lemma refuses_route:
  assumes "(m, p, mws, h) \<in> set (endpoints (v1_router sl d))" "p \<notin> {''/auth/sign-up'', ''/auth/sign-in''}"
  shows "refuses (if p = ''/fraud/predict'' then 500 else 401) (Chain mws h)"
  using refuses_routes [of sl d] assms unfolding list_all_iff by blast

text \<open>Behind a check in the middleware an anonymous request never gets to the handler.\<close>

lemma handler_blind_routes:
  assumes "anonymous rq"
  shows "list_all (\<lambda>(m, p, mws, h). p \<in> {''/auth/sign-up'', ''/auth/sign-in'', ''/auth/me'', ''/apikeys/'', ''/apikeys/{id}''} \<or>
     (\<forall>h' w. Chain mws h' w rq = Chain mws h w rq)) (endpoints (v1_router sl d))"
  using assms by (simp add: v1_router_def jwt_auth_def api_key_auth_def vendor_auth_def limiter_def AuthEither_def
      anonymous_passes finalAuthCheck_def RateLimiter_def anonymous_def)

lemma handler_blind_route:
  assumes "(m, p, mws, h) \<in> set (endpoints (v1_router sl d))"
    "p \<notin> {''/auth/sign-up'', ''/auth/sign-in'', ''/auth/me'', ''/apikeys/'', ''/apikeys/{id}''}" "anonymous rq"
  shows "Chain mws h' w rq = Chain mws h w rq"
  using bspec [OF handler_blind_routes [OF assms(3), unfolded list_all_iff] assms(1)] assms(2) by simp

section \<open>The route table\<close>

lemma match_segments_static:
  "p \<noteq> ''*'' \<Longrightarrow> p = [] \<or> hd p \<noteq> CHR ''{'' \<Longrightarrow>
   match_segments (p # ps) ss = Some xs \<longleftrightarrow> (\<exists>ss'. ss = p # ss' \<and> match_segments ps ss' = Some xs)"
  by (auto split: list.splits)

lemma match_segments_end: "match_segments [] ss = Some xs \<longleftrightarrow> ss = [] \<and> xs = []"
  by auto

lemma match_segments_param:
  "hd p = CHR ''{'' \<Longrightarrow> p \<noteq> [] \<Longrightarrow> match_segments [p] ss = Some xs \<longleftrightarrow> (\<exists>v. v \<noteq> [] \<and> ss = [v] \<and> xs = [(butlast (tl p), v)])"
  by (auto split: list.splits if_splits)

lemma match_segments_star:
  "match_segments [''*''] ss = Some xs \<longleftrightarrow> ss \<noteq> [] \<and> xs = [(''*'', join ''/'' ss)]"
  by (auto split: list.splits)

text \<open>The router resolves a path mux by mux.\<close>

lemma resolve_v1:
  "resolve m (NewRouter hl sl d) (''v1'' # s # ss) =
     map_option (\<lambda>(ms, ps, h). (global_stack hl sl d @ ms, ps, h)) (resolve m (v1_router sl d) (s # ss))"
  by (cases "resolve m (v1_router sl d) (s # ss)") (auto simp: NewRouter_def segments_def)

lemma resolve_top:
  "resolve ''GET'' (NewRouter hl sl d) [''healthz''] = Some (global_stack hl sl d, [], HealthzHandler)"
  "resolve ''GET'' (NewRouter hl sl d) [''readyz''] = Some (global_stack hl sl d, [], ReadinessHandler (rd_db d) (rd_redisClient d))"
  "resolve ''GET'' (NewRouter hl sl d) [''metrics''] = Some (global_stack hl sl d, [], hl_promhttp hl)"
  "ss \<noteq> [] \<Longrightarrow> resolve ''GET'' (NewRouter hl sl d) (''swagger'' # ss) =
     Some (global_stack hl sl d, [(''*'', join ''/'' ss)], hl_ServeFile hl ''api/openapi.yaml'')"
  by (simp_all add: NewRouter_def segments_def split: list.split)

lemma resolve_auth:
  "resolve ''POST'' (v1_router sl d) [''auth'', ''sign-up''] = Some ([], [], SignUpHandler (sl_validate sl) (rd_authSvc d))"
  "resolve ''POST'' (v1_router sl d) [''auth'', ''sign-in''] = Some ([], [], SignInHandler (sl_validate sl) (rd_authSvc d))"
  "resolve ''GET'' (v1_router sl d) [''auth'', ''me''] = Some ([jwt_auth sl d], [], MeHandler (rd_profileSvc d))"
  by (simp_all add: v1_router_def segments_def)

lemma resolve_apikeys:
  "resolve ''GET'' (v1_router sl d) [''apikeys''] = Some ([jwt_auth sl d], [], ListAPIKeysHandler (rd_apiKeySvc d))"
  "resolve ''GET'' (v1_router sl d) [''apikeys'', []] = Some ([jwt_auth sl d], [], ListAPIKeysHandler (rd_apiKeySvc d))"
  "resolve ''POST'' (v1_router sl d) [''apikeys''] = Some ([jwt_auth sl d], [], APIKeyHandler (sl_validate sl) (rd_apiKeySvc d))"
  "resolve ''POST'' (v1_router sl d) [''apikeys'', []] = Some ([jwt_auth sl d], [], APIKeyHandler (sl_validate sl) (rd_apiKeySvc d))"
  "v \<noteq> [] \<Longrightarrow> resolve ''DELETE'' (v1_router sl d) [''apikeys'', v] =
     Some ([jwt_auth sl d], [(''id'', v)], DeleteAPIKeyHandler (rd_apiKeySvc d))"
  by (simp_all add: v1_router_def segments_def)

lemma resolve_vendor:
  "resolve ''GET'' (v1_router sl d) [''vendor'', ''ping''] = Some ([vendor_auth sl d], [], VendorPingHandler (rd_vendorSvc d))"
  "resolve ''GET'' (v1_router sl d) [''inference'', ''models''] =
     Some ([vendor_auth sl d, limiter sl d ''/v1/inference/models''], [], ListModelsHandler (rd_vendorSvc d))"
  "resolve ''POST'' (v1_router sl d) [''inference'', ''predict''] =
     Some ([vendor_auth sl d, limiter sl d ''/v1/inference/predict'', jwt_auth sl d], [], predict_handler sl d)"
  "resolve ''POST'' (v1_router sl d) [''fraud'', ''predict''] =
     Some ([api_key_auth sl d, limiter sl d ''/v1/fraud/predict''], [], predict_handler sl d)"
  by (simp_all add: v1_router_def segments_def)

lemma resolve_routes:
  "list_all (\<lambda>(m, pat, stack, h). m \<in> set chi_methods \<and> (\<forall>ss ps. match_segments (segments pat) ss = Some ps \<longrightarrow>
     resolve m (NewRouter hl sl d) ss = Some (stack, ps, h))) (documented_routes hl sl d)"
  by (simp add: documented_routes_def chi_methods_def Let_def segments_def match_segments_static match_segments_end match_segments_param
      match_segments_star del: match_segments.simps)
    (auto simp: resolve_v1 resolve_top resolve_auth resolve_apikeys resolve_vendor global_stack_def jwt_auth_def api_key_auth_def
      vendor_auth_def limiter_def predict_handler_def second_def)

lemma resolve_route:
  assumes "(m, pat, stack, h) \<in> set (documented_routes hl sl d)" "match_segments (segments pat) ss = Some ps"
  shows "m \<in> set chi_methods" "resolve m (NewRouter hl sl d) ss = Some (stack, ps, h)"
  using resolve_routes [of hl sl d] assms unfolding list_all_iff by blast+

lemma neutral_stacks:
  "neutral_libs hl \<Longrightarrow> list_all (\<lambda>(m, pat, stack, h). \<forall>mw \<in> set stack. route_neutral mw) (documented_routes hl sl d)"
  by (simp add: documented_routes_def Let_def neutral_libs_def CORS_def)

lemma neutral_stack:
  assumes "neutral_libs hl" "(m, pat, stack, h) \<in> set (documented_routes hl sl d)"
  shows "\<forall>mw \<in> set stack. route_neutral mw"
  using neutral_stacks [OF assms(1), of sl d] assms(2) unfolding list_all_iff by blast

section \<open>A reference deployment\<close>

text \<open>The service on the reference servers, with the default limits.\<close>

definition ref_cfg :: Config where
  "ref_cfg = zero_Config\<lparr>cf_PredictRateLimit := 60, cf_PredictRateWindow := 60 * second, cf_CORSAllowedOrigins := [''*'']\<rparr>"

definition ref_sql_DB :: "world sql_DB" where
  "ref_sql_DB = \<lparr>sd_DBTX = ref_DBTX, sd_PingContext = pg_call (\<lambda>w. (Inr (), w)), sd_SetMaxOpenConns = (\<lambda>_. go_return ()),
     sd_SetMaxIdleConns = (\<lambda>_. go_return ()), sd_SetConnMaxLifetime = (\<lambda>_. go_return ()), sd_Close = go_return ()\<rparr>"

definition ref_libs :: "world service_libs" where
  "ref_libs = \<lparr>sl_env = ref_env, sl_ovf = (\<lambda>_. 0), sl_jwt = ref_jwt, sl_validate = ref_validate\<rparr>"

definition ref_deps :: "world router_deps" where
  "ref_deps = (let q = New ref_DBTX; ur = NewUserRepository q; ar = NewAPIKeyRepository q (Some (ref_redis False)) (3600 * second)
     in \<lparr>rd_cfg = ref_cfg, rd_db = ref_sql_DB, rd_redisClient = ref_redis False, rd_userRepo = ur, rd_apiKeyRepo = ar,
         rd_logRepo = NewInferenceLogRepository q, rd_profileSvc = NewProfileService ur, rd_apiKeySvc = NewAPIKeyService ref_env ar,
         rd_vendorSvc = NewVendorService (\<lambda>_. 0) ref_env ref_telemetry ref_client,
         rd_authSvc = NewAuthService ref_env ref_jwt \<lparr>GenerateFromPassword = (\<lambda>pw c. go_return (Inr pw)),
           CompareHashAndPassword = (\<lambda>h pw. if h = pw then Inr () else Inl (ErrorString ''mismatch''))\<rparr> ur ''k'' (24 * 3600 * second),
         rd_jwtSecret = ''k''\<rparr>)"

lemma anonymous_request: "anonymous (request_with ''Accept'' ''*/*'')"
proof -
  have "CanonicalMIMEHeaderKey ''Accept'' \<noteq> CanonicalMIMEHeaderKey ''X-API-Key''"
    "CanonicalMIMEHeaderKey ''Accept'' \<noteq> CanonicalMIMEHeaderKey ''Authorization''"
    by code_simp+
  then show ?thesis
    by (simp add: anonymous_def request_with_def IdentityFrom_def Header_Get_def Header_Set_def)
qed

section \<open>Theorems\<close>

text \<open>
  C15. Every endpoint of the API answers: whatever the services behind it return, its middleware stack
  and handler commit a response for every request (no request is left without a status).
\<close>

theorem every_route_answers:
  assumes "(m, p, mws, h) \<in> set (endpoints (v1_router sl d))"
    and "rw_sent w = None" "runs_to (Chain mws h w rq) s a s'"
  shows "rw_sent a \<noteq> None"
  using answersD [OF answers_route [OF assms(1)] _ assms(3)] assms(2) by (simp add: committed_def)

theorem every_route_answers_witness:
  "rw_sent (val_of (Chain [vendor_auth ref_libs ref_deps] (VendorPingHandler (rd_vendorSvc ref_deps)) new_writer
     (request_with ''X-API-Key'' ''guess'')) world1) \<noteq> None"
proof -
  have "(Some ''GET'', ''/vendor/ping'', [vendor_auth ref_libs ref_deps], VendorPingHandler (rd_vendorSvc ref_deps))
     \<in> set (endpoints (v1_router ref_libs ref_deps))"
    by (simp add: v1_router_def)
  from every_route_answers [OF this rw_sent_new_writer runs_to_val_of] show ?thesis .
qed

text \<open>
  C10. Without credentials nothing happens: every endpoint below \<open>/v1\<close> but sign-up and sign-in refuses a
  request that carries neither an API key nor a token, without any call to the database, Redis or the
  vendor. The status is 401, except for \<open>/v1/fraud/predict\<close>, where the rate limiter answers 500 because
  that route has no check between the API-key lookup and the limiter. On the vendor, inference and fraud
  routes the middleware refuses, whatever the handler is; on \<open>/v1/auth/me\<close> and below \<open>/v1/apikeys\<close> the
  token check lets the request pass and the handler refuses it.
\<close>

theorem protected_routes_refuse_anonymous:
  assumes "(m, p, mws, h) \<in> set (endpoints (v1_router sl d))" "p \<notin> {''/auth/sign-up'', ''/auth/sign-in''}"
    and "rw_sent w = None" "anonymous rq" "runs_to (Chain mws h w rq) s a s'"
  shows "rw_status a = (if p = ''/fraud/predict'' then 500 else 401) \<and> s' = s
    \<and> (p \<notin> {''/auth/me'', ''/apikeys/'', ''/apikeys/{id}''} \<longrightarrow> (\<forall>h'. runs_to (Chain mws h' w rq) s a s'))"
proof -
  have "runs_to (Chain mws h' w rq) s a s'" if "p \<notin> {''/auth/me'', ''/apikeys/'', ''/apikeys/{id}''}" for h'
  proof -
    have "Chain mws h' w rq = Chain mws h w rq"
      by (rule handler_blind_route [OF assms(1) _ assms(4)]) (use that assms(2) in simp)
    with assms(5) show ?thesis by (simp only:)
  qed
  then show ?thesis
    using refusesD [OF refuses_route [OF assms(1,2)] assms(3-5)] by blast
qed

theorem protected_routes_refuse_anonymous_witness:
  "rw_status (val_of (Chain [api_key_auth ref_libs ref_deps, limiter ref_libs ref_deps ''/v1/fraud/predict'']
     (predict_handler ref_libs ref_deps) new_writer (request_with ''Accept'' ''*/*'')) world1) = 500"
proof -
  have "(Some ''POST'', ''/fraud/predict'', [api_key_auth ref_libs ref_deps, limiter ref_libs ref_deps ''/v1/fraud/predict''],
     predict_handler ref_libs ref_deps) \<in> set (endpoints (v1_router ref_libs ref_deps))"
    by (simp add: v1_router_def)
  from protected_routes_refuse_anonymous [OF this _ rw_sent_new_writer anonymous_request runs_to_val_of] show ?thesis by simp
qed

text \<open>
  C11. Behind \<open>AuthEither\<close> no handler ever runs without an identity: two handlers that agree on
  identified requests cannot be told apart, whatever the two authentication steps do.
\<close>

theorem auth_either_requires_identity:
  assumes "\<And>w rq. IdentityFrom (rq_ctx rq) \<noteq> None \<Longrightarrow> nxt w rq = nxt' w rq"
  shows "AuthEither apiKeyAuth jwtAuth nxt = AuthEither apiKeyAuth jwtAuth nxt'"
proof -
  have "finalAuthCheck nxt = finalAuthCheck nxt'"
    using assms by (intro ext) (auto simp: finalAuthCheck_def)
  then show ?thesis by (simp add: AuthEither_def)
qed

theorem auth_either_requires_identity_witness:
  "AuthEither (api_key_auth ref_libs ref_deps) (jwt_auth ref_libs ref_deps) (VendorPingHandler (rd_vendorSvc ref_deps)) =
   AuthEither (api_key_auth ref_libs ref_deps) (jwt_auth ref_libs ref_deps)
     (\<lambda>w rq. if IdentityFrom (rq_ctx rq) = None then go_return (WriteHeader 200 w) else VendorPingHandler (rd_vendorSvc ref_deps) w rq)"
  by (rule auth_either_requires_identity) auto

text \<open>
  C14. Dispatch: a request whose method and path match a row of the route table is processed by exactly
  the middleware the row lists, from the outside in (first the six global steps, then those of the group
  and the route), then by the row's handler, which sees the parameters of the path (the \<open>id\<close> of
  \<open>DELETE /v1/apikeys/{id}\<close>). The table is written down independently of the router the code builds; chi
  only has to dispatch where a single entry matches, and its middleware to leave method and path alone.
\<close>

theorem requests_reach_their_route:
  assumes "chi_dispatch serve" "neutral_libs hl" "(m, pat, stack, h) \<in> set (documented_routes hl sl d)"
    and "rq_method r = m" "match_segments (segments pat) (segments (rq_path r)) = Some ps"
  shows "serve (NewRouter hl sl d) w r = Chain stack h w (r\<lparr>rq_urlparam := url_params ps\<rparr>)"
proof -
  have "rq_method r \<in> set chi_methods" "resolve (rq_method r) (NewRouter hl sl d) (segments (rq_path r)) = Some (stack, ps, h)"
    using resolve_route [OF assms(3,5)] assms(4) by simp_all
  from chi_dispatch.dispatch [OF assms(1) this] show ?thesis
    using neutral_stack [OF assms(2,3)] by (simp add: serve_target_def)
qed

definition ref_http :: "world http_libs" where
  "ref_http = \<lparr>hl_RealIP = (\<lambda>h. h), hl_Recoverer = (\<lambda>h. h), hl_Timeout = (\<lambda>_ h. h), hl_cors_Handler = (\<lambda>_ h. h),
     hl_Profiler = (\<lambda>w r. go_return (WriteHeader 200 w)), hl_promhttp = (\<lambda>w r. go_return (WriteHeader 200 w)),
     hl_ServeFile = (\<lambda>_ w r. go_return (WriteHeader 200 w))\<rparr>"

lemma neutral_ref_http: "neutral_libs ref_http"
  by (simp add: neutral_libs_def ref_http_def route_neutral_def)

definition delete_request :: request where
  "delete_request = (request_with ''Accept'' ''*/*'')\<lparr>rq_method := ''DELETE'', rq_path := ''/v1/apikeys/42''\<rparr>"

theorem requests_reach_their_route_witness:
  "ref_ServeHTTP (NewRouter ref_http ref_libs ref_deps) new_writer delete_request =
     Chain (global_stack ref_http ref_libs ref_deps @ [jwt_auth ref_libs ref_deps]) (DeleteAPIKeyHandler (rd_apiKeySvc ref_deps))
       new_writer (delete_request\<lparr>rq_urlparam := url_params [(''id'', ''42'')]\<rparr>)"
proof -
  have "(''DELETE'', ''/v1/apikeys/{id}'', global_stack ref_http ref_libs ref_deps @ [jwt_auth ref_libs ref_deps],
      DeleteAPIKeyHandler (rd_apiKeySvc ref_deps)) \<in> set (documented_routes ref_http ref_libs ref_deps)"
    by (simp add: documented_routes_def Let_def global_stack_def jwt_auth_def second_def)
  from requests_reach_their_route [OF ref_chi.chi_dispatch_axioms neutral_ref_http this] show ?thesis
    by (simp add: delete_request_def segments_def)
qed

end
