(* ===== verification/Startup.thy ===== *)
theory Startup
  imports Router
begin

text \<open>
  \<open>cmd/api/main.go\<close>: building the service from its configuration, and the life of the process. Every
  library \<open>main\<close> touches is a field of \<open>main_libs\<close>. \<open>logger.Fatal\<close> logs and ends the process with
  status 1, without running deferred calls.
\<close>

section \<open>Construction\<close>

record 'w main_libs =
  ml_env :: "'w env"
  ml_viper :: "'w viper"
  ml_zerolog :: "'w zerolog_lib"
  ml_stderr :: "string \<Rightarrow> 'w proc"
  ml_slog :: "string \<Rightarrow> (string \<times> string) list \<Rightarrow> 'w proc"
  ml_sql_Open :: "string \<Rightarrow> string \<Rightarrow> ('w, 'w sql_DB result) state"
  ml_ping_within :: "'w sql_DB \<Rightarrow> duration \<Rightarrow> ('w, unit result) state"
  ml_redis_NewClient :: "redis_Options \<Rightarrow> 'w redis_client"
  ml_ReadFile :: "string \<Rightarrow> ('w, bytes result) state"
  ml_resty_New :: "resty_settings \<Rightarrow> 'w resty_client"
  ml_NewCircuitBreaker :: "'w breaker_settings \<Rightarrow> 'w breaker"
  ml_telemetry :: "'w telemetry"
  ml_bcrypt :: "'w bcrypt_lib"
  ml_jwt :: "'w jwt_lib"
  ml_ovf :: "float64 \<Rightarrow> int64"
  ml_validate :: "reflect_value \<Rightarrow> validation_error option"
  ml_http :: "'w http_libs"

record 'w server =
  srv_Addr :: string
  srv_Handler :: "'w chi_mux"
  srv_ReadTimeout :: duration
  srv_WriteTimeout :: duration
  srv_IdleTimeout :: duration

datatype 'w startup = Exit nat | Serving "'w sql_DB" "'w server"

definition fatal :: "'w env \<Rightarrow> go_error \<Rightarrow> string \<Rightarrow> ('w, 'w startup) state" where
  "fatal env err msg = do { zerolog env ''fatal'' [(''error'', Error err)] msg; go_return (Exit 1) }"

definition service_deps :: "'w main_libs \<Rightarrow> 'w env \<Rightarrow> Config \<Rightarrow> 'w sql_DB \<Rightarrow> 'w redis_client \<Rightarrow> bytes \<Rightarrow> 'w router_deps" where
  "service_deps ml env cfg dbConn redisClient jwtSecret =
     (let queries = New (sd_DBTX dbConn);
          userRepo = NewUserRepository queries;
          apiKeyRepo = NewAPIKeyRepository queries (Some redisClient) (3600 * second);
          logRepo = NewInferenceLogRepository queries;
          profileSvc = NewProfileService userRepo;
          apiKeySvc = NewAPIKeyService env apiKeyRepo;
          vendorClient = NewThirdPartyClient env (ml_resty_New ml) (ml_NewCircuitBreaker ml) (cf_VendorBaseURL cfg) (cf_VendorToken cfg);
          vendorSvc = NewVendorService (ml_ovf ml) env (ml_telemetry ml) vendorClient;
          authSvc = NewAuthService env (ml_jwt ml) (ml_bcrypt ml) userRepo jwtSecret (24 * 3600 * second)
      in \<lparr>rd_cfg = cfg, rd_db = dbConn, rd_redisClient = redisClient, rd_userRepo = userRepo,
          rd_apiKeyRepo = apiKeyRepo, rd_logRepo = logRepo, rd_profileSvc = profileSvc, rd_apiKeySvc = apiKeySvc,
          rd_vendorSvc = vendorSvc, rd_authSvc = authSvc, rd_jwtSecret = jwtSecret\<rparr>)"

definition new_server :: "'w main_libs \<Rightarrow> 'w env \<Rightarrow> 'w router_deps \<Rightarrow> 'w server" where
  "new_server ml env d = \<lparr>
     srv_Addr = cf_HTTPAddr (rd_cfg d) @ '':'' @ FormatInt (cf_HTTPPort (rd_cfg d)),
     srv_Handler = NewRouter (ml_http ml)
       \<lparr>sl_env = env, sl_ovf = ml_ovf ml, sl_jwt = ml_jwt ml, sl_validate = ml_validate ml\<rparr> d,
     srv_ReadTimeout = 5 * second, srv_WriteTimeout = 10 * second, srv_IdleTimeout = 120 * second\<rparr>"

definition start :: "'w main_libs \<Rightarrow> ('w, 'w startup) state" where
  "start ml = do {
     (cfg, cerr) \<leftarrow> LoadConfig (ml_viper ml);
     case cerr of
       Some err \<Rightarrow> do { ml_stderr ml (''failed to load config: '' @ Error err @ [CHR 0x0A]); go_return (Exit 1) }
     | None \<Rightarrow> do {
         logger \<leftarrow> NewConsoleLogger (ml_zerolog ml) (cf_LogLevel cfg);
         let env = (ml_env ml)\<lparr>zerolog := logger\<rparr>;
         ml_slog ml ''starting %s service in %s mode'' [(cf_OtelServiceName cfg, cf_AppEnv cfg)];
         dbres \<leftarrow> NewDatabase (ml_sql_Open ml) (ml_ping_within ml) (cf_PGDSN cfg) (cf_PGMaxOpenConns cfg)
           (cf_PGMaxIdleConns cfg) (cf_PGConnMaxLifetime cfg);
         case dbres of
           Inl err \<Rightarrow> fatal env err ''failed to connect to database''
         | Inr dbConn \<Rightarrow> do {
             let redisClient = NewRedisClient (ml_redis_NewClient ml) (cf_RedisAddr cfg) (cf_RedisPassword cfg) (cf_RedisDB cfg);
             ping \<leftarrow> redis_Ping redisClient;
             case ping of
               Inl err \<Rightarrow> fatal env err ''failed to connect to redis''
             | Inr _ \<Rightarrow> do {
                 secret \<leftarrow> ml_ReadFile ml (cf_JWTSecretFile cfg);
                 case secret of
                   Inl err \<Rightarrow> fatal env err ''failed to read jwt secret file''
                 | Inr jwtSecret \<Rightarrow>
                     go_return (Serving dbConn (new_server ml env (service_deps ml env cfg dbConn redisClient jwtSecret)))
               }
           }
       }
   }"

section \<open>Life cycle\<close>

text \<open>
  The serving goroutine ends the process when \<open>ListenAndServe\<close> fails with anything but
  \<open>ErrServerClosed\<close>; the main goroutine waits for SIGINT or SIGTERM, drains for at most ten seconds,
  closes the pool on a clean shutdown and exits. \<open>ListenAndServe\<close> and \<open>Shutdown\<close> report as events.
\<close>

datatype phase = Listening | Draining | Exited nat

datatype server_event = ListenReturned go_error | SignalReceived | ShutdownReturned "go_error option"

definition ErrServerClosed :: go_error where
  "ErrServerClosed = ErrorString ''http: Server closed''"

text \<open>
  The arguments are the process log (\<open>slog\<close>), the structured logger and \<open>dbConn.Close\<close>, the deferred
  call that \<open>logger.Fatal\<close> skips.
\<close>

fun lifecycle ::
  "(string \<Rightarrow> (string \<times> string) list \<Rightarrow> 'w proc) \<Rightarrow> (string \<Rightarrow> (string \<times> string) list \<Rightarrow> string \<Rightarrow> 'w proc) \<Rightarrow> 'w proc \<Rightarrow>
   phase \<Rightarrow> server_event \<Rightarrow> ('w, phase) state" where
  "lifecycle slog logger dbClose (Exited n) e = go_return (Exited n)"
| "lifecycle slog logger dbClose ph (ListenReturned err) =
     (if err = ErrServerClosed then go_return ph
      else do { logger ''fatal'' [(''error'', Error err)] ''could not start server''; go_return (Exited 1) })"
| "lifecycle slog logger dbClose Listening SignalReceived =
     do { slog ''shutting down server...'' []; go_return Draining }"
| "lifecycle slog logger dbClose Draining (ShutdownReturned (Some err)) =
     do { logger ''fatal'' [(''error'', Error err)] ''server forced to shutdown''; go_return (Exited 1) }"
| "lifecycle slog logger dbClose Draining (ShutdownReturned None) =
     do { slog ''server exiting'' []; dbClose; go_return (Exited 0) }"
| "lifecycle slog logger dbClose ph e = go_return ph"

fun run_events ::
  "(string \<Rightarrow> (string \<times> string) list \<Rightarrow> 'w proc) \<Rightarrow> (string \<Rightarrow> (string \<times> string) list \<Rightarrow> string \<Rightarrow> 'w proc) \<Rightarrow> 'w proc \<Rightarrow>
   phase \<Rightarrow> server_event list \<Rightarrow> ('w, phase) state" where
  "run_events slog logger dbClose ph [] = go_return ph"
| "run_events slog logger dbClose ph (e # es) =
     do { ph' \<leftarrow> lifecycle slog logger dbClose ph e; run_events slog logger dbClose ph' es }"

section \<open>Facts\<close>

lemma fatal_exits: "runs_to (fatal env err msg) w r w' \<Longrightarrow> r = Exit 1"
  by (auto simp: fatal_def go_run)

lemma start_runs:
  assumes "runs_to (start ml) w r w'"
  obtains (failed) "r = Exit 1"
  | (serving) cfg logger wa wb dbConn wc pong wd secret where
      "runs_to (LoadConfig (ml_viper ml)) w (cfg, None) wa"
      "runs_to (NewDatabase (ml_sql_Open ml) (ml_ping_within ml) (cf_PGDSN cfg) (cf_PGMaxOpenConns cfg)
         (cf_PGMaxIdleConns cfg) (cf_PGConnMaxLifetime cfg)) wb (Inr dbConn) wc"
      "runs_to (redis_Ping (NewRedisClient (ml_redis_NewClient ml) (cf_RedisAddr cfg) (cf_RedisPassword cfg) (cf_RedisDB cfg)))
         wc (Inr pong) wd"
      "runs_to (ml_ReadFile ml (cf_JWTSecretFile cfg)) wd (Inr secret) w'"
      "r = Serving dbConn (new_server ml ((ml_env ml)\<lparr>zerolog := logger\<rparr>) (service_deps ml ((ml_env ml)\<lparr>zerolog := logger\<rparr>)
         cfg dbConn (NewRedisClient (ml_redis_NewClient ml) (cf_RedisAddr cfg) (cf_RedisPassword cfg) (cf_RedisDB cfg)) secret))"
  using assms unfolding start_def Let_def by (auto simp: go_run dest: fatal_exits intro: that)

lemma NewDatabase_pinged:
  assumes "runs_to (NewDatabase sql_Open ping dsn a b c) w (Inr db) w'"
  shows "\<exists>v v'. runs_to (sql_Open ''pgx'' dsn) w (Inr db) v \<and> runs_to (ping db (5 * second)) v' (Inr ()) w'"
proof -
  from assms obtain db' r2 v v' where run: "runs_to (sql_Open ''pgx'' dsn) w (Inr db') v" "runs_to (ping db' (5 * second)) v' r2 w'"
    and r2: "(case r2 of Inl err \<Rightarrow> Inl err | Inr _ \<Rightarrow> Inr db') = Inr db"
    by (auto simp: NewDatabase_def go_run)
  from r2 have "r2 = Inr ()" "db' = db" by (cases r2; auto)+
  with run show ?thesis by blast
qed

text \<open>Both ends of a token get the same secret, and the service the same logger and clock.\<close>

lemma service_deps_secret [simp]:
  "rd_jwtSecret (service_deps ml env cfg db rc secret) = secret"
  "rd_userRepo (service_deps ml env cfg db rc secret) = NewUserRepository (New (sd_DBTX db))"
  by (simp_all add: service_deps_def Let_def)

subsection \<open>The process\<close>

text \<open>
  The outcome of a sequence of events, written down directly: the first event that matters decides
  each phase.
\<close>

definition listen_failed :: "server_event \<Rightarrow> bool" where
  "listen_failed e = (case e of ListenReturned err \<Rightarrow> err \<noteq> ErrServerClosed | _ \<Rightarrow> False)"

definition shutdown_done :: "server_event \<Rightarrow> bool" where
  "shutdown_done e = (case e of ShutdownReturned r \<Rightarrow> True | _ \<Rightarrow> False)"

definition drain_outcome :: "server_event list \<Rightarrow> phase" where
  "drain_outcome es =
     (case find (\<lambda>e. listen_failed e \<or> shutdown_done e) es of
        None \<Rightarrow> Draining
      | Some e \<Rightarrow> Exited (if e = ShutdownReturned None then 0 else 1))"

definition process_outcome :: "server_event list \<Rightarrow> phase" where
  "process_outcome es =
     (case dropWhile (\<lambda>e. \<not> listen_failed e \<and> e \<noteq> SignalReceived) es of
        [] \<Rightarrow> Listening
      | e # rest \<Rightarrow> if e = SignalReceived then drain_outcome rest else Exited 1)"

lemmas event_defs = listen_failed_def shutdown_done_def drain_outcome_def process_outcome_def

lemma drain_outcome_Exited: "ShutdownReturned r \<in> set es \<Longrightarrow> \<exists>n. drain_outcome es = Exited n"
  by (induction es) (auto simp: event_defs)

lemma process_outcome_Exited:
  "SignalReceived \<in> set pre \<Longrightarrow> ShutdownReturned r \<in> set post \<Longrightarrow> \<exists>n. process_outcome (pre @ post) = Exited n"
  by (induction pre) (auto simp: process_outcome_def intro: drain_outcome_Exited [of r])

locale process_effects =
  fixes slog :: "string \<Rightarrow> (string \<times> string) list \<Rightarrow> 'w proc"
    and logger :: "string \<Rightarrow> (string \<times> string) list \<Rightarrow> string \<Rightarrow> 'w proc"
    and dbClose :: "'w proc"
    and closes :: "'w \<Rightarrow> nat"
  assumes slog_closes: "runs_to (slog m kv) w u w' \<Longrightarrow> closes w' = closes w"
    and logger_closes: "runs_to (logger l kv m) w u w' \<Longrightarrow> closes w' = closes w"
    and close_closes: "runs_to dbClose w u w' \<Longrightarrow> closes w' = Suc (closes w)"
begin

lemma run_Exited: "runs_to (run_events slog logger dbClose (Exited n) es) w ph w' \<longleftrightarrow> ph = Exited n \<and> w' = w"
  by (induction es) (auto simp: go_run)

lemma run_Draining:
  "runs_to (run_events slog logger dbClose Draining es) w ph w' \<Longrightarrow>
   ph = drain_outcome es \<and> closes w' = closes w + (if ph = Exited 0 then 1 else 0)"
proof (induction es arbitrary: w)
  case (Cons e es)
  show ?case
  proof (cases e)
    case (ListenReturned err)
    with Cons show ?thesis
      by (auto simp: go_run run_Exited event_defs dest!: logger_closes split: if_splits)
  next
    case SignalReceived
    with Cons show ?thesis by (auto simp: go_run event_defs)
  next
    case (ShutdownReturned r)
    with Cons show ?thesis
      by (cases r) (auto simp: go_run run_Exited event_defs dest!: logger_closes slog_closes close_closes)
  qed
qed (simp add: event_defs)

lemma run_Listening:
  "runs_to (run_events slog logger dbClose Listening es) w ph w' \<Longrightarrow>
   ph = process_outcome es \<and> closes w' = closes w + (if ph = Exited 0 then 1 else 0)"
proof (induction es arbitrary: w)
  case (Cons e es)
  show ?case
  proof (cases e)
    case (ListenReturned err)
    with Cons show ?thesis
      by (auto simp: go_run run_Exited event_defs dest!: logger_closes split: if_splits)
  next
    case SignalReceived
    with Cons.prems show ?thesis
      by (auto simp: go_run process_outcome_def dest!: run_Draining slog_closes)
  next
    case (ShutdownReturned r)
    with Cons show ?thesis by (auto simp: go_run event_defs)
  qed
qed (simp add: event_defs)

end


text \<open>The process with its log lines and the calls of \<open>dbConn.Close\<close>.\<close>

record process_world =
  pw_lines :: "string list"
  pw_closed :: nat

definition proc_slog :: "string \<Rightarrow> (string \<times> string) list \<Rightarrow> process_world proc" where
  "proc_slog msg kv = State (\<lambda>w. ((), w\<lparr>pw_lines := pw_lines w @ [msg]\<rparr>))"

definition proc_logger :: "string \<Rightarrow> (string \<times> string) list \<Rightarrow> string \<Rightarrow> process_world proc" where
  "proc_logger level kv msg = State (\<lambda>w. ((), w\<lparr>pw_lines := pw_lines w @ [level @ '': '' @ msg]\<rparr>))"

definition proc_Close :: "process_world proc" where
  "proc_Close = State (\<lambda>w. ((), w\<lparr>pw_closed := Suc (pw_closed w)\<rparr>))"

interpretation proc: process_effects proc_slog proc_logger proc_Close pw_closed
  by unfold_locales (auto simp: proc_slog_def proc_logger_def proc_Close_def runs_to_def)

section \<open>Theorems\<close>

text \<open>
  C17. The process ends: once a signal has arrived and \<open>Shutdown\<close> has returned, in whatever way and with
  whatever other events in between, the process has exited.
\<close>

theorem process_exits_after_shutdown:
  assumes "process_effects slog logger dbClose closes"
    and "SignalReceived \<in> set pre" "ShutdownReturned r \<in> set post"
    and "runs_to (run_events slog logger dbClose Listening (pre @ post)) w ph w'"
  shows "\<exists>n. ph = Exited n"
  using process_effects.run_Listening [OF assms(1,4)] process_outcome_Exited [OF assms(2,3)] by simp

theorem process_exits_after_shutdown_witness:
  "\<exists>n. val_of (run_events proc_slog proc_logger proc_Close Listening
     ([SignalReceived] @ [ListenReturned ErrServerClosed, ShutdownReturned None])) \<lparr>pw_lines = [], pw_closed = 0\<rparr> = Exited n"
  by (rule process_exits_after_shutdown [OF proc.process_effects_axioms _ _ runs_to_val_of]) auto

text \<open>
  C16. Exit status and connection pool: the phase is the one the first decisive events determine, and the
  pool has been closed exactly once if the process exited with status 0 and never otherwise; in
  particular a failed listener and a forced shutdown leave it open.
\<close>

theorem pool_closed_iff_clean_exit:
  assumes "process_effects slog logger dbClose closes"
    and "runs_to (run_events slog logger dbClose Listening es) w ph w'"
  shows "ph = process_outcome es \<and> closes w' = closes w + (if ph = Exited 0 then 1 else 0)"
  using process_effects.run_Listening [OF assms] .

theorem pool_closed_iff_clean_exit_witness:
  "pw_closed (end_of (run_events proc_slog proc_logger proc_Close Listening
     [SignalReceived, SignalReceived, ShutdownReturned None, ListenReturned (ErrorString ''late'')]) \<lparr>pw_lines = [], pw_closed = 0\<rparr>) = 1"
  using pool_closed_iff_clean_exit [OF proc.process_effects_axioms runs_to_val_of [of _ "\<lparr>pw_lines = [], pw_closed = 0\<rparr>"],
      of "[SignalReceived, SignalReceived, ShutdownReturned None, ListenReturned (ErrorString ''late'')]"]
  by (simp add: event_defs)

end
