(* ===== verification/Deployment.thy ===== *)
theory Deployment
  imports Routes Accounts Startup
begin

text \<open>
  The service as \<open>main\<close> builds it. \<open>start\<close> serves only when the configuration, the database, Redis and
  the secret file are all there, and a session opened by the authentication service is recognised by
  the router, since \<open>main\<close> gives both the same secret. \<open>ref_main\<close> is a complete set of libraries on the
  reference world.
\<close>

section \<open>A reference environment for \<open>main\<close>\<close>

definition ref_world_viper :: "world viper" where
  "ref_world_viper = \<lparr>
     vp_SetConfigName = (\<lambda>_. go_return ()), vp_SetConfigType = (\<lambda>_. go_return ()), vp_AddConfigPath = (\<lambda>_. go_return ()),
     vp_ReadInConfig = go_return (Inl (ErrorString ''not found'')), vp_is_ConfigFileNotFoundError = (\<lambda>_. True),
     vp_SetDefault = (\<lambda>k v. go_return ()), vp_GetString = (\<lambda>k. go_return []), vp_AutomaticEnv = go_return (),
     vp_SetEnvKeyReplacer = (\<lambda>_ _. go_return ()), vp_BindEnv = (\<lambda>k. go_return (Inr ())),
     vp_Unmarshal = (\<lambda>c. go_return (ref_cfg, None))\<rparr>"

definition ref_main :: "world main_libs" where
  "ref_main = \<lparr>
     ml_env = ref_env, ml_viper = ref_world_viper,
     ml_zerolog = \<lparr>zl_SetGlobalLevel = (\<lambda>_. go_return ()), zl_New = (\<lambda>_. zerolog ref_env)\<rparr>,
     ml_stderr = (\<lambda>_. go_return ()), ml_slog = (\<lambda>_ _. go_return ()),
     ml_sql_Open = (\<lambda>_ _. go_return (Inr ref_sql_DB)), ml_ping_within = (\<lambda>db _. sd_PingContext db),
     ml_redis_NewClient = (\<lambda>_. ref_redis False), ml_ReadFile = (\<lambda>_. go_return (Inr ''k'')),
     ml_resty_New = ref_resty, ml_NewCircuitBreaker = ref_breaker, ml_telemetry = ref_telemetry,
     ml_bcrypt = ref_bcrypt, ml_jwt = ref_jwt, ml_ovf = (\<lambda>_. 0), ml_validate = ref_validate, ml_http = ref_http\<rparr>"

section \<open>Theorems\<close>

text \<open>
  C19. Start-up is all or nothing: either \<open>main\<close> ends with status 1, or the configuration was loaded, the
  pool for its DSN answered a ping within five seconds, Redis answered a ping and the secret file was
  read, and the server that listens is the router over exactly these.
\<close>

theorem start_serves_only_when_ready:
  assumes "runs_to (start ml) w r w'"
  shows "r = Exit 1 \<or> (\<exists>cfg wa wb dbConn v v' wc pong wd secret env.
      runs_to (LoadConfig (ml_viper ml)) w (cfg, None) wa
    \<and> runs_to (ml_sql_Open ml ''pgx'' (cf_PGDSN cfg)) wb (Inr dbConn) v \<and> runs_to (ml_ping_within ml dbConn (5 * second)) v' (Inr ()) wc
    \<and> runs_to (redis_Ping (NewRedisClient (ml_redis_NewClient ml) (cf_RedisAddr cfg) (cf_RedisPassword cfg) (cf_RedisDB cfg)))
        wc (Inr pong) wd
    \<and> runs_to (ml_ReadFile ml (cf_JWTSecretFile cfg)) wd (Inr secret) w'
    \<and> r = Serving dbConn (new_server ml env (service_deps ml env cfg dbConn
        (NewRedisClient (ml_redis_NewClient ml) (cf_RedisAddr cfg) (cf_RedisPassword cfg) (cf_RedisDB cfg)) secret)))"
  using assms
proof (cases rule: start_runs)
  case (serving cfg logger wa wb dbConn wc pong wd secret)
  with NewDatabase_pinged [OF serving(2)] show ?thesis by blast
qed simp

lemma ref_start_ready: "val_of (start ref_main) world1 \<noteq> Exit 1"
  by (simp add: val_of_def start_def ref_main_def ref_world_viper_def LoadConfig_def config_defaults_def bound_env_keys_def
      NewConsoleLogger_def NewLogger_def NewDatabase_def ref_sql_DB_def NewRedisClient_def ref_redis_def ref_eval Let_def split_beta)

theorem start_serves_only_when_ready_witness:
  "\<exists>env secret. val_of (start ref_main) world1 = Serving ref_sql_DB
     (new_server ref_main env (service_deps ref_main env ref_cfg ref_sql_DB (ref_redis False) secret))"
proof -
  have cfg: "val_of (LoadConfig (ml_viper ref_main)) world1 = (ref_cfg, None)"
    by (simp add: ref_main_def ref_world_viper_def val_of_def LoadConfig_def config_defaults_def bound_env_keys_def Let_def split_beta)
  have db: "ml_sql_Open ref_main d dsn = go_return (Inr ref_sql_DB)" "NewRedisClient (ml_redis_NewClient ref_main) a p n = ref_redis False"
    for d dsn a p n by (simp_all add: ref_main_def NewRedisClient_def)
  from start_serves_only_when_ready [OF runs_to_val_of [of "start ref_main" world1]] ref_start_ready show ?thesis
    by (auto simp: db runs_to_iff [of "LoadConfig _"] cfg)
qed

text \<open>
  C9. A session works on the service \<open>main\<close> builds: for a day less one second after \<open>SignIn\<close> gave a user a
  token, a request with that token passes the router's JWT check as that user, because service and
  router share secret and JWT library. The user's id must be within the exact range of \<open>float64\<close>.
\<close>

theorem session_lasts_a_day:
  assumes "jwt_contract (ml_jwt ml) clk"
    and "\<And>v t v'. runs_to (time_Now env) v t v' \<Longrightarrow> t = clk v' \<and> clk v \<le> clk v'"
    and "\<And>e v x v'. runs_to (q_GetUserByEmailForLogin (New (sd_DBTX db)) e) v x v' \<Longrightarrow> clk v \<le> clk v'"
    and "runs_to (aus_SignIn (rd_authSvc (service_deps ml env cfg db rc secret)) email pw) w0 (Inr (user, tok)) w1"
    and "\<bar>sint (ul_ID user)\<bar> \<le> 2 ^ 53" "0 \<le> clk w0" "clk w1 + 24 * 3600 * second < 2 ^ 53 * second"
    and "bearer_request r tok" "clk w + second \<le> clk w0 + 24 * 3600 * second" "sl_jwt sl = ml_jwt ml"
  shows "runs_to (jwt_auth sl (service_deps ml env cfg db rc secret) nxt wr r) w a w' \<longleftrightarrow>
         runs_to (identify_user (rd_userRepo (service_deps ml env cfg db rc secret)) (ul_ID user) nxt wr r) w a w'"
proof -
  let ?repo = "NewUserRepository (New (sd_DBTX db))"
  let ?s = "\<lparr>as_userRepo = ?repo, as_jwtSecret = secret, as_jwtTimeout = 24 * 3600 * second\<rparr>"
  have "runs_to (SignIn env (ml_jwt ml) (ml_bcrypt ml) ?s email pw) w0 (Inr (user, tok)) w1"
    using assms(4) by (simp add: service_deps_def NewAuthService_def Let_def)
  then obtain v where v: "clk w0 \<le> clk v" "runs_to (generateToken env (ml_jwt ml) ?s (ul_ID user)) v (Inr tok) w1"
  proof (cases rule: SignIn_runs)
    case (matched row rt v)
    then have "user = row" "rt = Inr tok" by (cases rt; simp)+
    moreover have "clk w0 \<le> clk v"
      using matched(1) assms(3) by (simp add: NewUserRepository_def)
    ultimately show thesis using matched(3) that by blast
  qed auto
  from jwt_contract.JWTAuth_generated [OF assms(1,2) v(2) assms(5) _ _ _ assms(8), of w "sl_ovf sl" ?repo nxt wr a w'] assms(6,7,9) v(1)
  show ?thesis by (simp add: jwt_auth_def assms(10) second_def)
qed

lemma login_clock:
  assumes "runs_to (q_GetUserByEmailForLogin (New ref_DBTX) e) v x v'"
  shows "w_clock v \<le> w_clock v'"
proof -
  from assms obtain r0 where "runs_to (pg_call (query_row getUserByEmailForLogin [VText e])) v r0 v'"
    by (auto simp: queries_defs runs_to_bind)
  then show ?thesis by (cases rule: pg_call_runs) (auto simp: query_row_def)
qed

theorem session_lasts_a_day_witness:
  "run_state (jwt_auth ref_libs (service_deps ref_main ref_env ref_cfg ref_sql_DB (ref_redis False) ''k'')
     (MeHandler (rd_profileSvc ref_deps)) new_writer (request_with ''Authorization'' (''Bearer '' @ token_of 2))) world_grace
   = run_state (identify_user (NewUserRepository (New ref_DBTX)) 2
     (MeHandler (rd_profileSvc ref_deps)) new_writer (request_with ''Authorization'' (''Bearer '' @ token_of 2))) world_grace"
proof (rule runs_to_eqI)
  fix a w'
  let ?d = "service_deps ref_main ref_env ref_cfg ref_sql_DB (ref_redis False) ''k''"
  have ml: "ml_jwt ref_main = ref_jwt" "ml_bcrypt ref_main = ref_bcrypt" "sd_DBTX ref_sql_DB = ref_DBTX" "sl_jwt ref_libs = ref_jwt"
    by (simp_all add: ref_main_def ref_sql_DB_def ref_libs_def)
  have "aus_SignIn (rd_authSvc ?d) = SignIn ref_env ref_jwt ref_bcrypt token_setup"
    by (simp add: service_deps_def NewAuthService_def Let_def ml token_setup_def)
  then have run: "runs_to (aus_SignIn (rd_authSvc ?d) ''grace@example.com'' ''correct horse'') world_grace
      (Inr (login_row grace, token_of 2)) world_grace"
    using grace_in_runs by simp
  have id: "ul_ID (login_row grace) = 2" by (simp add: login_row_def grace_def)
  have c: "w_clock world_grace = 0" by (simp add: world_grace_def world1_def world0_def)
  show "runs_to (jwt_auth ref_libs ?d (MeHandler (rd_profileSvc ref_deps)) new_writer
      (request_with ''Authorization'' (''Bearer '' @ token_of 2))) world_grace a w' \<longleftrightarrow>
    runs_to (identify_user (NewUserRepository (New ref_DBTX)) 2 (MeHandler (rd_profileSvc ref_deps)) new_writer
      (request_with ''Authorization'' (''Bearer '' @ token_of 2))) world_grace a w'"
    using session_lasts_a_day [where ml = ref_main and clk = w_clock and db = ref_sql_DB and sl = ref_libs,
        unfolded ml, OF ref_tokens.jwt_contract_axioms ref_clock login_clock run _ _ _ bearer_request_with]
    by (simp add: id c ml second_def)
qed

end
