(* ===== verification/Settings.thy ===== *)
theory Settings
  imports Config
begin

text \<open>
  What \<open>LoadConfig\<close> makes of the config file, the environment and its own defaults. Viper's documented
  behaviour is the locale \<open>viper_contract\<close> over a projection of the world to \<open>viper_state\<close>: the config
  file on disk and as read, the defaults, the process environment, the keys bound to it and whether
  \<open>AutomaticEnv\<close> is on. Viper ignores the case of keys; they are written here as the struct tags write
  them. \<open>Unmarshal\<close> only sees keys viper knows (from the file, the defaults or \<open>BindEnv\<close>). The facts are
  the precedence of the sources, and what happens without a config file.
\<close>

section \<open>Viper\<close>

record viper_state =
  vs_disk :: "(string \<rightharpoonup> any) option"
  vs_file :: "string \<rightharpoonup> any"
  vs_default :: "string \<rightharpoonup> any"
  vs_env :: "string \<rightharpoonup> string"
  vs_bound :: "string list"
  vs_auto :: bool

definition env_value :: "(string \<rightharpoonup> string) \<Rightarrow> string \<Rightarrow> string option" where
  "env_value e k = (case e k of None \<Rightarrow> None | Some v \<Rightarrow> if v = [] then None else Some v)"

definition viper_Get :: "viper_state \<Rightarrow> string \<Rightarrow> any option" where
  "viper_Get s k =
     (case (if vs_auto s \<or> k \<in> set (vs_bound s) then env_value (vs_env s) k else None) of
        Some v \<Rightarrow> Some (AString v)
      | None \<Rightarrow> (case vs_file s k of Some v \<Rightarrow> Some v | None \<Rightarrow> vs_default s k))"

definition viper_setting :: "viper_state \<Rightarrow> string \<Rightarrow> any option" where
  "viper_setting s k =
     (if vs_file s k \<noteq> None \<or> vs_default s k \<noteq> None \<or> k \<in> set (vs_bound s) then viper_Get s k else None)"

text \<open>The fields of the configuration with their keys (the struct tags), by type.\<close>

definition string_fields :: "(string \<times> (Config \<Rightarrow> string)) list" where
  "string_fields =
     [(''APP_ENV'', cf_AppEnv), (''HTTP_ADDR'', cf_HTTPAddr), (''PG_DSN'', cf_PGDSN), (''REDIS_ADDR'', cf_RedisAddr),
      (''REDIS_PASSWORD'', cf_RedisPassword), (''JWT_SECRET_FILE'', cf_JWTSecretFile),
      (''OTEL_EXPORTER_OTLP_ENDPOINT'', cf_OtelExporterOTLPEndpoint), (''OTEL_SERVICE_NAME'', cf_OtelServiceName),
      (''VENDOR_BASE_URL'', cf_VendorBaseURL), (''VENDOR_TOKEN'', cf_VendorToken), (''LOG_LEVEL'', cf_LogLevel)]"

definition int_fields :: "(string \<times> (Config \<Rightarrow> goint)) list" where
  "int_fields =
     [(''HTTP_PORT'', cf_HTTPPort), (''PG_MAX_OPEN_CONNS'', cf_PGMaxOpenConns), (''PG_MAX_IDLE_CONNS'', cf_PGMaxIdleConns),
      (''REDIS_DB'', cf_RedisDB), (''RATE_LIMIT_RPM_DEFAULT'', cf_RateLimitRPMDefault), (''PREDICT_RATE_LIMIT'', cf_PredictRateLimit)]"

definition duration_fields :: "(string \<times> (Config \<Rightarrow> duration)) list" where
  "duration_fields = [(''PG_CONN_MAX_LIFETIME'', cf_PGConnMaxLifetime), (''PREDICT_RATE_WINDOW'', cf_PredictRateWindow)]"

definition field_from :: "any option \<Rightarrow> string \<Rightarrow> string \<Rightarrow> bool" where
  "field_from v old new \<longleftrightarrow> (case v of None \<Rightarrow> new = old | Some (AString s) \<Rightarrow> new = s | _ \<Rightarrow> True)"

text \<open>
  Decoding is weakly typed: integers are also read from decimal text, durations from text in minutes
  (other forms are left open).
\<close>

definition int_from :: "any option \<Rightarrow> goint \<Rightarrow> goint \<Rightarrow> bool" where
  "int_from v old new \<longleftrightarrow>
     (case v of None \<Rightarrow> new = old | Some (AInt n) \<Rightarrow> new = n | Some (AString s) \<Rightarrow> (\<forall>n. s = FormatInt n \<longrightarrow> new = n) | _ \<Rightarrow> True)"

definition minutes :: "string \<Rightarrow> duration option" where
  "minutes s = (if s \<noteq> [] \<and> last s = CHR ''m'' then map_option (\<lambda>n. sint n * 60 * second) (ParseInt (butlast s)) else None)"

definition duration_from :: "any option \<Rightarrow> duration \<Rightarrow> duration \<Rightarrow> bool" where
  "duration_from v old new \<longleftrightarrow>
     (case v of None \<Rightarrow> new = old | Some (AString s) \<Rightarrow> (case minutes s of Some d \<Rightarrow> new = d | None \<Rightarrow> True) | _ \<Rightarrow> True)"

definition bool_from :: "any option \<Rightarrow> bool \<Rightarrow> bool \<Rightarrow> bool" where
  "bool_from v old new \<longleftrightarrow> (case v of None \<Rightarrow> new = old | Some (ABool b) \<Rightarrow> new = b | _ \<Rightarrow> True)"

definition origins_from :: "any option \<Rightarrow> string list \<Rightarrow> string list \<Rightarrow> bool" where
  "origins_from v old new \<longleftrightarrow>
     (case v of None \<Rightarrow> new = old | Some (AString s) \<Rightarrow> s \<noteq> [] \<longrightarrow> new = strings_Split s (CHR '','') | _ \<Rightarrow> True)"

text \<open>Where a setting comes from once \<open>LoadConfig\<close> has run, in terms of the lists of the code.\<close>

definition effective :: "(string \<rightharpoonup> string) \<Rightarrow> (string \<rightharpoonup> any) \<Rightarrow> string \<Rightarrow> any option" where
  "effective e f k =
     (if f k = None \<and> map_of config_defaults k = None \<and> k \<notin> set bound_env_keys then None
      else case env_value e k of
        Some v \<Rightarrow> Some (AString v)
      | None \<Rightarrow> (case f k of Some v \<Rightarrow> Some v | None \<Rightarrow> map_of config_defaults k))"

text \<open>
  The settings as an operator would write them down: the key, the field it fills, the value when it is
  set nowhere, and whether the environment alone can set it. A setting for which it cannot is taken
  from the environment only when the config file has the key too.
\<close>

definition documented_strings :: "(string \<times> (Config \<Rightarrow> string) \<times> string \<times> bool) list" where
  "documented_strings =
     [(''APP_ENV'', cf_AppEnv, ''development'', True),
      (''HTTP_ADDR'', cf_HTTPAddr, ''0.0.0.0'', True),
      (''PG_DSN'', cf_PGDSN, [], True),
      (''REDIS_ADDR'', cf_RedisAddr, [], True),
      (''REDIS_PASSWORD'', cf_RedisPassword, [], True),
      (''JWT_SECRET_FILE'', cf_JWTSecretFile, [], True),
      (''OTEL_EXPORTER_OTLP_ENDPOINT'', cf_OtelExporterOTLPEndpoint, [], False),
      (''OTEL_SERVICE_NAME'', cf_OtelServiceName, ''go-api'', True),
      (''VENDOR_BASE_URL'', cf_VendorBaseURL, [], False),
      (''VENDOR_TOKEN'', cf_VendorToken, [], True),
      (''LOG_LEVEL'', cf_LogLevel, ''info'', True)]"

definition documented_ints :: "(string \<times> (Config \<Rightarrow> goint) \<times> goint \<times> bool) list" where
  "documented_ints =
     [(''HTTP_PORT'', cf_HTTPPort, 8080, True),
      (''PG_MAX_OPEN_CONNS'', cf_PGMaxOpenConns, 25, True),
      (''PG_MAX_IDLE_CONNS'', cf_PGMaxIdleConns, 25, True),
      (''REDIS_DB'', cf_RedisDB, 0, False),
      (''RATE_LIMIT_RPM_DEFAULT'', cf_RateLimitRPMDefault, 100, True),
      (''PREDICT_RATE_LIMIT'', cf_PredictRateLimit, 60, True)]"

definition documented_durations :: "(string \<times> (Config \<Rightarrow> duration) \<times> duration \<times> bool) list" where
  "documented_durations =
     [(''PG_CONN_MAX_LIFETIME'', cf_PGConnMaxLifetime, 5 * 60 * second, True),
      (''PREDICT_RATE_WINDOW'', cf_PredictRateWindow, 60 * second, True)]"

text \<open>What is set: a non-empty environment variable before the config file.\<close>

definition set_value :: "(string \<rightharpoonup> string) \<Rightarrow> (string \<rightharpoonup> any) \<Rightarrow> string \<Rightarrow> bool \<Rightarrow> any option" where
  "set_value e f k env_alone =
     (if f k = None \<and> \<not> env_alone then None
      else case env_value e k of Some v \<Rightarrow> Some (AString v) | None \<Rightarrow> f k)"

definition fresh :: "viper_state \<Rightarrow> bool" where
  "fresh s \<longleftrightarrow> vs_file s = Map.empty \<and> vs_default s = Map.empty \<and> vs_bound s = [] \<and> \<not> vs_auto s"

definition disk_settings :: "viper_state \<Rightarrow> string \<rightharpoonup> any" where
  "disk_settings s = (case vs_disk s of None \<Rightarrow> Map.empty | Some f \<Rightarrow> f)"

lemma config_defaults_distinct: "distinct (map fst config_defaults)"
  by (simp add: config_defaults_def)

lemma LoadConfig_runs:
  assumes "runs_to (LoadConfig vp) w (cfg, None) w'"
  obtains r corsStr w1 w2 w3 w4 w5 w6 w7 w8 w9 where "runs_to (vp_SetConfigName vp ''config'') w () w1"
    "runs_to (vp_SetConfigType vp ''yaml'') w1 () w2" "runs_to (vp_AddConfigPath vp ''.'') w2 () w3" "runs_to (vp_ReadInConfig vp) w3 r w4"
    "runs_to (do_all (\<lambda>(k, v). vp_SetDefault vp k v) config_defaults) w4 () w5"
    "runs_to (vp_GetString vp ''CORS_ALLOWED_ORIGINS'') w5 corsStr w6" "runs_to (vp_AutomaticEnv vp) w6 () w7"
    "runs_to (vp_SetEnvKeyReplacer vp ''.'' ''_'') w7 () w8" "runs_to (do_all (vp_BindEnv vp) bound_env_keys) w8 () w9"
    "runs_to (vp_Unmarshal vp (zero_Config\<lparr>cf_CORSAllowedOrigins := cors_origins corsStr\<rparr>)) w9 (cfg, None) w'"
    "\<forall>err. r = Inl err \<longrightarrow> vp_is_ConfigFileNotFoundError vp err"
proof -
  let ?rest = "\<lambda>w4. \<exists>corsStr w5 w6 w7 w8 w9. runs_to (do_all (\<lambda>(k, v). vp_SetDefault vp k v) config_defaults) w4 () w5
    \<and> runs_to (vp_GetString vp ''CORS_ALLOWED_ORIGINS'') w5 corsStr w6 \<and> runs_to (vp_AutomaticEnv vp) w6 () w7
    \<and> runs_to (vp_SetEnvKeyReplacer vp ''.'' ''_'') w7 () w8 \<and> runs_to (do_all (vp_BindEnv vp) bound_env_keys) w8 () w9
    \<and> runs_to (vp_Unmarshal vp (zero_Config\<lparr>cf_CORSAllowedOrigins := cors_origins corsStr\<rparr>)) w9 (cfg, None) w'"
  from assms obtain w1 w2 w3 r w4 where "runs_to (vp_SetConfigName vp ''config'') w () w1"
    "runs_to (vp_SetConfigType vp ''yaml'') w1 () w2" "runs_to (vp_AddConfigPath vp ''.'') w2 () w3" "runs_to (vp_ReadInConfig vp) w3 r w4"
    and "(case r of Inr _ \<Rightarrow> None | Inl err \<Rightarrow> if vp_is_ConfigFileNotFoundError vp err then None else Some err) = None" "?rest w4"
    by (simp add: LoadConfig_def Let_def go_run) blast
  moreover from this(5) have "\<forall>err. r = Inl err \<longrightarrow> vp_is_ConfigFileNotFoundError vp err"
    by (auto split: if_splits)
  ultimately show thesis using that by blast
qed

text \<open>The lists of the code agree with the documented settings.\<close>

definition env_alone :: "string \<Rightarrow> bool" where
  "env_alone k \<longleftrightarrow> map_of config_defaults k \<noteq> None \<or> k \<in> set bound_env_keys"

lemma effective_set_value:
  "effective e f k = (case set_value e f k (env_alone k) of None \<Rightarrow> map_of config_defaults k | Some v \<Rightarrow> Some v)"
  by (auto simp: effective_def set_value_def env_alone_def split: option.splits)

lemma documented_minutes: "minutes ''5m'' = Some (5 * 60 * second)" "minutes ''1m'' = Some (60 * second)"
  by code_simp+

lemma documented_strings_fields:
  "list_all (\<lambda>(k, field, dflt, alone). (k, field) \<in> set string_fields \<and> alone = env_alone k
     \<and> map_of config_defaults k = (if dflt = [] then None else Some (AString dflt))) documented_strings"
  by (simp add: documented_strings_def string_fields_def env_alone_def config_defaults_def bound_env_keys_def)

lemma documented_ints_fields:
  "list_all (\<lambda>(k, field, dflt, alone). (k, field) \<in> set int_fields \<and> alone = env_alone k
     \<and> map_of config_defaults k = (if dflt = 0 then None else Some (AInt dflt))) documented_ints"
  by (simp add: documented_ints_def int_fields_def env_alone_def config_defaults_def bound_env_keys_def)

lemma documented_durations_fields:
  "list_all (\<lambda>(k, field, dflt, alone). (k, field) \<in> set duration_fields \<and> alone = env_alone k
     \<and> (\<exists>s. map_of config_defaults k = Some (AString s) \<and> minutes s = Some dflt)) documented_durations"
  by (simp add: documented_durations_def duration_fields_def env_alone_def config_defaults_def bound_env_keys_def documented_minutes)

lemma documented_others:
  "env_alone ''DEBUG''" "map_of config_defaults ''DEBUG'' = Some (ABool False)"
  "\<not> env_alone ''CORS_ALLOWED_ORIGINS''" "map_of config_defaults ''CORS_ALLOWED_ORIGINS'' = None"
  by (simp_all add: env_alone_def config_defaults_def bound_env_keys_def)

lemma duration_default:
  "duration_from (case v of None \<Rightarrow> dv | Some x \<Rightarrow> Some x) 0 new \<Longrightarrow> dv = Some (AString s) \<Longrightarrow> minutes s = Some d \<Longrightarrow>
   duration_from v d new"
  by (cases v) (simp_all add: duration_from_def)

lemma list_all_documented:
  assumes "list_all (\<lambda>(k, field, dflt, alone). (k, field) \<in> set fs \<and> Q k dflt alone) table"
    and "list_all (\<lambda>(k, field). P k field) fs"
    and "\<And>k field dflt alone. P k field \<Longrightarrow> Q k dflt alone \<Longrightarrow> R k field dflt alone"
  shows "list_all (\<lambda>(k, field, dflt, alone). R k field dflt alone) table"
  using assms unfolding list_all_iff by fast

locale viper_contract =
  fixes vp :: "'w viper" and vs :: "'w \<Rightarrow> viper_state"
  assumes SetConfigName: "runs_to (vp_SetConfigName vp n) w u w' \<Longrightarrow> vs w' = vs w"
    and SetConfigType: "runs_to (vp_SetConfigType vp n) w u w' \<Longrightarrow> vs w' = vs w"
    and AddConfigPath: "runs_to (vp_AddConfigPath vp n) w u w' \<Longrightarrow> vs w' = vs w"
    and ReadInConfig: "runs_to (vp_ReadInConfig vp) w r w' \<Longrightarrow>
      (case r of
         Inr _ \<Rightarrow> (\<exists>f. vs_disk (vs w) = Some f \<and> vs w' = (vs w)\<lparr>vs_file := f\<rparr>)
       | Inl err \<Rightarrow> vs w' = vs w \<and> (vp_is_ConfigFileNotFoundError vp err \<longleftrightarrow> vs_disk (vs w) = None))"
    and SetDefault: "runs_to (vp_SetDefault vp k v) w u w' \<Longrightarrow> vs w' = (vs w)\<lparr>vs_default := (vs_default (vs w))(k \<mapsto> v)\<rparr>"
    and GetString: "runs_to (vp_GetString vp k) w s w' \<Longrightarrow>
      vs w' = vs w \<and> (case viper_Get (vs w) k of None \<Rightarrow> s = [] | Some (AString t) \<Rightarrow> s = t | Some (AList _) \<Rightarrow> s = [] | _ \<Rightarrow> True)"
    and AutomaticEnv: "runs_to (vp_AutomaticEnv vp) w u w' \<Longrightarrow> vs w' = (vs w)\<lparr>vs_auto := True\<rparr>"
    and SetEnvKeyReplacer: "runs_to (vp_SetEnvKeyReplacer vp a b) w u w' \<Longrightarrow> vs w' = vs w"
    and BindEnv: "runs_to (vp_BindEnv vp k) w r w' \<Longrightarrow> vs w' = (vs w)\<lparr>vs_bound := k # vs_bound (vs w)\<rparr>"
    and Unmarshal: "runs_to (vp_Unmarshal vp c) w (c', None) w' \<Longrightarrow>
      list_all (\<lambda>(k, field). field_from (viper_setting (vs w) k) (field c) (field c')) string_fields
      \<and> list_all (\<lambda>(k, field). int_from (viper_setting (vs w) k) (field c) (field c')) int_fields
      \<and> list_all (\<lambda>(k, field). duration_from (viper_setting (vs w) k) (field c) (field c')) duration_fields
      \<and> bool_from (viper_setting (vs w) ''DEBUG'') (cf_Debug c) (cf_Debug c')
      \<and> origins_from (viper_setting (vs w) ''CORS_ALLOWED_ORIGINS'') (cf_CORSAllowedOrigins c) (cf_CORSAllowedOrigins c')"
begin

lemma SetDefaults:
  "runs_to (do_all (\<lambda>(k, v). vp_SetDefault vp k v) ds) w u w' \<Longrightarrow>
   vs w' = (vs w)\<lparr>vs_default := vs_default (vs w) ++ map_of (rev ds)\<rparr>"
proof (induction ds arbitrary: w)
  case (Cons d ds)
  obtain k v where d: "d = (k, v)" by (cases d)
  from Cons.prems obtain u1 w1 where
    run: "runs_to (vp_SetDefault vp k v) w u1 w1" "runs_to (do_all (\<lambda>(k, v). vp_SetDefault vp k v) ds) w1 u w'"
    by (auto simp: d go_run)
  show ?case
    by (rule viper_state.equality)
      (simp_all add: Cons.IH [OF run(2)] SetDefault [OF run(1)] d map_add_def fun_eq_iff split: option.splits)
qed simp

lemma BindEnvs:
  "runs_to (do_all (vp_BindEnv vp) ks) w u w' \<Longrightarrow> vs w' = (vs w)\<lparr>vs_bound := rev ks @ vs_bound (vs w)\<rparr>"
proof (induction ks arbitrary: w)
  case (Cons k ks)
  from Cons.prems obtain r w1 where run: "runs_to (vp_BindEnv vp k) w r w1" "runs_to (do_all (vp_BindEnv vp) ks) w1 u w'"
    by (auto simp: go_run)
  from Cons.IH [OF run(2)] BindEnv [OF run(1)] show ?case by simp
qed simp

lemma LoadConfig_settings:
  assumes "runs_to (LoadConfig vp) w (cfg, None) w'" "fresh (vs w)"
  shows "list_all (\<lambda>(k, field). field_from (effective (vs_env (vs w)) (disk_settings (vs w)) k) [] (field cfg)) string_fields"
    "list_all (\<lambda>(k, field). int_from (effective (vs_env (vs w)) (disk_settings (vs w)) k) 0 (field cfg)) int_fields"
    "list_all (\<lambda>(k, field). duration_from (effective (vs_env (vs w)) (disk_settings (vs w)) k) 0 (field cfg)) duration_fields"
    "bool_from (effective (vs_env (vs w)) (disk_settings (vs w)) ''DEBUG'') False (cf_Debug cfg)"
    "origins_from (effective (vs_env (vs w)) (disk_settings (vs w)) ''CORS_ALLOWED_ORIGINS'') [''*''] (cf_CORSAllowedOrigins cfg)"
proof -
  let ?f = "disk_settings (vs w)"
  from assms(1) obtain r corsStr w1 w2 w3 w4 w5 w6 w7 w8 w9 where run: "runs_to (vp_SetConfigName vp ''config'') w () w1"
      "runs_to (vp_SetConfigType vp ''yaml'') w1 () w2" "runs_to (vp_AddConfigPath vp ''.'') w2 () w3" "runs_to (vp_ReadInConfig vp) w3 r w4"
      "runs_to (do_all (\<lambda>(k, v). vp_SetDefault vp k v) config_defaults) w4 () w5"
      "runs_to (vp_GetString vp ''CORS_ALLOWED_ORIGINS'') w5 corsStr w6" "runs_to (vp_AutomaticEnv vp) w6 () w7"
      "runs_to (vp_SetEnvKeyReplacer vp ''.'' ''_'') w7 () w8" "runs_to (do_all (vp_BindEnv vp) bound_env_keys) w8 () w9"
      "runs_to (vp_Unmarshal vp (zero_Config\<lparr>cf_CORSAllowedOrigins := cors_origins corsStr\<rparr>)) w9 (cfg, None) w'"
      "\<forall>err. r = Inl err \<longrightarrow> vp_is_ConfigFileNotFoundError vp err"
    by (rule LoadConfig_runs)
  have w3: "vs w3 = vs w"
    using SetConfigName [OF run(1)] SetConfigType [OF run(2)] AddConfigPath [OF run(3)] by simp
  have w4: "vs w4 = (vs w)\<lparr>vs_file := ?f\<rparr>"
    using ReadInConfig [OF run(4)] run(11) assms(2) unfolding w3
    by (auto simp: disk_settings_def fresh_def split: sum.splits)
  have w5: "vs w5 = (vs w)\<lparr>vs_file := ?f, vs_default := map_of (rev config_defaults)\<rparr>"
    using SetDefaults [OF run(5)] assms(2) by (simp add: w4 fresh_def)
  have w9: "vs w9 = (vs w)\<lparr>vs_file := ?f, vs_default := map_of (rev config_defaults), vs_auto := True, vs_bound := rev bound_env_keys\<rparr>"
    using BindEnvs [OF run(9)] SetEnvKeyReplacer [OF run(8)] AutomaticEnv [OF run(7)] GetString [OF run(6)] assms(2)
    by (simp add: w5 fresh_def)
  have defaults: "map_of (rev config_defaults) = map_of config_defaults"
    using config_defaults_distinct by (intro map_of_inject_set [THEN iffD2]) (simp_all add: rev_map [symmetric])
  have eff: "viper_setting (vs w9) k = effective (vs_env (vs w)) ?f k" for k
    by (auto simp: w9 viper_setting_def viper_Get_def effective_def defaults split: option.splits)
  have "?f ''CORS_ALLOWED_ORIGINS'' = None \<Longrightarrow> corsStr = []"
    using GetString [OF run(6)] assms(2) by (simp add: w5 viper_Get_def fresh_def config_defaults_def)
  then have cors: "effective (vs_env (vs w)) ?f ''CORS_ALLOWED_ORIGINS'' = None \<Longrightarrow> cors_origins corsStr = [''*'']"
    by (auto simp: cors_origins_def effective_def split: if_splits option.splits)
  note u = Unmarshal [OF run(10), unfolded eff]
  show "list_all (\<lambda>(k, field). field_from (effective (vs_env (vs w)) ?f k) [] (field cfg)) string_fields"
    using u by (simp add: string_fields_def zero_Config_def)
  show "list_all (\<lambda>(k, field). int_from (effective (vs_env (vs w)) ?f k) 0 (field cfg)) int_fields"
    using u by (simp add: int_fields_def zero_Config_def)
  show "list_all (\<lambda>(k, field). duration_from (effective (vs_env (vs w)) ?f k) 0 (field cfg)) duration_fields"
    using u by (simp add: duration_fields_def zero_Config_def)
  show "bool_from (effective (vs_env (vs w)) ?f ''DEBUG'') False (cf_Debug cfg)"
    using u by (simp add: zero_Config_def)
  show "origins_from (effective (vs_env (vs w)) ?f ''CORS_ALLOWED_ORIGINS'') [''*''] (cf_CORSAllowedOrigins cfg)"
    using u cors by (auto simp: zero_Config_def origins_from_def split: option.splits)
qed

lemma LoadConfig_documented:
  assumes "runs_to (LoadConfig vp) w (cfg, None) w'" "fresh (vs w)"
  shows "list_all (\<lambda>(k, field, dflt, env_alone). field_from (set_value (vs_env (vs w)) (disk_settings (vs w)) k env_alone) dflt (field cfg))
      documented_strings"
    "list_all (\<lambda>(k, field, dflt, env_alone). int_from (set_value (vs_env (vs w)) (disk_settings (vs w)) k env_alone) dflt (field cfg))
      documented_ints"
    "list_all (\<lambda>(k, field, dflt, env_alone). duration_from (set_value (vs_env (vs w)) (disk_settings (vs w)) k env_alone) dflt (field cfg))
      documented_durations"
    "bool_from (set_value (vs_env (vs w)) (disk_settings (vs w)) ''DEBUG'' True) False (cf_Debug cfg)"
    "origins_from (set_value (vs_env (vs w)) (disk_settings (vs w)) ''CORS_ALLOWED_ORIGINS'' False) [''*''] (cf_CORSAllowedOrigins cfg)"
proof -
  let ?e = "vs_env (vs w)" and ?f = "disk_settings (vs w)"
  note eff = LoadConfig_settings [OF assms]
  show "list_all (\<lambda>(k, field, dflt, env_alone). field_from (set_value ?e ?f k env_alone) dflt (field cfg)) documented_strings"
    by (rule list_all_documented [OF documented_strings_fields eff(1)])
      (auto simp: effective_set_value field_from_def split: option.splits if_splits)
  show "list_all (\<lambda>(k, field, dflt, env_alone). int_from (set_value ?e ?f k env_alone) dflt (field cfg)) documented_ints"
    by (rule list_all_documented [OF documented_ints_fields eff(2)])
      (auto simp: effective_set_value int_from_def split: option.splits if_splits)
  show "list_all (\<lambda>(k, field, dflt, env_alone). duration_from (set_value ?e ?f k env_alone) dflt (field cfg)) documented_durations"
    by (rule list_all_documented [OF documented_durations_fields eff(3)])
      (auto simp: effective_set_value intro: duration_default)
  show "bool_from (set_value ?e ?f ''DEBUG'' True) False (cf_Debug cfg)"
    using eff(4) by (auto simp: effective_set_value documented_others bool_from_def split: option.splits)
  show "origins_from (set_value ?e ?f ''CORS_ALLOWED_ORIGINS'' False) [''*''] (cf_CORSAllowedOrigins cfg)"
    using eff(5) by (auto simp: effective_set_value documented_others origins_from_def split: option.splits)
qed

end

section \<open>A reference viper\<close>

text \<open>Viper on its own state; no file is ever malformed, so only a missing file is an error.\<close>

definition int_or :: "goint \<Rightarrow> any option \<Rightarrow> goint" where
  "int_or old v = (case v of Some (AInt n) \<Rightarrow> n
     | Some (AString s) \<Rightarrow> (case ParseInt s of Some n \<Rightarrow> n | None \<Rightarrow> old) | _ \<Rightarrow> old)"

definition duration_or :: "duration \<Rightarrow> any option \<Rightarrow> duration" where
  "duration_or old v = (case v of Some (AString s) \<Rightarrow> (case minutes s of Some d \<Rightarrow> d | None \<Rightarrow> old) | _ \<Rightarrow> old)"

definition bool_or :: "bool \<Rightarrow> any option \<Rightarrow> bool" where
  "bool_or old v = (case v of Some (ABool b) \<Rightarrow> b | _ \<Rightarrow> old)"

definition text_or :: "string \<Rightarrow> any option \<Rightarrow> string" where
  "text_or old v = (case v of Some (AString s) \<Rightarrow> s | _ \<Rightarrow> old)"

definition ref_decode :: "viper_state \<Rightarrow> Config \<Rightarrow> Config" where
  "ref_decode s c = (let f = \<lambda>k old. text_or old (viper_setting s k); i = \<lambda>k old. int_or old (viper_setting s k);
       t = \<lambda>k old. duration_or old (viper_setting s k) in c\<lparr>
     cf_HTTPPort := i ''HTTP_PORT'' (cf_HTTPPort c), cf_PGMaxOpenConns := i ''PG_MAX_OPEN_CONNS'' (cf_PGMaxOpenConns c),
     cf_PGMaxIdleConns := i ''PG_MAX_IDLE_CONNS'' (cf_PGMaxIdleConns c), cf_RedisDB := i ''REDIS_DB'' (cf_RedisDB c),
     cf_RateLimitRPMDefault := i ''RATE_LIMIT_RPM_DEFAULT'' (cf_RateLimitRPMDefault c),
     cf_PredictRateLimit := i ''PREDICT_RATE_LIMIT'' (cf_PredictRateLimit c),
     cf_PGConnMaxLifetime := t ''PG_CONN_MAX_LIFETIME'' (cf_PGConnMaxLifetime c),
     cf_PredictRateWindow := t ''PREDICT_RATE_WINDOW'' (cf_PredictRateWindow c),
     cf_Debug := bool_or (cf_Debug c) (viper_setting s ''DEBUG''),
     cf_AppEnv := f ''APP_ENV'' (cf_AppEnv c), cf_HTTPAddr := f ''HTTP_ADDR'' (cf_HTTPAddr c), cf_PGDSN := f ''PG_DSN'' (cf_PGDSN c),
     cf_RedisAddr := f ''REDIS_ADDR'' (cf_RedisAddr c), cf_RedisPassword := f ''REDIS_PASSWORD'' (cf_RedisPassword c),
     cf_JWTSecretFile := f ''JWT_SECRET_FILE'' (cf_JWTSecretFile c),
     cf_OtelExporterOTLPEndpoint := f ''OTEL_EXPORTER_OTLP_ENDPOINT'' (cf_OtelExporterOTLPEndpoint c),
     cf_OtelServiceName := f ''OTEL_SERVICE_NAME'' (cf_OtelServiceName c), cf_VendorBaseURL := f ''VENDOR_BASE_URL'' (cf_VendorBaseURL c),
     cf_VendorToken := f ''VENDOR_TOKEN'' (cf_VendorToken c), cf_LogLevel := f ''LOG_LEVEL'' (cf_LogLevel c),
     cf_CORSAllowedOrigins := (case viper_setting s ''CORS_ALLOWED_ORIGINS'' of
         Some (AString t) \<Rightarrow> strings_Split t (CHR '','') | _ \<Rightarrow> cf_CORSAllowedOrigins c)\<rparr>)"

definition ref_viper :: "viper_state viper" where
  "ref_viper = \<lparr>
     vp_SetConfigName = (\<lambda>_. go_return ()), vp_SetConfigType = (\<lambda>_. go_return ()), vp_AddConfigPath = (\<lambda>_. go_return ()),
     vp_ReadInConfig = State (\<lambda>s. case vs_disk s of
         None \<Rightarrow> (Inl (ErrorString ''not found''), s) | Some f \<Rightarrow> (Inr (), s\<lparr>vs_file := f\<rparr>)),
     vp_is_ConfigFileNotFoundError = (\<lambda>_. True),
     vp_SetDefault = (\<lambda>k v. State (\<lambda>s. ((), s\<lparr>vs_default := (vs_default s)(k \<mapsto> v)\<rparr>))),
     vp_GetString = (\<lambda>k. State (\<lambda>s. (text_or [] (viper_Get s k), s))),
     vp_AutomaticEnv = State (\<lambda>s. ((), s\<lparr>vs_auto := True\<rparr>)),
     vp_SetEnvKeyReplacer = (\<lambda>_ _. go_return ()),
     vp_BindEnv = (\<lambda>k. State (\<lambda>s. (Inr (), s\<lparr>vs_bound := k # vs_bound s\<rparr>))),
     vp_Unmarshal = (\<lambda>c. State (\<lambda>s. ((ref_decode s c, None), s)))\<rparr>"

lemma field_from_text_or: "field_from v old (text_or old v)"
  by (auto simp: field_from_def text_or_def split: option.splits any.splits)

lemma typed_from_or: "int_from v i (int_or i v)" "duration_from v d (duration_or d v)" "bool_from v b (bool_or b v)"
  by (auto simp: int_from_def int_or_def duration_from_def duration_or_def bool_from_def bool_or_def ParseInt_FormatInt
      split: option.splits any.splits)

interpretation ref_viper: viper_contract ref_viper id
proof
  fix c w c' w'
  assume "runs_to (vp_Unmarshal ref_viper c) w (c', None) w'"
  then have c': "c' = ref_decode w c" by (auto simp: ref_viper_def runs_to_def)
  show "list_all (\<lambda>(k, field). field_from (viper_setting (id w) k) (field c) (field c')) string_fields
    \<and> list_all (\<lambda>(k, field). int_from (viper_setting (id w) k) (field c) (field c')) int_fields
    \<and> list_all (\<lambda>(k, field). duration_from (viper_setting (id w) k) (field c) (field c')) duration_fields
    \<and> bool_from (viper_setting (id w) ''DEBUG'') (cf_Debug c) (cf_Debug c')
    \<and> origins_from (viper_setting (id w) ''CORS_ALLOWED_ORIGINS'') (cf_CORSAllowedOrigins c) (cf_CORSAllowedOrigins c')"
    by (simp add: c' ref_decode_def Let_def string_fields_def int_fields_def duration_fields_def field_from_text_or typed_from_or
        origins_from_def split: option.splits any.splits)
qed (auto simp: ref_viper_def runs_to_def text_or_def split: option.splits sum.splits any.splits)

section \<open>Theorems\<close>


definition deployed :: viper_state where
  "deployed = \<lparr>vs_disk = Some [''VENDOR_BASE_URL'' \<mapsto> AString ''http://localhost:8000'', ''LOG_LEVEL'' \<mapsto> AString ''warn''],
     vs_file = Map.empty, vs_default = Map.empty, vs_env = [''VENDOR_BASE_URL'' \<mapsto> ''https://vendor'', ''PG_DSN'' \<mapsto> ''postgres://db''],
     vs_bound = [], vs_auto = False\<rparr>"

lemma ref_LoadConfig_ok: "snd (val_of (LoadConfig ref_viper) s) = None"
  by (cases "vs_disk s") (simp_all add: val_of_def LoadConfig_def ref_viper_def config_defaults_def bound_env_keys_def Let_def split_beta)

lemma ref_LoadConfig_runs:
  "runs_to (LoadConfig ref_viper) s (fst (val_of (LoadConfig ref_viper) s), None) (end_of (LoadConfig ref_viper) s)"
  using ref_LoadConfig_ok [of s] by (simp add: runs_to_iff prod_eq_iff)


text \<open>
  C38. Without a config file, settings that have no default and are not bound cannot be set at all: the
  vendor's address is empty and every origin is allowed, whatever the environment says.
\<close>

theorem unbound_settings_need_a_file:
  assumes "viper_contract vp vs" "runs_to (LoadConfig vp) w (cfg, None) w'" "fresh (vs w)" "vs_disk (vs w) = None"
  shows "cf_VendorBaseURL cfg = [] \<and> cf_OtelExporterOTLPEndpoint cfg = [] \<and> cf_CORSAllowedOrigins cfg = [''*'']"
  using viper_contract.LoadConfig_settings(1,5) [OF assms(1-3)] assms(4)
  by (simp add: string_fields_def field_from_def origins_from_def effective_def disk_settings_def config_defaults_def
      bound_env_keys_def)

theorem unbound_settings_need_a_file_witness:
  "cf_VendorBaseURL (fst (val_of (LoadConfig ref_viper) (deployed\<lparr>vs_disk := None\<rparr>))) = []
   \<and> vs_env deployed ''VENDOR_BASE_URL'' = Some ''https://vendor''"
  using unbound_settings_need_a_file [OF ref_viper.viper_contract_axioms ref_LoadConfig_runs, of "deployed\<lparr>vs_disk := None\<rparr>"]
  by (simp add: deployed_def fresh_def)

end
