(* ===== verification/Spec2Isabelle.thy ===== *)
theory Spec2Isabelle
  imports Rate_Limit Predict_Log Keys Deployment Settings
begin

text \<open>
  Verification of fraudai-service, a Go HTTP service that gives users accounts and API keys, passes
  their fraud-prediction requests on to a vendor, and logs each prediction.

  \<^bold>\<open>The program and its model.\<close> A request passes the global middleware, the route's authentication, the
  rate limiter and a handler; handlers call services, services call repositories and the vendor
  client, repositories run SQL and use Redis as a cache. An effectful Go function is an action of the
  state monad over an abstract world, a Go interface is a record of actions, and a constructor
  (\<open>NewAPIKeyRepository\<close>, \<open>NewAuthService\<close>, \<open>NewRouter\<close>) builds that record from the ones below it,
  as in the code. Errors are values, integers have Go's widths, strings are byte strings. The
  theories follow the packages:

  \<^item> \<open>Prelude\<close>: widths, Go errors with \<open>errors.Is\<close> and \<open>errors.As\<close>, the ambient environment (clock,
    randomness, loggers), \<open>runs_to\<close> with its rules in the collection \<open>go_run\<close>.
  \<^item> \<open>Go_Strings\<close>, \<open>Go_Json\<close>, \<open>Go_Float\<close>, \<open>Go_Any\<close>, \<open>Go_Http\<close>, \<open>Go_Time\<close>, \<open>Go_Sha256\<close>: what the service
    uses of the standard library, at the level of bytes: JSON reading and writing, \<open>float64\<close>, header
    maps and response writers, RFC 3339 times, SHA-256.
  \<^item> \<open>Db\<close> (\<open>internal/db\<close>: all queries), \<open>Connect\<close> (\<open>database.go\<close>, \<open>redis.go\<close>), \<open>Redis\<close> (the commands and
    the contracts \<open>redis_server\<close>, \<open>redis_reliable\<close>), \<open>Repo\<close> (\<open>internal/repo\<close> with its key cache).
  \<^item> \<open>Client\<close> (\<open>internal/clients/thirdparty.go\<close>), \<open>Service\<close> and \<open>Vendor\<close> (\<open>internal/service\<close>).
  \<^item> \<open>Middleware\<close> (\<open>internal/transport/http/middleware\<close>, response helpers), \<open>Requests\<close> (request structs,
    their decoders and validation tags), \<open>Handlers\<close> (\<open>handlers.go\<close>, \<open>auth_handlers.go\<close>), \<open>Router\<close>
    (\<open>router.go\<close> as a tree of routes), \<open>Config\<close> (\<open>config.go\<close>, \<open>logging.go\<close>), \<open>Startup\<close>
    (\<open>cmd/api/main.go\<close>: \<open>start\<close> builds the server, \<open>lifecycle\<close> is the process as a machine over
    events).
  \<^item> \<open>World\<close>: a reference world (tables, Redis with expiry, clock, faults, vendor) on which every
    contract is interpreted and every witness is evaluated.

  \<^bold>\<open>Code that is not in the repository\<close> (database driver, go-redis, resty, gobreaker, Prometheus, JWT,
  bcrypt, validator, viper, chi, cors, zerolog) is an argument of the definitions. What a property
  needs of it is a locale: \<open>key_queries\<close>, \<open>user_queries\<close> and \<open>inference_logs\<close> for the tables,
  \<open>redis_server\<close>, \<open>redis_reliable\<close> and \<open>redis_counter\<close> for Redis, \<open>vendor_metrics\<close>, \<open>jwt_contract\<close>,
  \<open>accounts\<close> (bcrypt), \<open>validator\<close>, \<open>viper_contract\<close>, \<open>chi_dispatch\<close>, \<open>process_effects\<close>; \<open>key_cache\<close> is
  what the cached repository provides on top of its two contracts. Each is interpreted on a reference
  instance.

  \<^bold>\<open>What is shown.\<close>

  \<^item> \<open>Repo_Runs\<close>: in every reachable state the cached key repository answers like the table, a deleted
    key stays deleted, only the owner deletes; with a lost cache write or a concurrent lookup the
    deletion can be undone.
  \<^item> \<open>Rate_Limit\<close>: exactly the limit is admitted per window; counters are separate per principal and
    endpoint; header values; the effects of fixed and of sub-second windows.
  \<^item> \<open>Tokens\<close>, \<open>Accounts\<close>, \<open>Keys\<close>: sign-up and sign-in round trip, life and expiry of tokens, soundness
    of API keys from creation to revocation, rates within bounds, and the error answers for taken
    addresses, long passwords and outages; ids above \<open>2 ^ 53\<close> are confused.
  \<^item> \<open>Vendor\<close>, \<open>Predict_Log\<close>: deterministic model lists, what \<open>ensureDecimal\<close> does up to and from \<open>2 ^ 47\<close>,
    every vendor call counted, one audit row per prediction with the caller's identity, invalid
    requests kept from the vendor, and what the log does not show.
  \<^item> \<open>Routes\<close>: every endpoint answers, protected endpoints refuse anonymous requests without effects,
    requests reach the endpoint of their path through its whole stack.
  \<^item> \<open>Settings\<close>, \<open>Startup\<close>, \<open>Deployment\<close>: the source of each setting, start-up is all or nothing, the
    process ends and closes its pool exactly on a clean exit, and a session works on the service as
    \<open>main\<close> assembles it.

  \<^bold>\<open>Bounds.\<close> The JSON reader recurses with fuel \<open>2 * length s + 2\<close>, which is always enough
  (\<open>parse_value_fuel\<close>); its nesting limit is Go's 10000. Shortest float printing tries 17 digits, the
  most a \<open>float64\<close> needs. All other recursion is structural or has a measure.

  \<^bold>\<open>Not modelled.\<close> Contexts are only the two request values, so cancellation is an error a contract
  allows, not an event. Time zones other than UTC, TLS, connection handling inside \<open>net/http\<close>, and the
  Go memory model are left out; requests interleave only between the atomic commands of a store, and
  \<open>Repo_Runs\<close> states one such interleaving explicitly. \<open>PrepareContext\<close> and \<open>WithTx\<close> of the generated
  query code are unused by the service. Migrations, container files and tests are not Go code of
  the service; what the schema makes the statements do is in \<open>World\<close>.
\<close>

end
